theory Spec2Isabelle
  imports Main "HOL-Library.Word"
begin

unbundle bit_operations_syntax

section \<open>ROMP helper: data model\<close>

text \<open>
  The development follows \<^verbatim>\<open>romp_helper.c\<close>, the C extension that carries the
  ROMP wire protocol. Bytes are \<open>8 word\<close>, the two 16-bit types of the source
  (\<^verbatim>\<open>MESSAGE_TYPE_T\<close>, \<^verbatim>\<open>OBJECT_ID_T\<close>) are \<open>16 word\<close>, \<^verbatim>\<open>size_t\<close> is \<open>64 word\<close>
  and the C type \<^verbatim>\<open>int\<close> is \<open>32 word\<close>.
\<close>

type_synonym byte = "8 word"
type_synonym uint16_t = "16 word"
type_synonym MESSAGE_TYPE_T = "16 word"
type_synonym OBJECT_ID_T = "16 word"

text \<open>
  Ruby values (\<^verbatim>\<open>VALUE\<close>), as far as the helper looks into them: the immediates,
  integers, strings, arrays, exception objects (class name, message, backtrace),
  \<^verbatim>\<open>ROMP::Object_Reference\<close> markers (carrying what their \<^verbatim>\<open>object_id\<close> method
  returns), the \<^verbatim>\<open>ROMP::Session\<close> data object, \<^verbatim>\<open>ROMP::Proxy_Object\<close> data
  objects (the address of the wrapped struct) and any other application object.
\<close>

datatype VALUE =
    Qnil
  | Qtrue
  | Qfalse
  | Num int
  | Str string
  | Ary "VALUE list"
  | Exc string VALUE VALUE
  | Object_Reference VALUE
  | Data_Session
  | Data_Proxy_Object nat
  | Obj nat

text \<open>
  What the process does that can be seen from outside, in order: a \<^verbatim>\<open>write\<close> of
  bytes on the session's descriptor, a method invocation on a target, a value handed
  to the caller's block, an exception printed by \<^verbatim>\<open>ROMP::print_exception\<close>, and
  \<^verbatim>\<open>lock\<close>/\<^verbatim>\<open>unlock\<close> on a mutex.
\<close>

datatype event =
    Wrote "byte list"
  | Invoked VALUE VALUE
  | Yielded VALUE
  | Printed VALUE
  | Locked VALUE
  | Unlocked VALUE

text \<open>
  The collaborators on the Ruby side, which the helper reaches through
  \<^verbatim>\<open>rb_funcall\<close>, \<^verbatim>\<open>rb_apply\<close>, \<^verbatim>\<open>rb_iterate\<close> and \<^verbatim>\<open>rb_yield\<close>. A result
  \<open>Inl e\<close> is the exception object \<open>e\<close> being raised.
  \<^item> \<open>Marshal_dump\<close>, \<open>Marshal_load\<close>: \<^verbatim>\<open>Marshal.dump\<close> and \<^verbatim>\<open>Marshal.load\<close>;
  \<^item> \<open>get_object\<close>: the resolver's \<^verbatim>\<open>get_object(id)\<close>;
  \<^item> \<open>apply_send\<close>: \<^verbatim>\<open>obj.send(*msg)\<close> without a block;
  \<^item> \<open>iterate_send\<close>: \<^verbatim>\<open>obj.send(*msg)\<close> with a block: the values it yields, in
    order, and how it ends when every yield returns;
  \<^item> \<open>Array_slice_bang\<close>: \<^verbatim>\<open>ary.slice!(min..max)\<close>: the array as the call leaves it;
  \<^item> \<open>Kernel_caller\<close>: the array \<^verbatim>\<open>Kernel.caller(0)\<close>;
  \<^item> \<open>block\<close>: the block of the current client call, if one was given.
\<close>

record ruby =
  Marshal_dump :: "VALUE \<Rightarrow> VALUE + byte list"
  Marshal_load :: "byte list \<Rightarrow> VALUE + VALUE"
  get_object :: "VALUE \<Rightarrow> int \<Rightarrow> VALUE + VALUE"
  apply_send :: "VALUE \<Rightarrow> VALUE \<Rightarrow> VALUE + VALUE"
  iterate_send :: "VALUE \<Rightarrow> VALUE \<Rightarrow> VALUE list \<times> (VALUE + VALUE)"
  Array_slice_bang :: "VALUE list \<Rightarrow> int \<Rightarrow> int \<Rightarrow> VALUE + VALUE list"
  Kernel_caller :: "VALUE list"
  block :: "(VALUE \<Rightarrow> VALUE + VALUE) option"

text \<open>\<^verbatim>\<open>ROMP_Message\<close>: the three components of a message.\<close>

record ROMP_Message =
  message_type :: MESSAGE_TYPE_T
  object_id :: OBJECT_ID_T
  message_obj :: VALUE

text \<open>
  \<^verbatim>\<open>Proxy_Object\<close>. The development follows one connection, so the field
  \<^verbatim>\<open>session\<close> (the struct inside \<^verbatim>\<open>ruby_session\<close>) always points to the session of
  the world below and is not stored a second time.
\<close>

record Proxy_Object =
  ruby_session :: VALUE
  proxy_object_id :: OBJECT_ID_T
  message :: VALUE
  mutex :: VALUE

text \<open>
  How a descriptor stops serving, as \<^verbatim>\<open>READ_HELPER\<close>, \<^verbatim>\<open>WRITE_HELPER\<close> and the loops
  around them see it: \<^verbatim>\<open>read\<close> or \<^verbatim>\<open>write\<close> returns 0 with bytes still to transfer
  (the peer is gone), the call fails with an error other than \<^verbatim>\<open>EWOULDBLOCK\<close>, or
  \<^verbatim>\<open>rb_thread_select\<close> fails with such an error.
\<close>

datatype io_failure = Returns_zero | Call_fails | Select_fails

text \<open>
  The state of the process: the \<^verbatim>\<open>ROMP_Session\<close> of the connection, namely
  \<^item> \<open>rd\<close>: the bytes that \<^verbatim>\<open>read_fd\<close> still delivers, and \<open>rd_end\<close>: what
    happens at the read that needs a byte beyond them,
  \<^item> \<open>wr_room\<close>: how many bytes \<^verbatim>\<open>write_fd\<close> still accepts (\<open>None\<close>: no limit),
    and \<open>wr_end\<close>: what happens at the write that needs more room,
  \<^item> \<open>buf\<close>: the scratch buffer \<^verbatim>\<open>session->buf\<close> of \<^verbatim>\<open>ROMP_BUFFER_SIZE\<close> bytes;
  together with the events so far and the heap of \<^verbatim>\<open>Proxy_Object\<close> structs (the
  address of a struct is its index). The flag \<^verbatim>\<open>nonblock\<close> only decides whether the
  first \<^verbatim>\<open>read\<close>/\<^verbatim>\<open>write\<close> is tried after a \<^verbatim>\<open>select\<close>; the bytes transferred are the
  same, so it is left out.
\<close>

record world =
  rd :: "byte list"
  rd_end :: io_failure
  wr_room :: "nat option"
  wr_end :: io_failure
  buf :: "byte list"
  log :: "event list"
  proxies :: "Proxy_Object list"

definition ROMP_REQUEST :: uint16_t where "ROMP_REQUEST = 0x1001"
definition ROMP_REQUEST_BLOCK :: uint16_t where "ROMP_REQUEST_BLOCK = 0x1002"
definition ROMP_ONEWAY :: uint16_t where "ROMP_ONEWAY = 0x1003"
definition ROMP_ONEWAY_SYNC :: uint16_t where "ROMP_ONEWAY_SYNC = 0x1004"
definition ROMP_RETVAL :: uint16_t where "ROMP_RETVAL = 0x2001"
definition ROMP_EXCEPTION :: uint16_t where "ROMP_EXCEPTION = 0x2002"
definition ROMP_YIELD :: uint16_t where "ROMP_YIELD = 0x2003"
definition ROMP_SYNC :: uint16_t where "ROMP_SYNC = 0x4001"
definition ROMP_NULL_MSG :: uint16_t where "ROMP_NULL_MSG = 0x4002"
definition ROMP_MSG_START :: "32 word" where "ROMP_MSG_START = 0x4242"
definition ROMP_MAX_ID :: "32 word" where "ROMP_MAX_ID = push_bit 16 1"
definition ROMP_MAX_MSG_TYPE :: "32 word" where "ROMP_MAX_MSG_TYPE = push_bit 16 1"
definition ROMP_BUFFER_SIZE :: nat where "ROMP_BUFFER_SIZE = 16"

section \<open>Useful macros\<close>

text \<open>
  \<^verbatim>\<open>PUTSHORT(s, buf)\<close> stores \<^verbatim>\<open>s >> 8\<close> and \<^verbatim>\<open>s & 0xff\<close> into two \<^verbatim>\<open>char\<close>s (each
  store keeps the low eight bits) and advances \<^verbatim>\<open>buf\<close> by two. The macro is used at
  several integer types.
\<close>

definition PUTSHORT :: "'a::len word \<Rightarrow> byte list" where
  "PUTSHORT s = [ucast (drop_bit 8 s), ucast (s AND 0xff)]"

text \<open>
  \<^verbatim>\<open>GETSHORT(s, buf)\<close> at offset \<open>i\<close> of a buffer: \<^verbatim>\<open>s = (unsigned char)buf[i]\<close>, then
  \<^verbatim>\<open>s = (s << 8) | (unsigned char)buf[i+1]\<close>, with \<^verbatim>\<open>s\<close> a \<^verbatim>\<open>uint16_t\<close>. It is
  only applied at the offsets 0, 2, 4 and 6 of a buffer that holds a window of
  \<^verbatim>\<open>ROMP_BUFFER_SIZE\<close> bytes just read.
\<close>

definition GETSHORT :: "byte list \<Rightarrow> nat \<Rightarrow> uint16_t" where
  "GETSHORT b i = (let s = (ucast (b ! i) :: uint16_t) in push_bit 8 s OR ucast (b ! Suc i))"

section \<open>Utility functions\<close>

text \<open>
  \<^verbatim>\<open>rb_raise(klass, text)\<close> and \<^verbatim>\<open>rb_sys_fail(text)\<close> make an exception object whose
  backtrace is the Ruby call stack.
\<close>

definition rb_raise :: "ruby \<Rightarrow> string \<Rightarrow> string \<Rightarrow> VALUE" where
  "rb_raise r klass text = Exc klass (Str text) (Ary (Kernel_caller r))"

definition rb_sys_fail :: "ruby \<Rightarrow> string \<Rightarrow> VALUE" where
  "rb_sys_fail r text = Exc ''SystemCallError'' (Str text) (Ary (Kernel_caller r))"

text \<open>
  The three ways out of \<^verbatim>\<open>ruby_read_throw\<close> and \<^verbatim>\<open>ruby_write_throw\<close> other than
  the return: \<^verbatim>\<open>rb_raise(rb_eIOError, "disconnected")\<close> when the call returns 0 with
  \<open>count\<close> not 0, \<^verbatim>\<open>rb_sys_fail\<close> with the name of the call when it fails, and
  \<^verbatim>\<open>rb_sys_fail("select")\<close> when the select of the loop fails.
\<close>

definition io_raise :: "ruby \<Rightarrow> string \<Rightarrow> io_failure \<Rightarrow> VALUE" where
  "io_raise r call f =
     (case f of
        Returns_zero \<Rightarrow> rb_raise r ''IOError'' ''disconnected''
      | Call_fails \<Rightarrow> rb_sys_fail r call
      | Select_fails \<Rightarrow> rb_sys_fail r ''select'')"

text \<open>
  \<^verbatim>\<open>ruby_write_throw(fd, buf, count, nonblock)\<close> loops until all \<open>count\<close> bytes are
  written, keeping partial progress; a \<^verbatim>\<open>write\<close> that would block only waits. The
  descriptor accepts bytes until its room is used up; at the write that needs more
  room the bytes accepted so far stay written and the exception of \<open>wr_end\<close> is
  raised.
\<close>

definition ruby_write_throw :: "ruby \<Rightarrow> byte list \<Rightarrow> world \<Rightarrow> (VALUE + unit) \<times> world" where
  "ruby_write_throw r bytes w =
     (case wr_room w of
        None \<Rightarrow> (Inr (), w\<lparr>log := log w @ [Wrote bytes]\<rparr>)
      | Some k \<Rightarrow>
          if length bytes \<le> k
          then (Inr (), w\<lparr>log := log w @ [Wrote bytes], wr_room := Some (k - length bytes)\<rparr>)
          else (Inl (io_raise r ''write'' (wr_end w)),
                w\<lparr>log := log w @ [Wrote (take k bytes)], wr_room := Some 0\<rparr>))"

text \<open>
  \<^verbatim>\<open>ruby_read_throw(fd, buf, count, nonblock)\<close> loops until \<open>count\<close> bytes are read,
  keeping partial progress; a \<^verbatim>\<open>read\<close> that would block only waits. When the
  descriptor has fewer than \<open>count\<close> bytes left to deliver, those are read and then
  the exception of \<open>rd_end\<close> is raised: \<^verbatim>\<open>IOError\<close> "disconnected" at the end of the
  stream, \<^verbatim>\<open>rb_sys_fail("read")\<close> or \<^verbatim>\<open>rb_sys_fail("select")\<close> on an error. A call
  with \<open>count\<close> 0 transfers nothing and returns: a \<^verbatim>\<open>read\<close> of no bytes is taken to
  return 0. The second component is what was transferred into the destination
  buffer.
\<close>

definition ruby_read_throw :: "ruby \<Rightarrow> nat \<Rightarrow> world \<Rightarrow> (VALUE + unit) \<times> byte list \<times> world" where
  "ruby_read_throw r count w =
     (let got = take count (rd w); w' = w\<lparr>rd := drop count (rd w)\<rparr>
      in if length got < count then (Inl (io_raise r ''read'' (rd_end w)), got, w')
         else (Inr (), got, w'))"

text \<open>Bytes transferred into \<^verbatim>\<open>session->buf\<close>, from its start.\<close>

definition store_buf :: "byte list \<Rightarrow> world \<Rightarrow> world" where
  "store_buf got w = w\<lparr>buf := got @ drop (length got) (buf w)\<rparr>"

text \<open>All bytes written on the session's descriptor so far.\<close>

fun wrote_bytes :: "event \<Rightarrow> byte list" where
  "wrote_bytes (Wrote bs) = bs"
| "wrote_bytes _ = []"

definition wire :: "world \<Rightarrow> byte list" where
  "wire w = concat (map wrote_bytes (log w))"

section \<open>Marshalling functions\<close>

definition marshal_dump :: "ruby \<Rightarrow> VALUE \<Rightarrow> VALUE + byte list" where
  "marshal_dump r obj = Marshal_dump r obj"

definition marshal_load :: "ruby \<Rightarrow> byte list \<Rightarrow> VALUE + VALUE" where
  "marshal_load r str = Marshal_load r str"

section \<open>Session functions\<close>

text \<open>
  The four \<^verbatim>\<open>PUTSHORT\<close>s of \<^verbatim>\<open>send_message_helper\<close>: magic (an \<^verbatim>\<open>int\<close> constant),
  \<open>len\<close> (a \<^verbatim>\<open>size_t\<close>), message type and object id.
\<close>

definition put_header :: "64 word \<Rightarrow> MESSAGE_TYPE_T \<Rightarrow> OBJECT_ID_T \<Rightarrow> byte list" where
  "put_header len mt oid =
     PUTSHORT ROMP_MSG_START @ PUTSHORT len @ PUTSHORT mt @ PUTSHORT oid"

text \<open>
  \<^verbatim>\<open>send_message_helper\<close> puts the header at the start of \<^verbatim>\<open>session->buf\<close>, writes
  \<^verbatim>\<open>ROMP_BUFFER_SIZE\<close> bytes of \<^verbatim>\<open>session->buf\<close> and then the \<open>len\<close> bytes of data.
\<close>

definition send_message_helper ::
  "ruby \<Rightarrow> byte list \<Rightarrow> MESSAGE_TYPE_T \<Rightarrow> OBJECT_ID_T \<Rightarrow> world \<Rightarrow> (VALUE + unit) \<times> world" where
  "send_message_helper r data mt oid w =
     (let len = (of_nat (length data) :: 64 word);
          w1 = store_buf (put_header len mt oid) w
      in case ruby_write_throw r (take ROMP_BUFFER_SIZE (buf w1)) w1 of
           (Inl e, w2) \<Rightarrow> (Inl e, w2)
         | (Inr _, w2) \<Rightarrow> ruby_write_throw r data w2)"

definition send_message :: "ruby \<Rightarrow> ROMP_Message \<Rightarrow> world \<Rightarrow> (VALUE + unit) \<times> world" where
  "send_message r m w =
     (case marshal_dump r (message_obj m) of
        Inl e \<Rightarrow> (Inl e, w)
      | Inr data \<Rightarrow> send_message_helper r data (message_type m) (object_id m) w)"

definition send_null_message :: "ruby \<Rightarrow> world \<Rightarrow> (VALUE + unit) \<times> world" where
  "send_null_message r w = send_message_helper r [] ROMP_NULL_MSG 0 w"

text \<open>The four \<^verbatim>\<open>GETSHORT\<close>s of \<^verbatim>\<open>get_message\<close>: magic, data length, type, object id.\<close>

definition get_header :: "byte list \<Rightarrow> uint16_t \<times> uint16_t \<times> MESSAGE_TYPE_T \<times> OBJECT_ID_T" where
  "get_header b = (GETSHORT b 0, GETSHORT b 2, GETSHORT b 4, GETSHORT b 6)"

text \<open>
  The \<^verbatim>\<open>do ... while(magic != ROMP_MSG_START)\<close> loop of \<^verbatim>\<open>get_message\<close>: read
  \<^verbatim>\<open>ROMP_BUFFER_SIZE\<close> bytes into \<^verbatim>\<open>session->buf\<close>, take the four fields, repeat while
  the magic is wrong. The result also counts the windows whose magic was wrong.
\<close>

function get_message_header ::
  "ruby \<Rightarrow> nat \<Rightarrow> world \<Rightarrow> (VALUE + (uint16_t \<times> MESSAGE_TYPE_T \<times> OBJECT_ID_T)) \<times> nat \<times> world" where
  "get_message_header r n w =
     (case ruby_read_throw r ROMP_BUFFER_SIZE w of
        (Inl e, got, w1) \<Rightarrow> (Inl e, n, store_buf got w1)
      | (Inr _, got, w1) \<Rightarrow>
          (case get_header (buf (store_buf got w1)) of
             (magic, data_len, mt, oid) \<Rightarrow>
               if ucast magic \<noteq> ROMP_MSG_START
               then get_message_header r (Suc n) (store_buf got w1)
               else (Inr (data_len, mt, oid), n, store_buf got w1)))"
  by pat_completeness auto
termination
  by (relation "measure (\<lambda>(r, n, w). length (rd w))")
     (auto simp: ruby_read_throw_def store_buf_def ROMP_BUFFER_SIZE_def Let_def split: if_splits)

declare get_message_header.simps [simp del]

text \<open>
  \<^verbatim>\<open>get_message\<close>: after the header loop, read \<open>data_len\<close> bytes into a fresh buffer;
  the message object is \<^verbatim>\<open>Qnil\<close> for \<^verbatim>\<open>ROMP_NULL_MSG\<close> and \<^verbatim>\<open>Marshal.load\<close> of the
  bytes otherwise.
\<close>

definition get_message :: "ruby \<Rightarrow> world \<Rightarrow> (VALUE + ROMP_Message) \<times> world" where
  "get_message r w =
     (case get_message_header r 0 w of
        (Inl e, n, w1) \<Rightarrow> (Inl e, w1)
      | (Inr (data_len, mt, oid), n, w1) \<Rightarrow>
          (case ruby_read_throw r (unat data_len) w1 of
             (Inl e, got, w2) \<Rightarrow> (Inl e, w2)
           | (Inr _, got, w2) \<Rightarrow>
               if mt \<noteq> ROMP_NULL_MSG
               then (case marshal_load r got of
                       Inl e \<Rightarrow> (Inl e, w2)
                     | Inr v \<Rightarrow> (Inr \<lparr>message_type = mt, object_id = oid, message_obj = v\<rparr>, w2))
               else (Inr \<lparr>message_type = mt, object_id = oid, message_obj = Qnil\<rparr>, w2)))"

definition send_sync :: "ruby \<Rightarrow> world \<Rightarrow> (VALUE + unit) \<times> world" where
  "send_sync r w =
     send_message r \<lparr>message_type = ROMP_SYNC, object_id = 0, message_obj = Qnil\<rparr> w"

text \<open>
  \<^verbatim>\<open>wait_sync\<close> reads one message and raises only when the type is not
  \<^verbatim>\<open>ROMP_SYNC\<close> and the object id is not 1 and the object is not \<^verbatim>\<open>Qnil\<close>, all three.
\<close>

definition wait_sync :: "ruby \<Rightarrow> world \<Rightarrow> (VALUE + unit) \<times> world" where
  "wait_sync r w =
     (case get_message r w of
        (Inl e, w1) \<Rightarrow> (Inl e, w1)
      | (Inr m, w1) \<Rightarrow>
          if message_type m \<noteq> ROMP_SYNC \<and> object_id m \<noteq> 1 \<and> message_obj m \<noteq> Qnil
          then (Inl (rb_raise r ''RuntimeError'' ''ROMP synchronization failed''), w1)
          else (Inr (), w1))"

text \<open>\<^verbatim>\<open>reply_sync(session, int value)\<close>.\<close>

definition reply_sync :: "ruby \<Rightarrow> 32 word \<Rightarrow> world \<Rightarrow> (VALUE + unit) \<times> world" where
  "reply_sync r v w =
     (if v = 0
      then send_message r \<lparr>message_type = ROMP_SYNC, object_id = 1, message_obj = Qnil\<rparr> w
      else (Inr (), w))"

section \<open>Calls into the interpreter\<close>

text \<open>
  \<^verbatim>\<open>exc.message\<close> and \<^verbatim>\<open>exc.backtrace\<close>: exception objects answer with the
  stored value; the other values of the model have no such method.
\<close>

definition ruby_exc_message :: "ruby \<Rightarrow> VALUE \<Rightarrow> VALUE + VALUE" where
  "ruby_exc_message r exc =
     (case exc of
        Exc c m b \<Rightarrow> Inr m
      | _ \<Rightarrow> Inl (rb_raise r ''NoMethodError'' ''undefined method''))"

definition ruby_exc_backtrace :: "ruby \<Rightarrow> VALUE \<Rightarrow> VALUE + VALUE" where
  "ruby_exc_backtrace r exc =
     (case exc of
        Exc c m b \<Rightarrow> Inr b
      | _ \<Rightarrow> Inl (rb_raise r ''NoMethodError'' ''undefined method''))"

definition ruby_caller :: "ruby \<Rightarrow> VALUE" where
  "ruby_caller r = Ary (Kernel_caller r)"

definition is_Str :: "VALUE \<Rightarrow> bool" where
  "is_Str v = (case v of Str s \<Rightarrow> True | _ \<Rightarrow> False)"

text \<open>
  \<^verbatim>\<open>Kernel.raise(exc, msg, bt)\<close> with an exception object: the exception raised is
  \<^verbatim>\<open>exc.exception(msg)\<close>, of the class of \<open>exc\<close>, with \<open>msg\<close> as its message and
  \<open>bt\<close>, an array of strings, as its backtrace. The result is the exception that
  is raised; the call never returns.
\<close>

definition ruby_raise :: "ruby \<Rightarrow> VALUE \<Rightarrow> VALUE \<Rightarrow> VALUE \<Rightarrow> VALUE" where
  "ruby_raise r exc msg bt =
     (case exc of
        Exc c m b \<Rightarrow>
          (case bt of
             Ary xs \<Rightarrow>
               if list_all is_Str xs then Exc c msg (Ary xs)
               else rb_raise r ''TypeError'' ''backtrace must be Array of String''
           | _ \<Rightarrow> rb_raise r ''TypeError'' ''backtrace must be Array of String'')
      | _ \<Rightarrow> rb_raise r ''TypeError'' ''exception class/object expected'')"

text \<open>
  \<^verbatim>\<open>rb_ary_concat(x, y)\<close> appends \<open>y\<close> to the array \<open>x\<close>. The C function does not
  check that \<open>x\<close> is an array; the model stops with an exception there.
\<close>

definition rb_ary_concat :: "ruby \<Rightarrow> VALUE \<Rightarrow> VALUE \<Rightarrow> VALUE + VALUE" where
  "rb_ary_concat r x y =
     (case x of
        Ary xs \<Rightarrow>
          (case y of
             Ary ys \<Rightarrow> Inr (Ary (xs @ ys))
           | _ \<Rightarrow> Inl (rb_raise r ''TypeError'' ''not an array''))
      | _ \<Rightarrow> Inl (rb_raise r ''TypeError'' ''not an array''))"

text \<open>
  \<^verbatim>\<open>NUM2INT\<close>: an integer within the range of \<^verbatim>\<open>int\<close> converts, a larger one raises
  \<^verbatim>\<open>RangeError\<close>, \<^verbatim>\<open>nil\<close> and the other values of the model raise \<^verbatim>\<open>TypeError\<close>.
\<close>

definition NUM2INT :: "ruby \<Rightarrow> VALUE \<Rightarrow> VALUE + 32 word" where
  "NUM2INT r v =
     (case v of
        Num n \<Rightarrow>
          if - 2147483648 \<le> n \<and> n < 2147483648 then Inr (word_of_int n)
          else Inl (rb_raise r ''RangeError'' ''integer too big to convert to int'')
      | _ \<Rightarrow> Inl (rb_raise r ''TypeError'' ''no implicit conversion to integer''))"

definition ruby_send :: "ruby \<Rightarrow> VALUE \<Rightarrow> VALUE \<Rightarrow> world \<Rightarrow> (VALUE + VALUE) \<times> world" where
  "ruby_send r obj msg w = (apply_send r obj msg, w\<lparr>log := log w @ [Invoked obj msg]\<rparr>)"

definition ruby_get_object :: "ruby \<Rightarrow> VALUE \<Rightarrow> OBJECT_ID_T \<Rightarrow> VALUE + VALUE" where
  "ruby_get_object r obj oid = get_object r obj (uint oid)"

definition ruby_slice_bang :: "ruby \<Rightarrow> VALUE list \<Rightarrow> int \<Rightarrow> int \<Rightarrow> VALUE + VALUE list" where
  "ruby_slice_bang r xs mn mx = Array_slice_bang r xs mn mx"

text \<open>
  \<^verbatim>\<open>ROMP::print_exception\<close>, \<^verbatim>\<open>lock\<close> and \<^verbatim>\<open>unlock\<close> are taken to return
  normally; what is seen of them is the event.
\<close>

definition ruby_print_exception :: "VALUE \<Rightarrow> world \<Rightarrow> world" where
  "ruby_print_exception exc w = w\<lparr>log := log w @ [Printed exc]\<rparr>"

definition ruby_lock :: "VALUE \<Rightarrow> world \<Rightarrow> world" where
  "ruby_lock m w = w\<lparr>log := log w @ [Locked m]\<rparr>"

definition ruby_unlock :: "VALUE \<Rightarrow> world \<Rightarrow> world" where
  "ruby_unlock m w = w\<lparr>log := log w @ [Unlocked m]\<rparr>"

text \<open>\<^verbatim>\<open>rb_yield(v)\<close>: hand \<open>v\<close> to the block of the current call.\<close>

definition rb_yield :: "ruby \<Rightarrow> VALUE \<Rightarrow> world \<Rightarrow> (VALUE + VALUE) \<times> world" where
  "rb_yield r v w =
     (case block r of
        None \<Rightarrow> (Inl (rb_raise r ''LocalJumpError'' ''yield called out of block''), w)
      | Some f \<Rightarrow> (f v, w\<lparr>log := log w @ [Yielded v]\<rparr>))"

text \<open>\<^verbatim>\<open>rb_ensure(body, ensure)\<close>: \<open>ensure\<close> runs however \<open>body\<close> ends.\<close>

definition rb_ensure ::
  "(world \<Rightarrow> (VALUE + 'a) \<times> world) \<Rightarrow> (world \<Rightarrow> world) \<Rightarrow> world \<Rightarrow> (VALUE + 'a) \<times> world" where
  "rb_ensure body ens w = (case body w of (res, w1) \<Rightarrow> (res, ens w1))"

text \<open>
  \<^verbatim>\<open>rb_protect(func, arg, &status)\<close>: the value of \<open>func\<close>, or \<^verbatim>\<open>Qnil\<close> and a
  non-zero status when it raises; the exception goes no further.
\<close>

definition rb_protect ::
  "(world \<Rightarrow> (VALUE + VALUE) \<times> world) \<Rightarrow> world \<Rightarrow> (VALUE \<times> bool) \<times> world" where
  "rb_protect func w =
     (case func w of
        (Inl e, w1) \<Rightarrow> ((Qnil, True), w1)
      | (Inr v, w1) \<Rightarrow> ((v, False), w1))"

section \<open>Proxy objects\<close>

text \<open>
  \<^verbatim>\<open>ruby_proxy_object_new\<close>: the id is converted with \<^verbatim>\<open>NUM2INT\<close> and assigned to an
  \<^verbatim>\<open>OBJECT_ID_T\<close>, which keeps its low 16 bits. \<^verbatim>\<open>Data_Make_Struct\<close> zeroes the new
  struct, so the field \<^verbatim>\<open>message\<close> starts as the \<^verbatim>\<open>VALUE\<close> 0, which is \<^verbatim>\<open>Qfalse\<close>.
\<close>

definition ruby_proxy_object_new ::
  "ruby \<Rightarrow> VALUE \<Rightarrow> VALUE \<Rightarrow> VALUE \<Rightarrow> world \<Rightarrow> (VALUE + VALUE) \<times> world" where
  "ruby_proxy_object_new r session mtx ruby_object_id w =
     (case NUM2INT r ruby_object_id of
        Inl e \<Rightarrow> (Inl e, w)
      | Inr n \<Rightarrow>
          if session \<noteq> Data_Session
          then (Inl (rb_raise r ''TypeError'' ''Expecting a session''), w)
          else (Inr (Data_Proxy_Object (length (proxies w))),
                w\<lparr>proxies := proxies w @
                   [\<lparr>ruby_session = session, proxy_object_id = ucast n,
                     message = Qfalse, mutex = mtx\<rparr>]\<rparr>))"

text \<open>\<^verbatim>\<open>msg_to_obj\<close>: an \<^verbatim>\<open>Object_Reference\<close> becomes a new proxy on the same session.\<close>

definition msg_to_obj ::
  "ruby \<Rightarrow> VALUE \<Rightarrow> VALUE \<Rightarrow> VALUE \<Rightarrow> world \<Rightarrow> (VALUE + VALUE) \<times> world" where
  "msg_to_obj r msg session mtx w =
     (case msg of
        Object_Reference oid \<Rightarrow> ruby_proxy_object_new r session mtx oid w
      | _ \<Rightarrow> (Inr msg, w))"

section \<open>What leaves the input stream alone, and what consumes it\<close>

text \<open>
  Writing, allocating a proxy and yielding to the block do not touch the bytes still
  to be read; a message received takes at least its header window off them. The
  loops of the client and of the server terminate on that.
\<close>

lemma rd_store_buf: "rd (store_buf got w) = rd w"
  by (simp add: store_buf_def)

lemma rd_ruby_write_throw: "rd (snd (ruby_write_throw r bs w)) = rd w"
  by (simp add: ruby_write_throw_def split: option.splits)

lemma rd_send_message_helper: "rd (snd (send_message_helper r d mt oid w)) = rd w"
proof -
  obtain res w2 where a: "ruby_write_throw r (take ROMP_BUFFER_SIZE (buf (store_buf (put_header (of_nat (length d)) mt oid) w))) (store_buf (put_header (of_nat (length d)) mt oid) w) = (res, w2)"
    by (cases "ruby_write_throw r (take ROMP_BUFFER_SIZE (buf (store_buf (put_header (of_nat (length d)) mt oid) w))) (store_buf (put_header (of_nat (length d)) mt oid) w)") auto
  have "rd w2 = rd w"
    using rd_ruby_write_throw [of r "take ROMP_BUFFER_SIZE (buf (store_buf (put_header (of_nat (length d)) mt oid) w))" "store_buf (put_header (of_nat (length d)) mt oid) w"] a
    by (simp add: rd_store_buf)
  then show ?thesis using a
    by (cases res) (simp_all add: send_message_helper_def Let_def rd_ruby_write_throw)
qed

lemma rd_send_message: "rd (snd (send_message r m w)) = rd w"
  by (simp add: send_message_def rd_send_message_helper split: sum.splits)

lemma rd_reply_sync: "rd (snd (reply_sync r v w)) = rd w"
  by (simp add: reply_sync_def rd_send_message)

lemma rd_msg_to_obj: "rd (snd (msg_to_obj r v s m w)) = rd w"
  by (simp add: msg_to_obj_def ruby_proxy_object_new_def split: VALUE.splits sum.splits)

lemma rd_rb_yield: "rd (snd (rb_yield r v w)) = rd w"
  by (simp add: rb_yield_def split: option.splits)

lemma ruby_read_throw_rd:
  "ruby_read_throw r n w = (res, got, w1) \<Longrightarrow> length (rd w1) = length (rd w) - n"
  by (auto simp: ruby_read_throw_def Let_def split: if_splits)

lemma ruby_read_throw_ok:
  "ruby_read_throw r n w = (Inr u, got, w1) \<Longrightarrow> n \<le> length (rd w) \<and> length got = n"
  by (auto simp: ruby_read_throw_def Let_def split: if_splits)

lemma get_message_header_rd:
  "get_message_header r n w = (Inr h, k, w1) \<Longrightarrow> length (rd w1) < length (rd w)"
proof (induction r n w rule: get_message_header.induct)
  case (1 r n w)
  obtain res got w0 where rt: "ruby_read_throw r ROMP_BUFFER_SIZE w = (res, got, w0)"
    by (cases "ruby_read_throw r ROMP_BUFFER_SIZE w") auto
  show ?case
  proof (cases res)
    case (Inl e)
    with rt "1.prems" show ?thesis by (simp add: get_message_header.simps [of r n w])
  next
    case (Inr u)
    from rt Inr have len: "length (rd w0) = length (rd w) - 16" "16 \<le> length (rd w)"
      using ruby_read_throw_rd [of r ROMP_BUFFER_SIZE w res got w0]
            ruby_read_throw_ok [of r ROMP_BUFFER_SIZE w u got w0]
      by (simp_all add: ROMP_BUFFER_SIZE_def)
    obtain magic dl mt oid where gh: "get_header (buf (store_buf got w0)) = (magic, dl, mt, oid)"
      by (cases "get_header (buf (store_buf got w0))") auto
    show ?thesis
    proof (cases "ucast magic \<noteq> ROMP_MSG_START")
      case True
      with rt Inr gh "1.prems"
      have "get_message_header r (Suc n) (store_buf got w0) = (Inr h, k, w1)"
        by (simp add: get_message_header.simps [of r n w])
      then have "length (rd w1) < length (rd (store_buf got w0))"
        using "1.IH" [of "Inr u" "(got, w0)" u got w0 magic "(dl, mt, oid)" dl "(mt, oid)" mt oid]
              rt Inr gh True
        by simp
      with len show ?thesis by (simp add: rd_store_buf)
    next
      case False
      with rt Inr gh "1.prems" have "w1 = store_buf got w0"
        by (simp add: get_message_header.simps [of r n w])
      with len show ?thesis by (simp add: rd_store_buf)
    qed
  qed
qed

lemma get_message_rd:
  assumes "get_message r w = (Inr m, w1)"
  shows "length (rd w1) < length (rd w)"
proof -
  from assms obtain dl mt oid n w0 res got
    where h: "get_message_header r 0 w = (Inr (dl, mt, oid), n, w0)"
      and rt: "ruby_read_throw r (unat dl) w0 = (res, got, w1)"
    by (auto simp: get_message_def split: prod.splits sum.splits if_splits)
  from get_message_header_rd [OF h] ruby_read_throw_rd [OF rt] show ?thesis by simp
qed

lemma get_message_rd_sym: "(Inr m, w1) = get_message r w \<Longrightarrow> length (rd w1) < length (rd w)"
  by (rule get_message_rd [OF sym])

lemma msg_to_obj_rd_sym: "(res, w1) = msg_to_obj r v s m w \<Longrightarrow> rd w1 = rd w"
  using rd_msg_to_obj [of r v s m w] by (cases "msg_to_obj r v s m w") simp

lemma rb_yield_rd_sym: "(res, w1) = rb_yield r v w \<Longrightarrow> rd w1 = rd w"
  using rd_rb_yield [of r v w] by (cases "rb_yield r v w") simp

lemma reply_sync_rd_sym: "(res, w1) = reply_sync r v w \<Longrightarrow> rd w1 = rd w"
  using rd_reply_sync [of r v w] by (cases "reply_sync r v w") simp

section \<open>Client functions\<close>

text \<open>
  The \<^verbatim>\<open>for(;;)\<close> loop of \<^verbatim>\<open>client_request\<close>; \<open>p\<close> is the address of the
  \<^verbatim>\<open>Proxy_Object\<close>.
\<close>

function client_request_loop :: "ruby \<Rightarrow> nat \<Rightarrow> world \<Rightarrow> (VALUE + VALUE) \<times> world" where
  "client_request_loop r p w =
     (case get_message r w of
        (Inl e, w1) \<Rightarrow> (Inl e, w1)
      | (Inr msg, w1) \<Rightarrow>
          if message_type msg = ROMP_RETVAL then
            msg_to_obj r (message_obj msg) (ruby_session (proxies w1 ! p)) (mutex (proxies w1 ! p)) w1
          else if message_type msg = ROMP_YIELD then
            (case msg_to_obj r (message_obj msg)
                    (ruby_session (proxies w1 ! p)) (mutex (proxies w1 ! p)) w1 of
               (Inl e, w2) \<Rightarrow> (Inl e, w2)
             | (Inr v, w2) \<Rightarrow>
                 (case rb_yield r v w2 of
                    (Inl e, w3) \<Rightarrow> (Inl e, w3)
                  | (Inr u, w3) \<Rightarrow> client_request_loop r p w3))
          else if message_type msg = ROMP_EXCEPTION then
            (case ruby_exc_message r (message_obj msg) of
               Inl e \<Rightarrow> (Inl e, w1)
             | Inr m \<Rightarrow>
                 (case ruby_exc_backtrace r (message_obj msg) of
                    Inl e \<Rightarrow> (Inl e, w1)
                  | Inr b \<Rightarrow>
                      (case rb_ary_concat r b (ruby_caller r) of
                         Inl e \<Rightarrow> (Inl e, w1)
                       | Inr bt \<Rightarrow> (Inl (ruby_raise r (message_obj msg) m bt), w1))))
          else if message_type msg = ROMP_SYNC then
            (case NUM2INT r (message_obj msg) of
               Inl e \<Rightarrow> (Inl e, w1)
             | Inr v \<Rightarrow>
                 (case reply_sync r v w1 of
                    (Inl e, w2) \<Rightarrow> (Inl e, w2)
                  | (Inr u, w2) \<Rightarrow> client_request_loop r p w2))
          else (Inl (rb_raise r ''RuntimeError'' ''Invalid msg type received''), w1))"
  by pat_completeness auto
termination client_request_loop
proof (relation "measure (\<lambda>(r, p, w). length (rd w))", goal_cases)
  case 1
  show ?case by simp
next
  case (2 r p w x y b xa ya ba xb yb bb)
  from 2(1,2) have "length (rd y) < length (rd w)" by (simp add: get_message_rd_sym)
  moreover from 2(5) have "rd ya = rd y" by (rule msg_to_obj_rd_sym)
  moreover from 2(7) have "rd yb = rd ya" by (rule rb_yield_rd_sym)
  ultimately show ?case by simp
next
  case (3 r p w x y b ba xa ya)
  from 3(1,2) have "length (rd y) < length (rd w)" by (simp add: get_message_rd_sym)
  moreover from 3(8) have "rd ya = rd y" by (rule reply_sync_rd_sym)
  ultimately show ?case by simp
qed

declare client_request_loop.simps [simp del]

text \<open>
  \<^verbatim>\<open>client_request\<close>: send a request for the message stored in the proxy
  (\<^verbatim>\<open>ROMP_REQUEST_BLOCK\<close> when a block is given), then run the response loop.
\<close>

definition client_request :: "ruby \<Rightarrow> nat \<Rightarrow> world \<Rightarrow> (VALUE + VALUE) \<times> world" where
  "client_request r p w =
     (case send_message r
             \<lparr>message_type = (if block r \<noteq> None then ROMP_REQUEST_BLOCK else ROMP_REQUEST),
              object_id = proxy_object_id (proxies w ! p),
              message_obj = message (proxies w ! p)\<rparr> w of
        (Inl e, w1) \<Rightarrow> (Inl e, w1)
      | (Inr u, w1) \<Rightarrow> client_request_loop r p w1)"

definition client_oneway :: "ruby \<Rightarrow> nat \<Rightarrow> world \<Rightarrow> (VALUE + VALUE) \<times> world" where
  "client_oneway r p w =
     (case send_message r
             \<lparr>message_type = ROMP_ONEWAY,
              object_id = proxy_object_id (proxies w ! p),
              message_obj = message (proxies w ! p)\<rparr> w of
        (Inl e, w1) \<Rightarrow> (Inl e, w1)
      | (Inr u, w1) \<Rightarrow> (Inr Qnil, w1))"

definition client_oneway_sync :: "ruby \<Rightarrow> nat \<Rightarrow> world \<Rightarrow> (VALUE + VALUE) \<times> world" where
  "client_oneway_sync r p w =
     (case send_message r
             \<lparr>message_type = ROMP_ONEWAY_SYNC,
              object_id = proxy_object_id (proxies w ! p),
              message_obj = message (proxies w ! p)\<rparr> w of
        (Inl e, w1) \<Rightarrow> (Inl e, w1)
      | (Inr u, w1) \<Rightarrow>
          (case get_message r w1 of
             (Inl e, w2) \<Rightarrow> (Inl e, w2)
           | (Inr m, w2) \<Rightarrow> (Inr Qnil, w2)))"

definition client_sync :: "ruby \<Rightarrow> nat \<Rightarrow> world \<Rightarrow> (VALUE + VALUE) \<times> world" where
  "client_sync r p w =
     (case send_sync r w of
        (Inl e, w1) \<Rightarrow> (Inl e, w1)
      | (Inr u, w1) \<Rightarrow>
          (case wait_sync r w1 of
             (Inl e, w2) \<Rightarrow> (Inl e, w2)
           | (Inr u, w2) \<Rightarrow> (Inr Qnil, w2)))"

section \<open>Ruby interface functions of the proxy\<close>

text \<open>
  \<^verbatim>\<open>Data_Get_Struct(self, Proxy_Object, proxy_object)\<close>: the address of the struct
  that \<open>self\<close> wraps; \<^verbatim>\<open>TypeError\<close> for a value that wraps none.
\<close>

definition Data_Get_Struct :: "ruby \<Rightarrow> VALUE \<Rightarrow> world \<Rightarrow> VALUE + nat" where
  "Data_Get_Struct r self w =
     (case self of
        Data_Proxy_Object p \<Rightarrow>
          if p < length (proxies w) then Inr p
          else Inl (rb_raise r ''TypeError'' ''wrong argument type'')
      | _ \<Rightarrow> Inl (rb_raise r ''TypeError'' ''wrong argument type''))"

text \<open>The assignment \<^verbatim>\<open>proxy_object->message = message\<close>.\<close>

definition set_message :: "nat \<Rightarrow> VALUE \<Rightarrow> world \<Rightarrow> world" where
  "set_message p msg w = w\<lparr>proxies := (proxies w)[p := (proxies w ! p)\<lparr>message := msg\<rparr>]\<rparr>"

definition ruby_proxy_object_method_missing ::
  "ruby \<Rightarrow> VALUE \<Rightarrow> VALUE \<Rightarrow> world \<Rightarrow> (VALUE + VALUE) \<times> world" where
  "ruby_proxy_object_method_missing r self msg w =
     (case Data_Get_Struct r self w of
        Inl e \<Rightarrow> (Inl e, w)
      | Inr p \<Rightarrow>
          (let w1 = set_message p msg w;
               w2 = ruby_lock (mutex (proxies w1 ! p)) w1
           in rb_ensure (client_request r p) (ruby_unlock (mutex (proxies w1 ! p))) w2))"

definition ruby_proxy_object_oneway ::
  "ruby \<Rightarrow> VALUE \<Rightarrow> VALUE \<Rightarrow> world \<Rightarrow> (VALUE + VALUE) \<times> world" where
  "ruby_proxy_object_oneway r self msg w =
     (case Data_Get_Struct r self w of
        Inl e \<Rightarrow> (Inl e, w)
      | Inr p \<Rightarrow>
          (let w1 = set_message p msg w;
               w2 = ruby_lock (mutex (proxies w1 ! p)) w1
           in case rb_ensure (client_oneway r p) (ruby_unlock (mutex (proxies w1 ! p))) w2 of
                (Inl e, w3) \<Rightarrow> (Inl e, w3)
              | (Inr u, w3) \<Rightarrow> (Inr Qnil, w3)))"

definition ruby_proxy_object_oneway_sync ::
  "ruby \<Rightarrow> VALUE \<Rightarrow> VALUE \<Rightarrow> world \<Rightarrow> (VALUE + VALUE) \<times> world" where
  "ruby_proxy_object_oneway_sync r self msg w =
     (case Data_Get_Struct r self w of
        Inl e \<Rightarrow> (Inl e, w)
      | Inr p \<Rightarrow>
          (let w1 = set_message p msg w;
               w2 = ruby_lock (mutex (proxies w1 ! p)) w1
           in case rb_ensure (client_oneway_sync r p) (ruby_unlock (mutex (proxies w1 ! p))) w2 of
                (Inl e, w3) \<Rightarrow> (Inl e, w3)
              | (Inr u, w3) \<Rightarrow> (Inr Qnil, w3)))"

definition ruby_proxy_object_sync :: "ruby \<Rightarrow> VALUE \<Rightarrow> world \<Rightarrow> (VALUE + VALUE) \<times> world" where
  "ruby_proxy_object_sync r self w =
     (case Data_Get_Struct r self w of
        Inl e \<Rightarrow> (Inl e, w)
      | Inr p \<Rightarrow>
          (let w2 = ruby_lock (mutex (proxies w ! p)) w
           in case rb_ensure (client_sync r p) (ruby_unlock (mutex (proxies w ! p))) w2 of
                (Inl e, w3) \<Rightarrow> (Inl e, w3)
              | (Inr u, w3) \<Rightarrow> (Inr Qnil, w3)))"

section \<open>Server functions\<close>

text \<open>
  \<^verbatim>\<open>Server_Info\<close>: the message being served, the object it is for (the resolver
  until \<^verbatim>\<open>server_reply\<close> has resolved the target) and the debug flag; the session is
  the one of the world.
\<close>

record Server_Info =
  srv_message :: ROMP_Message
  srv_obj :: VALUE
  debug :: bool

definition server_funcall :: "ruby \<Rightarrow> Server_Info \<Rightarrow> world \<Rightarrow> (VALUE + VALUE) \<times> world" where
  "server_funcall r si w = ruby_send r (srv_obj si) (message_obj (srv_message si)) w"

definition server_send_yield ::
  "ruby \<Rightarrow> VALUE \<Rightarrow> Server_Info \<Rightarrow> world \<Rightarrow> (VALUE + VALUE) \<times> Server_Info \<times> world" where
  "server_send_yield r retval si w =
     (let si1 = si\<lparr>srv_message :=
                   \<lparr>message_type = ROMP_YIELD, object_id = 0, message_obj = retval\<rparr>\<rparr>
      in case send_message r (srv_message si1) w of
           (Inl e, w1) \<Rightarrow> (Inl e, si1, w1)
         | (Inr u, w1) \<Rightarrow> (Inr Qnil, si1, w1))"

definition server_send_retval ::
  "ruby \<Rightarrow> VALUE \<Rightarrow> Server_Info \<Rightarrow> world \<Rightarrow> (VALUE + VALUE) \<times> Server_Info \<times> world" where
  "server_send_retval r retval si w =
     (let si1 = si\<lparr>srv_message :=
                   \<lparr>message_type = ROMP_RETVAL, object_id = 0, message_obj = retval\<rparr>\<rparr>
      in case send_message r (srv_message si1) w of
           (Inl e, w1) \<Rightarrow> (Inl e, si1, w1)
         | (Inr u, w1) \<Rightarrow> (Inr Qnil, si1, w1))"

text \<open>
  \<^verbatim>\<open>server_exception\<close>, the rescue handler: the exception becomes the message,
  \<^verbatim>\<open>slice!\<close> trims its backtrace array in place (so the exception sent carries the
  trimmed one), it is printed when debugging is enabled, and it is sent. The source
  reads the length of the backtrace as that of an array without a check; the model
  stops with an exception where it is none.
\<close>

definition server_exception ::
  "ruby \<Rightarrow> Server_Info \<Rightarrow> VALUE \<Rightarrow> world \<Rightarrow> (VALUE + VALUE) \<times> Server_Info \<times> world" where
  "server_exception r si exc w =
     (case ruby_exc_backtrace r exc of
        Inl e \<Rightarrow> (Inl e, si, w)
      | Inr bt \<Rightarrow>
          (case (exc, bt) of
             (Exc c m b, Ary xs) \<Rightarrow>
               (case ruby_slice_bang r xs
                       (int (length xs) - int (length (Kernel_caller r)) - 1) (- 1) of
                  Inl e \<Rightarrow>
                    (Inl e,
                     si\<lparr>srv_message :=
                          \<lparr>message_type = ROMP_EXCEPTION, object_id = 0, message_obj = exc\<rparr>\<rparr>,
                     w)
                | Inr ys \<Rightarrow>
                    (let si1 = si\<lparr>srv_message :=
                                  \<lparr>message_type = ROMP_EXCEPTION, object_id = 0,
                                   message_obj = Exc c m (Ary ys)\<rparr>\<rparr>;
                         w1 = (if debug si1 then ruby_print_exception (Exc c m (Ary ys)) w else w)
                     in case send_message r (srv_message si1) w1 of
                          (Inl e, w2) \<Rightarrow> (Inl e, si1, w2)
                        | (Inr u, w2) \<Rightarrow> (Inr Qnil, si1, w2)))
           | _ \<Rightarrow>
               (Inl (rb_raise r ''TypeError'' ''not an array''),
                si\<lparr>srv_message :=
                     \<lparr>message_type = ROMP_EXCEPTION, object_id = 0, message_obj = exc\<rparr>\<rparr>,
                w)))"

text \<open>
  \<^verbatim>\<open>rb_iterate(server_funcall, info, server_send_yield, info)\<close>: the target is invoked
  with a block that sends each yielded value; an exception from a send ends the call.
\<close>

fun send_yields ::
  "ruby \<Rightarrow> VALUE list \<Rightarrow> Server_Info \<Rightarrow> world \<Rightarrow> (VALUE + unit) \<times> Server_Info \<times> world" where
  "send_yields r [] si w = (Inr (), si, w)"
| "send_yields r (y # ys) si w =
     (case server_send_yield r y si w of
        (Inl e, si1, w1) \<Rightarrow> (Inl e, si1, w1)
      | (Inr u, si1, w1) \<Rightarrow> send_yields r ys si1 w1)"

definition rb_iterate_server_funcall ::
  "ruby \<Rightarrow> Server_Info \<Rightarrow> world \<Rightarrow> (VALUE + VALUE) \<times> Server_Info \<times> world" where
  "rb_iterate_server_funcall r si w =
     (case iterate_send r (srv_obj si) (message_obj (srv_message si)) of
        (ys, res) \<Rightarrow>
          (case send_yields r ys si
                  (w\<lparr>log := log w @ [Invoked (srv_obj si) (message_obj (srv_message si))]\<rparr>) of
             (Inl e, si1, w1) \<Rightarrow> (Inl e, si1, w1)
           | (Inr u, si1, w1) \<Rightarrow> (res, si1, w1)))"

text \<open>
  \<^verbatim>\<open>server_reply\<close>: resolve the target, then act on the message type. The case
  \<^verbatim>\<open>ROMP_ONEWAY_SYNC\<close> sends the null message and falls through into
  \<^verbatim>\<open>ROMP_ONEWAY\<close>, which calls the target under \<^verbatim>\<open>rb_protect\<close> and returns.
\<close>

definition server_reply ::
  "ruby \<Rightarrow> Server_Info \<Rightarrow> world \<Rightarrow> (VALUE + VALUE) \<times> Server_Info \<times> world" where
  "server_reply r si w =
     (case ruby_get_object r (srv_obj si) (object_id (srv_message si)) of
        Inl e \<Rightarrow> (Inl e, si, w)
      | Inr target \<Rightarrow>
          (let si1 = si\<lparr>srv_obj := target\<rparr>; mt = message_type (srv_message si1)
           in if mt = ROMP_ONEWAY_SYNC then
                (case send_null_message r w of
                   (Inl e, w1) \<Rightarrow> (Inl e, si1, w1)
                 | (Inr u, w1) \<Rightarrow> (Inr Qnil, si1, snd (rb_protect (server_funcall r si1) w1)))
              else if mt = ROMP_ONEWAY then
                (Inr Qnil, si1, snd (rb_protect (server_funcall r si1) w))
              else if mt = ROMP_REQUEST then
                (case ruby_send r (srv_obj si1) (message_obj (srv_message si1)) w of
                   (Inl e, w1) \<Rightarrow> (Inl e, si1, w1)
                 | (Inr retval, w1) \<Rightarrow> server_send_retval r retval si1 w1)
              else if mt = ROMP_REQUEST_BLOCK then
                (case rb_iterate_server_funcall r si1 w of
                   (Inl e, si2, w1) \<Rightarrow> (Inl e, si2, w1)
                 | (Inr retval, si2, w1) \<Rightarrow> server_send_retval r retval si2 w1)
              else if mt = ROMP_SYNC then
                (case reply_sync r (ucast (object_id (srv_message si1))) w of
                   (Inl e, w1) \<Rightarrow> (Inl e, si1, w1)
                 | (Inr u, w1) \<Rightarrow> (Inr Qnil, si1, w1))
              else (Inl (rb_raise r ''RuntimeError'' ''Bad session request''), si1, w)))"

text \<open>
  \<^verbatim>\<open>rb_rescue2(server_reply, info, server_exception, info, rb_eException, 0)\<close>: every
  exception of the body goes to the handler.
\<close>

definition rb_rescue2 ::
  "(Server_Info \<Rightarrow> world \<Rightarrow> (VALUE + VALUE) \<times> Server_Info \<times> world) \<Rightarrow>
   (Server_Info \<Rightarrow> VALUE \<Rightarrow> world \<Rightarrow> (VALUE + VALUE) \<times> Server_Info \<times> world) \<Rightarrow>
   Server_Info \<Rightarrow> world \<Rightarrow> (VALUE + VALUE) \<times> Server_Info \<times> world" where
  "rb_rescue2 body handler si w =
     (case body si w of
        (Inl e, si1, w1) \<Rightarrow> handler si1 e w1
      | (Inr v, si1, w1) \<Rightarrow> (Inr v, si1, w1))"

text \<open>
  One turn of the \<^verbatim>\<open>while\<close> loop of \<^verbatim>\<open>server_loop\<close>: receive into the message of
  the \<^verbatim>\<open>Server_Info\<close>, reply under the rescue handler, and set the object back to
  the resolver.
\<close>

definition server_loop_body ::
  "ruby \<Rightarrow> VALUE \<Rightarrow> Server_Info \<Rightarrow> world \<Rightarrow> (VALUE + unit) \<times> Server_Info \<times> world" where
  "server_loop_body r resolve_server si w =
     (case get_message r w of
        (Inl e, w1) \<Rightarrow> (Inl e, si, w1)
      | (Inr m, w1) \<Rightarrow>
          (case rb_rescue2 (server_reply r) (server_exception r) (si\<lparr>srv_message := m\<rparr>) w1 of
             (Inl e, si2, w2) \<Rightarrow> (Inl e, si2, w2)
           | (Inr v, si2, w2) \<Rightarrow> (Inr (), si2\<lparr>srv_obj := resolve_server\<rparr>, w2)))"

text \<open>The server's replies leave the input stream alone, so each turn of its loop consumes input.\<close>

lemma rd_server_send_yield: "rd (snd (snd (server_send_yield r v si w))) = rd w"
proof -
  let ?m = "\<lparr>message_type = ROMP_YIELD, object_id = 0, message_obj = v\<rparr>"
  obtain res w1 where s: "send_message r ?m w = (res, w1)" by (cases "send_message r ?m w") auto
  then have "rd w1 = rd w" using rd_send_message [of r ?m w] by simp
  with s show ?thesis by (cases res) (simp_all add: server_send_yield_def Let_def)
qed

lemma rd_server_send_retval: "rd (snd (snd (server_send_retval r v si w))) = rd w"
proof -
  let ?m = "\<lparr>message_type = ROMP_RETVAL, object_id = 0, message_obj = v\<rparr>"
  obtain res w1 where s: "send_message r ?m w = (res, w1)" by (cases "send_message r ?m w") auto
  then have "rd w1 = rd w" using rd_send_message [of r ?m w] by simp
  with s show ?thesis by (cases res) (simp_all add: server_send_retval_def Let_def)
qed

lemma rd_send_yields: "rd (snd (snd (send_yields r ys si w))) = rd w"
proof (induction ys arbitrary: si w)
  case Nil
  show ?case by simp
next
  case (Cons y ys)
  obtain res si1 w1 where s: "server_send_yield r y si w = (res, si1, w1)"
    by (cases "server_send_yield r y si w") auto
  then have "rd w1 = rd w" using rd_server_send_yield [of r y si w] by simp
  with s Cons.IH [of si1 w1] show ?case by (cases res) simp_all
qed

lemma rd_rb_iterate_server_funcall: "rd (snd (snd (rb_iterate_server_funcall r si w))) = rd w"
proof -
  obtain ys res where it: "iterate_send r (srv_obj si) (message_obj (srv_message si)) = (ys, res)"
    by (cases "iterate_send r (srv_obj si) (message_obj (srv_message si))") auto
  let ?w0 = "w\<lparr>log := log w @ [Invoked (srv_obj si) (message_obj (srv_message si))]\<rparr>"
  obtain res2 si1 w1 where s: "send_yields r ys si ?w0 = (res2, si1, w1)"
    by (cases "send_yields r ys si ?w0") auto
  then have "rd w1 = rd w" using rd_send_yields [of r ys si ?w0] by simp
  with it s show ?thesis by (cases res2) (simp_all add: rb_iterate_server_funcall_def)
qed

lemma rd_server_exception: "rd (snd (snd (server_exception r si exc w))) = rd w"
proof (cases "ruby_exc_backtrace r exc")
  case (Inl e)
  then show ?thesis by (simp add: server_exception_def)
next
  case (Inr bt)
  show ?thesis
  proof (cases "\<exists>c m b xs. exc = Exc c m b \<and> bt = Ary xs")
    case False
    with Inr show ?thesis
      by (auto simp: server_exception_def split: VALUE.splits)
  next
    case True
    then obtain c m b xs where e: "exc = Exc c m b" "bt = Ary xs" by blast
    let ?sl = "ruby_slice_bang r xs (int (length xs) - int (length (Kernel_caller r)) - 1) (- 1)"
    show ?thesis
    proof (cases ?sl)
      case (Inl e')
      with Inr e show ?thesis by (simp add: server_exception_def)
    next
      case ys: (Inr ys)
      let ?m = "\<lparr>message_type = ROMP_EXCEPTION, object_id = 0, message_obj = Exc c m (Ary ys)\<rparr>"
      let ?w1 = "if debug si then ruby_print_exception (Exc c m (Ary ys)) w else w"
      obtain res w2 where s: "send_message r ?m ?w1 = (res, w2)"
        by (cases "send_message r ?m ?w1") auto
      then have "rd w2 = rd w"
        using rd_send_message [of r ?m ?w1] by (simp add: ruby_print_exception_def split: if_splits)
      with Inr e ys s show ?thesis
        by (cases res) (simp_all add: server_exception_def Let_def)
    qed
  qed
qed

lemma rd_ruby_send: "rd (snd (ruby_send r obj msg w)) = rd w"
  by (simp add: ruby_send_def)

lemma rd_rb_protect_funcall: "rd (snd (rb_protect (server_funcall r si) w)) = rd w"
  using rd_ruby_send [of r "srv_obj si" "message_obj (srv_message si)" w]
  by (cases "ruby_send r (srv_obj si) (message_obj (srv_message si)) w")
     (auto simp: rb_protect_def server_funcall_def split: sum.splits)

lemma rd_send_null_message: "rd (snd (send_null_message r w)) = rd w"
  by (simp add: send_null_message_def rd_send_message_helper)

lemma rd_server_reply: "rd (snd (snd (server_reply r si w))) = rd w"
proof (cases "ruby_get_object r (srv_obj si) (object_id (srv_message si))")
  case (Inl e)
  then show ?thesis by (simp add: server_reply_def)
next
  case (Inr target)
  let ?si1 = "si\<lparr>srv_obj := target\<rparr>"
  let ?mt = "message_type (srv_message si)"
  consider (os) "?mt = ROMP_ONEWAY_SYNC"
    | (ow) "?mt \<noteq> ROMP_ONEWAY_SYNC" "?mt = ROMP_ONEWAY"
    | (rq) "?mt \<noteq> ROMP_ONEWAY_SYNC" "?mt \<noteq> ROMP_ONEWAY" "?mt = ROMP_REQUEST"
    | (rb) "?mt \<noteq> ROMP_ONEWAY_SYNC" "?mt \<noteq> ROMP_ONEWAY" "?mt \<noteq> ROMP_REQUEST"
           "?mt = ROMP_REQUEST_BLOCK"
    | (sy) "?mt \<noteq> ROMP_ONEWAY_SYNC" "?mt \<noteq> ROMP_ONEWAY" "?mt \<noteq> ROMP_REQUEST"
           "?mt \<noteq> ROMP_REQUEST_BLOCK" "?mt = ROMP_SYNC"
    | (bad) "?mt \<noteq> ROMP_ONEWAY_SYNC" "?mt \<noteq> ROMP_ONEWAY" "?mt \<noteq> ROMP_REQUEST"
           "?mt \<noteq> ROMP_REQUEST_BLOCK" "?mt \<noteq> ROMP_SYNC"
    by blast
  then show ?thesis
  proof cases
    case os
    obtain res w1 where s: "send_null_message r w = (res, w1)"
      by (cases "send_null_message r w") auto
    then have "rd w1 = rd w" using rd_send_null_message [of r w] by simp
    with Inr os s show ?thesis
      by (cases res) (simp_all add: server_reply_def Let_def rd_rb_protect_funcall)
  next
    case ow
    with Inr show ?thesis by (simp add: server_reply_def Let_def rd_rb_protect_funcall)
  next
    case rq
    obtain res w1 where s: "ruby_send r target (message_obj (srv_message si)) w = (res, w1)"
      by (cases "ruby_send r target (message_obj (srv_message si)) w") auto
    then have "rd w1 = rd w"
      using rd_ruby_send [of r target "message_obj (srv_message si)" w] by simp
    with Inr rq s show ?thesis
      by (cases res) (simp_all add: server_reply_def Let_def rd_server_send_retval)
  next
    case rb
    obtain res si2 w1 where s: "rb_iterate_server_funcall r ?si1 w = (res, si2, w1)"
      by (cases "rb_iterate_server_funcall r ?si1 w") auto
    then have "rd w1 = rd w" using rd_rb_iterate_server_funcall [of r ?si1 w] by simp
    with Inr rb s show ?thesis
      by (cases res) (simp_all add: server_reply_def Let_def rd_server_send_retval)
  next
    case sy
    obtain res w1 where s: "reply_sync r (ucast (object_id (srv_message si))) w = (res, w1)"
      by (cases "reply_sync r (ucast (object_id (srv_message si))) w") auto
    then have "rd w1 = rd w"
      using rd_reply_sync [of r "ucast (object_id (srv_message si))" w] by simp
    with Inr sy s show ?thesis
      by (cases res) (simp_all add: server_reply_def Let_def)
  next
    case bad
    with Inr show ?thesis by (simp add: server_reply_def Let_def)
  qed
qed

lemma rd_rb_rescue2:
  "rd (snd (snd (rb_rescue2 (server_reply r) (server_exception r) si w))) = rd w"
proof -
  obtain res si1 w1 where s: "server_reply r si w = (res, si1, w1)"
    by (cases "server_reply r si w") auto
  then have "rd w1 = rd w" using rd_server_reply [of r si w] by simp
  with s show ?thesis
    by (cases res) (simp_all add: rb_rescue2_def rd_server_exception)
qed

lemma server_loop_body_rd:
  assumes "server_loop_body r rs si w = (Inr u, si1, w1)"
  shows "length (rd w1) < length (rd w)"
proof -
  obtain res w0 where g: "get_message r w = (res, w0)" by (cases "get_message r w") auto
  with assms obtain m where m: "res = Inr m"
    by (cases res) (auto simp: server_loop_body_def)
  from g m have lt: "length (rd w0) < length (rd w)" by (simp add: get_message_rd)
  let ?si = "si\<lparr>srv_message := m\<rparr>"
  obtain res2 si2 w2 where rr: "rb_rescue2 (server_reply r) (server_exception r) ?si w0 = (res2, si2, w2)"
    by (cases "rb_rescue2 (server_reply r) (server_exception r) ?si w0") auto
  then have "rd w2 = rd w0" using rd_rb_rescue2 [of r ?si w0] by simp
  moreover from assms g m rr have "w1 = w2"
    by (cases res2) (auto simp: server_loop_body_def)
  ultimately show ?thesis using lt by simp
qed

text \<open>
  \<^verbatim>\<open>session_finished\<close> always returns 0: a disconnection ends the loop through the
  exception of the read.
\<close>

definition session_finished :: "world \<Rightarrow> bool" where
  "session_finished w = False"

text \<open>
  \<^verbatim>\<open>server_loop\<close>: the \<^verbatim>\<open>while\<close> loop. The result \<open>Inl e\<close> is the exception that
  leaves the loop.
\<close>

function server_loop ::
  "ruby \<Rightarrow> VALUE \<Rightarrow> Server_Info \<Rightarrow> world \<Rightarrow> (VALUE + unit) \<times> Server_Info \<times> world" where
  "server_loop r resolve_server si w =
     (if session_finished w then (Inr (), si, w)
      else (case server_loop_body r resolve_server si w of
              (Inl e, si1, w1) \<Rightarrow> (Inl e, si1, w1)
            | (Inr u, si1, w1) \<Rightarrow> server_loop r resolve_server si1 w1))"
  by pat_completeness auto
termination
proof (relation "measure (\<lambda>(r, rs, si, w). length (rd w))", goal_cases)
  case 1
  show ?case by simp
next
  case (2 r rs si w x y b xa ya)
  then have "server_loop_body r rs si w = (Inr b, xa, ya)" by simp
  then show ?case by (simp add: server_loop_body_rd)
qed

declare server_loop.simps [simp del]

section \<open>Garbage windows and an example environment\<close>

text \<open>
  A window of \<^verbatim>\<open>ROMP_BUFFER_SIZE\<close> bytes on which the loop of \<^verbatim>\<open>get_message\<close> goes
  round again: its first two bytes are not the magic.
\<close>

definition garbage_window :: "byte list \<Rightarrow> bool" where
  "garbage_window g = (length g = ROMP_BUFFER_SIZE \<and> ucast (GETSHORT g 0) \<noteq> ROMP_MSG_START)"

text \<open>
  A small environment for the examples: a codec that knows four values (\<^verbatim>\<open>nil\<close> and
  \<^verbatim>\<open>1\<close> with their \<^verbatim>\<open>Marshal\<close> bytes, a call and an exception), a resolver that
  knows the objects 3 and 5 and raises for every other id, a target 3 that returns 1
  and a target 5 that raises, \<^verbatim>\<open>slice!\<close> on a range that ends at -1, a call stack of
  one line, no block; and a fresh session with nothing to read.
\<close>

definition boom :: "VALUE list \<Rightarrow> VALUE" where
  "boom bt = Exc ''RuntimeError'' (Str ''boom'') (Ary bt)"

definition dump0 :: "VALUE \<Rightarrow> VALUE + byte list" where
  "dump0 v =
     (if v = Qnil then Inr [4, 8, 48]
      else if v = Num 1 then Inr [4, 8, 105, 6]
      else if v = Ary [Str ''incr''] then Inr [4, 8, 91, 6]
      else if v = boom [Str ''server.rb:7''] then Inr [4, 8, 111]
      else Inl (Exc ''TypeError'' (Str ''cannot dump'') (Ary [])))"

definition load0 :: "byte list \<Rightarrow> VALUE + VALUE" where
  "load0 bs =
     (if bs = [4, 8, 48] then Inr Qnil
      else if bs = [4, 8, 105, 6] then Inr (Num 1)
      else if bs = [4, 8, 91, 6] then Inr (Ary [Str ''incr''])
      else if bs = [4, 8, 111] then Inr (boom [Str ''server.rb:7''])
      else Inl (Exc ''ArgumentError'' (Str ''marshal data too short'') (Ary [])))"

definition get_object0 :: "VALUE \<Rightarrow> int \<Rightarrow> VALUE + VALUE" where
  "get_object0 resolver n =
     (if n = 3 \<or> n = 5 then Inr (Obj (nat n))
      else Inl (boom [Str ''server.rb:7'', Str ''romp.rb:1'', Str ''main.rb:1'']))"

definition apply_send0 :: "VALUE \<Rightarrow> VALUE \<Rightarrow> VALUE + VALUE" where
  "apply_send0 obj msg =
     (if obj = Obj 3 then Inr (Num 1)
      else Inl (boom [Str ''server.rb:7'', Str ''romp.rb:1'', Str ''main.rb:1'']))"

definition slice0 :: "VALUE list \<Rightarrow> int \<Rightarrow> int \<Rightarrow> VALUE + VALUE list" where
  "slice0 xs mn mx =
     (let n = int (length xs); start = (if mn < 0 then mn + n else mn)
      in if 0 \<le> start \<and> start \<le> n \<and> mx = - 1 then Inr (take (nat start) xs) else Inr xs)"

definition ruby0 :: ruby where
  "ruby0 = \<lparr>Marshal_dump = dump0, Marshal_load = load0, get_object = get_object0,
            apply_send = apply_send0, iterate_send = (\<lambda>obj msg. ([], apply_send0 obj msg)),
            Array_slice_bang = slice0, Kernel_caller = [Str ''main.rb:1''], block = None\<rparr>"

definition world0 :: world where
  "world0 = \<lparr>rd = [], rd_end = Returns_zero, wr_room = None, wr_end = Call_fails, buf = [0, 0, 0, 0, 0, 0, 0, 0, 0, 0, 0, 0, 0, 0, 0, 0], log = [], proxies = []\<rparr>"

text \<open>
  The heap of proxies only grows: \<open>grows w w'\<close> when the structs of \<open>w\<close> are still
  there, unchanged, in \<open>w'\<close>. And \<open>proxy_after q w w' m\<close>: the struct at address \<open>q\<close>
  in \<open>w'\<close> is the one of \<open>w\<close> but for its field \<^verbatim>\<open>message\<close>, which holds \<open>m\<close>.
\<close>

definition grows :: "world \<Rightarrow> world \<Rightarrow> bool" where
  "grows w w' = (take (length (proxies w)) (proxies w') = proxies w)"

definition proxy_after :: "nat \<Rightarrow> world \<Rightarrow> world \<Rightarrow> VALUE \<Rightarrow> bool" where
  "proxy_after q w w' m =
     (q < length (proxies w') \<and> proxies w' ! q = (proxies w ! q)\<lparr>message := m\<rparr>)"

text \<open>
  The log is only appended to: \<open>log_grows w w'\<close> when the events of \<open>w\<close> are the
  first events of \<open>w'\<close>; \<open>new_events w w'\<close> are the events of \<open>w'\<close> after them. And
  \<open>request_events mtx data mt oid b\<close>: the mutex \<open>mtx\<close> is locked, then the header
  window for the payload \<open>data\<close>, the type \<open>mt\<close> and the object id \<open>oid\<close> is written
  from a scratch buffer that held \<open>b\<close>, then the payload.
\<close>

definition log_grows :: "world \<Rightarrow> world \<Rightarrow> bool" where
  "log_grows w w' = (take (length (log w)) (log w') = log w)"

definition new_events :: "world \<Rightarrow> world \<Rightarrow> event list" where
  "new_events w w' = drop (length (log w)) (log w')"

definition request_events ::
  "VALUE \<Rightarrow> byte list \<Rightarrow> MESSAGE_TYPE_T \<Rightarrow> OBJECT_ID_T \<Rightarrow> byte list \<Rightarrow> event list" where
  "request_events mtx data mt oid b =
     [Locked mtx,
      Wrote (take ROMP_BUFFER_SIZE (put_header (of_nat (length data)) mt oid @ drop 8 b)),
      Wrote data]"

text \<open>A proxy for object 3 as \<^verbatim>\<open>ruby_proxy_object_new\<close> leaves it, and a server with debugging enabled.\<close>

definition proxy0 :: Proxy_Object where
  "proxy0 = \<lparr>ruby_session = Data_Session, proxy_object_id = 3, message = Qfalse, mutex = Obj 9\<rparr>"

definition server_info0 :: Server_Info where
  "server_info0 =
     \<lparr>srv_message = \<lparr>message_type = 0, object_id = 0, message_obj = Qnil\<rparr>,
      srv_obj = Obj 0, debug = True\<rparr>"

section \<open>Properties of the frame codec\<close>

lemmas ROMP_defs =
  ROMP_REQUEST_def ROMP_REQUEST_BLOCK_def ROMP_ONEWAY_def ROMP_ONEWAY_SYNC_def
  ROMP_RETVAL_def ROMP_EXCEPTION_def ROMP_YIELD_def ROMP_SYNC_def ROMP_NULL_MSG_def
  ROMP_MSG_START_def ROMP_BUFFER_SIZE_def

lemma and_ff: "(s :: 'a::len word) AND 0xff = take_bit 8 s"
proof -
  have "(mask 8 :: 'a word) = 0xff" by (simp add: mask_eq_exp_minus_1)
  then show ?thesis by (simp add: take_bit_eq_mask)
qed

lemma GETSHORT_PUTSHORT:
  "length pre = i \<Longrightarrow> GETSHORT (pre @ PUTSHORT (s :: 'a::len word) @ post) i = ucast s"
  apply (simp add: GETSHORT_def PUTSHORT_def Let_def nth_append and_ff)
  apply (rule bit_word_eqI)
  apply (auto simp add: bit_simps dest: bit_imp_le_length)
  done

lemma length_PUTSHORT: "length (PUTSHORT s) = 2"
  by (simp add: PUTSHORT_def)

lemma get_header_put_header:
  "get_header (put_header len mt oid @ rest) = (0x4242, ucast len, mt, oid)"
proof -
  have 0: "GETSHORT (put_header len mt oid @ rest) 0 = ucast ROMP_MSG_START"
    using GETSHORT_PUTSHORT [of "[]" 0 ROMP_MSG_START "PUTSHORT len @ PUTSHORT mt @ PUTSHORT oid @ rest"]
    by (simp add: put_header_def)
  have 2: "GETSHORT (put_header len mt oid @ rest) 2 = ucast len"
    using GETSHORT_PUTSHORT [of "PUTSHORT ROMP_MSG_START" 2 len "PUTSHORT mt @ PUTSHORT oid @ rest"]
    by (simp add: put_header_def length_PUTSHORT)
  have 4: "GETSHORT (put_header len mt oid @ rest) 4 = ucast mt"
    using GETSHORT_PUTSHORT [of "PUTSHORT ROMP_MSG_START @ PUTSHORT len" 4 mt "PUTSHORT oid @ rest"]
    by (simp add: put_header_def length_PUTSHORT)
  have 6: "GETSHORT (put_header len mt oid @ rest) 6 = ucast oid"
    using GETSHORT_PUTSHORT [of "PUTSHORT ROMP_MSG_START @ PUTSHORT len @ PUTSHORT mt" 6 oid rest]
    by (simp add: put_header_def length_PUTSHORT)
  show ?thesis
    by (simp add: get_header_def 0 2 4 6 ROMP_MSG_START_def)
qed

lemma ucast_size_t: "(ucast (of_nat n :: 64 word) :: 16 word) = of_nat n"
  by (rule bit_word_eqI) (auto simp: bit_simps)

lemma unat_len: "n < 65536 \<Longrightarrow> unat (of_nat n :: 16 word) = n"
  by (simp add: unat_of_nat)

text \<open>
  C3. Header round trip: for every message type and object id (16-bit values) and
  every length below \<open>2^16\<close>, the four \<^verbatim>\<open>GETSHORT\<close>s of \<^verbatim>\<open>get_message\<close> applied
  to the bytes that the four \<^verbatim>\<open>PUTSHORT\<close>s of \<^verbatim>\<open>send_message_helper\<close> produce give
  back \<^verbatim>\<open>ROMP_MSG_START\<close>, the length, the type and the id, whatever follows the
  eight bytes.
\<close>

theorem header_round_trip:
  "len < 65536 \<Longrightarrow>
   get_header (put_header (of_nat len) kind oid @ rest) = (0x4242, of_nat len, kind, oid)
   \<and> unat (of_nat len :: uint16_t) = len"
  by (simp add: get_header_put_header ucast_size_t unat_len)

theorem header_round_trip_witness:
  "get_header (put_header (of_nat 300) ROMP_RETVAL 7 @ [1, 2, 3]) = (0x4242, of_nat 300, ROMP_RETVAL, 7)
   \<and> unat (of_nat 300 :: uint16_t) = 300"
  using header_round_trip [of 300 ROMP_RETVAL 7 "[1, 2, 3]"] by simp

section \<open>One header window at a time\<close>

lemma ucast_magic: "(ucast (m :: 16 word) \<noteq> ROMP_MSG_START) = (m \<noteq> 0x4242)"
proof -
  have rt: "(ucast (ucast m :: 32 word) :: 16 word) = m"
    by (rule bit_word_eqI) (simp add: bit_simps)
  have "(ucast m = (0x4242 :: 32 word)) = (m = 0x4242)"
  proof
    assume "ucast m = (0x4242 :: 32 word)"
    then have "(ucast (ucast m :: 32 word) :: 16 word) = ucast (0x4242 :: 32 word)" by simp
    then show "m = 0x4242" by (simp add: rt)
  next
    assume "m = 0x4242" then show "ucast m = (0x4242 :: 32 word)" by simp
  qed
  then show ?thesis by (simp add: ROMP_MSG_START_def)
qed

lemma get_header_append: "8 \<le> length a \<Longrightarrow> get_header (a @ b) = get_header a"
  by (auto simp: get_header_def GETSHORT_def nth_append)

lemma io_raise_Returns_zero [simp]:
  "io_raise r call Returns_zero = rb_raise r ''IOError'' ''disconnected''"
  by (simp add: io_raise_def)

lemma rd_end_world0 [simp]: "rd_end world0 = Returns_zero"
  by (simp add: world0_def)

lemma ruby_read_throw_prefix:
  "rd w = bs @ rest \<Longrightarrow> length bs = n \<Longrightarrow>
   ruby_read_throw r n w = (Inr (), bs, w\<lparr>rd := rest\<rparr>)"
  by (simp add: ruby_read_throw_def Let_def)

lemma ruby_read_throw_short:
  "length (rd w) < n \<Longrightarrow>
   ruby_read_throw r n w = (Inl (io_raise r ''read'' (rd_end w)), rd w, w\<lparr>rd := []\<rparr>)"
  by (simp add: ruby_read_throw_def Let_def)

lemma get_message_header_window:
  assumes "rd w = win @ rest" and "length win = ROMP_BUFFER_SIZE"
  shows "get_message_header r n w =
     (case get_header win of
        (magic, dl, mt, oid) \<Rightarrow>
          if magic \<noteq> 0x4242
          then get_message_header r (Suc n) (w\<lparr>rd := rest, buf := win @ drop ROMP_BUFFER_SIZE (buf w)\<rparr>)
          else (Inr (dl, mt, oid), n, w\<lparr>rd := rest, buf := win @ drop ROMP_BUFFER_SIZE (buf w)\<rparr>))"
proof -
  have rt: "ruby_read_throw r ROMP_BUFFER_SIZE w = (Inr (), win, w\<lparr>rd := rest\<rparr>)"
    using assms by (rule ruby_read_throw_prefix)
  have sb: "store_buf win (w\<lparr>rd := rest\<rparr>) = w\<lparr>rd := rest, buf := win @ drop ROMP_BUFFER_SIZE (buf w)\<rparr>"
    using assms(2) by (simp add: store_buf_def)
  have gh: "get_header (win @ drop ROMP_BUFFER_SIZE (buf w)) = get_header win"
    using assms(2) by (simp add: get_header_append ROMP_BUFFER_SIZE_def)
  show ?thesis
    by (simp add: get_message_header.simps [of r n w] rt sb gh ucast_magic split: prod.splits)
qed

lemma get_message_header_garbage:
  assumes "garbage_window g" and "rd w = g @ rest"
  shows "get_message_header r n w =
         get_message_header r (Suc n) (w\<lparr>rd := rest, buf := g @ drop ROMP_BUFFER_SIZE (buf w)\<rparr>)"
proof -
  from assms(1) have len: "length g = ROMP_BUFFER_SIZE" and m: "fst (get_header g) \<noteq> 0x4242"
    by (simp_all add: garbage_window_def get_header_def ucast_magic)
  from m show ?thesis
    by (cases "get_header g") (simp add: get_message_header_window [OF assms(2) len])
qed

lemma get_message_header_skips:
  "list_all garbage_window gs \<Longrightarrow> length (buf w) = ROMP_BUFFER_SIZE \<Longrightarrow>
   get_message_header r n (w\<lparr>rd := concat gs @ s\<rparr>) =
   get_message_header r (n + length gs) (w\<lparr>rd := s, buf := last (buf w # gs)\<rparr>)"
proof (induction gs arbitrary: n w)
  case Nil
  then show ?case by simp
next
  case (Cons g gs)
  from Cons.prems have g: "garbage_window g" and gs: "list_all garbage_window gs" by simp_all
  from g have len: "length g = ROMP_BUFFER_SIZE" by (simp add: garbage_window_def)
  let ?w1 = "w\<lparr>rd := concat gs @ s, buf := g\<rparr>"
  have "get_message_header r n (w\<lparr>rd := concat (g # gs) @ s\<rparr>) =
        get_message_header r (Suc n) ?w1"
    using get_message_header_garbage [OF g, of "w\<lparr>rd := concat (g # gs) @ s\<rparr>" "concat gs @ s" r n]
          Cons.prems(2)
    by simp
  also have "?w1 = (w\<lparr>buf := g\<rparr>)\<lparr>rd := concat gs @ s\<rparr>" by simp
  also have "get_message_header r (Suc n) ((w\<lparr>buf := g\<rparr>)\<lparr>rd := concat gs @ s\<rparr>) =
        get_message_header r (Suc n + length gs) ((w\<lparr>buf := g\<rparr>)\<lparr>rd := s, buf := last (buf (w\<lparr>buf := g\<rparr>) # gs)\<rparr>)"
    using Cons.IH [OF gs, of "w\<lparr>buf := g\<rparr>" "Suc n"] len by simp
  finally show ?case by simp
qed

lemma length_put_header: "length (put_header len mt oid) = 8"
  by (simp add: put_header_def length_PUTSHORT)

lemma wire_append: "wire (w\<lparr>log := log w @ es\<rparr>) = wire w @ concat (map wrote_bytes es)"
  by (simp add: wire_def)

lemma ruby_write_throw_ok:
  "wr_room w = None \<Longrightarrow> ruby_write_throw r bs w = (Inr (), w\<lparr>log := log w @ [Wrote bs]\<rparr>)"
  by (simp add: ruby_write_throw_def)

lemma send_message_helper_ok:
  assumes "wr_room w = None"
  shows "send_message_helper r data mt oid w =
         (Inr (), w\<lparr>buf := put_header (of_nat (length data)) mt oid @ drop 8 (buf w),
                    log := log w @ [Wrote (take ROMP_BUFFER_SIZE
                                      (put_header (of_nat (length data)) mt oid @ drop 8 (buf w))),
                                    Wrote data]\<rparr>)"
  using assms
  by (simp add: send_message_helper_def Let_def store_buf_def length_put_header ruby_write_throw_ok)

lemma get_message_frame:
  assumes "rd w = win @ data @ rest" and "length win = ROMP_BUFFER_SIZE"
    and "get_header win = (0x4242, dl, mt, oid)" and "length data = unat dl"
  shows "get_message r w =
     ((if mt \<noteq> ROMP_NULL_MSG
       then (case marshal_load r data of
               Inl e \<Rightarrow> Inl e
             | Inr v \<Rightarrow> Inr \<lparr>message_type = mt, object_id = oid, message_obj = v\<rparr>)
       else Inr \<lparr>message_type = mt, object_id = oid, message_obj = Qnil\<rparr>),
      w\<lparr>rd := rest, buf := win @ drop ROMP_BUFFER_SIZE (buf w)\<rparr>)"
proof -
  let ?w1 = "w\<lparr>rd := data @ rest, buf := win @ drop ROMP_BUFFER_SIZE (buf w)\<rparr>"
  have h: "get_message_header r 0 w = (Inr (dl, mt, oid), 0, ?w1)"
    using get_message_header_window [OF assms(1) assms(2), of r 0] assms(3) by simp
  have rt: "ruby_read_throw r (unat dl) ?w1 = (Inr (), data, ?w1\<lparr>rd := rest\<rparr>)"
    by (rule ruby_read_throw_prefix) (simp_all add: assms(4))
  show ?thesis
    by (simp add: get_message_def h rt split: sum.splits)
qed

lemma get_message_header_counter:
  "get_message_header r (n + d) w =
   (case get_message_header r n w of (res, k, w1) \<Rightarrow> (res, k + d, w1))"
proof (induction r n w rule: get_message_header.induct)
  case (1 r n w)
  obtain res got w0 where rt: "ruby_read_throw r ROMP_BUFFER_SIZE w = (res, got, w0)"
    by (cases "ruby_read_throw r ROMP_BUFFER_SIZE w") auto
  show ?case
  proof (cases res)
    case (Inl e)
    with rt show ?thesis
      by (simp add: get_message_header.simps [of r n w] get_message_header.simps [of r "n + d" w])
  next
    case (Inr u)
    obtain magic dl mt oid where gh: "get_header (buf (store_buf got w0)) = (magic, dl, mt, oid)"
      by (cases "get_header (buf (store_buf got w0))") auto
    show ?thesis
    proof (cases "ucast magic \<noteq> ROMP_MSG_START")
      case True
      have "get_message_header r (Suc n + d) (store_buf got w0) =
            (case get_message_header r (Suc n) (store_buf got w0) of (res, k, w1) \<Rightarrow> (res, k + d, w1))"
        using "1.IH" [of "Inr u" "(got, w0)" u got w0 magic "(dl, mt, oid)" dl "(mt, oid)" mt oid]
              rt Inr gh True
        by simp
      with rt Inr gh True show ?thesis
        by (simp add: get_message_header.simps [of r n w] get_message_header.simps [of r "n + d" w])
    next
      case False
      with rt Inr gh show ?thesis
        by (simp add: get_message_header.simps [of r n w] get_message_header.simps [of r "n + d" w])
    qed
  qed
qed

lemma get_message_skips:
  assumes "list_all garbage_window gs" and "length (buf w) = ROMP_BUFFER_SIZE"
  shows "get_message r (w\<lparr>rd := concat gs @ s\<rparr>) =
         get_message r (w\<lparr>rd := s, buf := last (buf w # gs)\<rparr>)"
proof -
  have "get_message_header r 0 (w\<lparr>rd := concat gs @ s\<rparr>) =
        get_message_header r (0 + length gs) (w\<lparr>rd := s, buf := last (buf w # gs)\<rparr>)"
    using get_message_header_skips [OF assms, of r 0 s] by simp
  then show ?thesis
    by (simp only: get_message_def get_message_header_counter)
       (simp split: prod.splits sum.splits)
qed

lemma get_message_header_ends:
  "get_message_header r n w = (res, k, w1) \<Longrightarrow>
     n \<le> k \<and> ROMP_BUFFER_SIZE * (k - n) \<le> length (rd w) \<and>
     (case res of
        Inl e \<Rightarrow> e = io_raise r ''read'' (rd_end w) \<and> rd w1 = []
      | Inr (dl, mt, oid) \<Rightarrow> get_header (buf w1) = (0x4242, dl, mt, oid))"
proof (induction r n w arbitrary: res k w1 rule: get_message_header.induct)
  case (1 r n w)
  obtain res0 got w0 where rt: "ruby_read_throw r ROMP_BUFFER_SIZE w = (res0, got, w0)"
    by (cases "ruby_read_throw r ROMP_BUFFER_SIZE w") auto
  show ?case
  proof (cases res0)
    case (Inl e)
    from rt Inl have "e = io_raise r ''read'' (rd_end w)" "rd w0 = []"
      by (auto simp: ruby_read_throw_def Let_def split: if_splits)
    with rt Inl "1.prems" show ?thesis
      by (auto simp: get_message_header.simps [of r n w] rd_store_buf)
  next
    case (Inr u)
    from rt Inr have len: "length (rd w0) = length (rd w) - 16" "16 \<le> length (rd w)"
      and e0: "rd_end w0 = rd_end w"
      by (auto simp: ruby_read_throw_def Let_def ROMP_BUFFER_SIZE_def split: if_splits)
    let ?w2 = "store_buf got w0"
    have w2: "rd ?w2 = rd w0" "rd_end ?w2 = rd_end w0" by (simp_all add: store_buf_def)
    obtain magic dl mt oid where gh: "get_header (buf ?w2) = (magic, dl, mt, oid)"
      by (cases "get_header (buf ?w2)") auto
    show ?thesis
    proof (cases "ucast magic \<noteq> ROMP_MSG_START")
      case True
      with rt Inr gh "1.prems"
      have step: "get_message_header r (Suc n) ?w2 = (res, k, w1)"
        by (simp add: get_message_header.simps [of r n w])
      have ih: "Suc n \<le> k \<and> ROMP_BUFFER_SIZE * (k - Suc n) \<le> length (rd ?w2) \<and>
         (case res of
            Inl e \<Rightarrow> e = io_raise r ''read'' (rd_end ?w2) \<and> rd w1 = []
          | Inr (dl, mt, oid) \<Rightarrow> get_header (buf w1) = (0x4242, dl, mt, oid))"
        using "1.IH" [of "Inr u" "(got, w0)" u got w0 magic "(dl, mt, oid)" dl "(mt, oid)" mt oid res k w1]
              rt Inr gh True step
        by simp
      from ih have a: "n \<le> k" by simp
      from a have kn: "k - n = Suc (k - Suc n)"
        using ih by (metis Suc_diff_Suc Suc_le_lessD)
      from ih len w2 have "16 * (k - Suc n) \<le> length (rd w) - 16"
        by (simp add: ROMP_BUFFER_SIZE_def)
      with len(2) have "16 * Suc (k - Suc n) \<le> length (rd w)" by arith
      with kn have b: "ROMP_BUFFER_SIZE * (k - n) \<le> length (rd w)"
        by (simp only: ROMP_BUFFER_SIZE_def)
      from ih w2 e0 have c: "(case res of
            Inl e \<Rightarrow> e = io_raise r ''read'' (rd_end w) \<and> rd w1 = []
          | Inr (dl, mt, oid) \<Rightarrow> get_header (buf w1) = (0x4242, dl, mt, oid))"
        by (cases res) simp_all
      from a b c show ?thesis by simp
    next
      case False
      then have m: "magic = 0x4242" by (simp add: ucast_magic)
      from False rt Inr gh "1.prems"
      have "res = Inr (dl, mt, oid)" "k = n" "w1 = ?w2"
        by (simp_all add: get_message_header.simps [of r n w])
      with gh m show ?thesis by simp
    qed
  qed
qed

section \<open>Frames on the wire\<close>

text \<open>
  C1, as the code has it. The header window is \<^verbatim>\<open>ROMP_BUFFER_SIZE\<close> = 16 bytes, not 8.
  For every message sent while the descriptor accepts the bytes, whatever the size of
  the payload, what goes on the wire is a 16-byte window, namely the four big-endian
  16-bit fields (magic \<open>0x4242\<close>, length, type, object id) followed by bytes 8 to 15
  of the session's scratch buffer, and immediately after it the payload. The length
  field holds the low 16 bits of the payload size: for a payload of fewer than \<open>2^16\<close>
  bytes it is the number of payload bytes. A receiver, whatever its scratch buffer
  holds, given any 16-byte window with the magic, as many payload bytes as the
  window's length field says and anything after them, takes exactly the 16-byte
  window into its scratch buffer, then exactly the payload, and leaves what follows
  unread; so it does on the frame sent, when the payload has fewer than \<open>2^16\<close> bytes.
\<close>

theorem frame_on_the_wire:
  "(wr_room w = None \<and> length (buf w) = ROMP_BUFFER_SIZE \<longrightarrow>
       fst (send_message_helper r data mt oid w) = Inr ()
     \<and> wire (snd (send_message_helper r data mt oid w)) =
         wire w @ (put_header (of_nat (length data)) mt oid @ drop 8 (buf w)) @ data
     \<and> length (put_header (of_nat (length data)) mt oid @ drop 8 (buf w)) = 16)
   \<and> get_header (put_header (of_nat (length data)) mt oid @ drop 8 (buf w)) =
         (0x4242, of_nat (length data), mt, oid)
   \<and> (length data < 65536 \<longrightarrow> unat (of_nat (length data) :: uint16_t) = length data)
   \<and> (length win = ROMP_BUFFER_SIZE \<and> get_header win = (0x4242, dl, rmt, roid) \<and>
      length payload = unat dl \<longrightarrow>
        get_message r (v\<lparr>rd := win @ payload @ rest\<rparr>) =
         ((if rmt \<noteq> ROMP_NULL_MSG
           then (case marshal_load r payload of
                   Inl e \<Rightarrow> Inl e
                 | Inr x \<Rightarrow> Inr \<lparr>message_type = rmt, object_id = roid, message_obj = x\<rparr>)
           else Inr \<lparr>message_type = rmt, object_id = roid, message_obj = Qnil\<rparr>),
          v\<lparr>rd := rest, buf := win @ drop ROMP_BUFFER_SIZE (buf v)\<rparr>))
   \<and> (length (buf w) = ROMP_BUFFER_SIZE \<and> length data < 65536 \<longrightarrow>
        get_message r (v\<lparr>rd := (put_header (of_nat (length data)) mt oid @ drop 8 (buf w)) @ data @ rest\<rparr>) =
         ((if mt \<noteq> ROMP_NULL_MSG
           then (case marshal_load r data of
                   Inl e \<Rightarrow> Inl e
                 | Inr x \<Rightarrow> Inr \<lparr>message_type = mt, object_id = oid, message_obj = x\<rparr>)
           else Inr \<lparr>message_type = mt, object_id = oid, message_obj = Qnil\<rparr>),
          v\<lparr>rd := rest,
            buf := (put_header (of_nat (length data)) mt oid @ drop 8 (buf w)) @
                   drop ROMP_BUFFER_SIZE (buf v)\<rparr>))"
proof -
  let ?h = "put_header (of_nat (length data)) mt oid"
  let ?win = "?h @ drop 8 (buf w)"
  have len: "length ?win = 16" if "length (buf w) = ROMP_BUFFER_SIZE"
    using that by (simp add: length_put_header ROMP_BUFFER_SIZE_def)
  have s: "wr_room w = None \<and> length (buf w) = ROMP_BUFFER_SIZE \<longrightarrow>
       fst (send_message_helper r data mt oid w) = Inr ()
     \<and> wire (snd (send_message_helper r data mt oid w)) = wire w @ ?win @ data
     \<and> length ?win = 16"
  proof
    assume a: "wr_room w = None \<and> length (buf w) = ROMP_BUFFER_SIZE"
    then have wr: "wr_room w = None" and l: "length ?win = 16" using len by simp_all
    have s1: "fst (send_message_helper r data mt oid w) = Inr ()"
      by (simp add: send_message_helper_ok [OF wr])
    have s2: "wire (snd (send_message_helper r data mt oid w)) = wire w @ ?win @ data"
      using l by (simp add: send_message_helper_ok [OF wr] wire_def ROMP_BUFFER_SIZE_def)
    from s1 s2 l
    show "fst (send_message_helper r data mt oid w) = Inr ()
     \<and> wire (snd (send_message_helper r data mt oid w)) = wire w @ ?win @ data
     \<and> length ?win = 16"
      by (simp only: simp_thms)
  qed
  have gh: "get_header ?win = (0x4242, of_nat (length data), mt, oid)"
    by (simp add: get_header_put_header ucast_size_t)
  have un: "length data < 65536 \<longrightarrow> unat (of_nat (length data) :: uint16_t) = length data"
    by (simp add: unat_len)
  have rc: "get_message r (v\<lparr>rd := a @ b @ rest\<rparr>) =
           ((if t \<noteq> ROMP_NULL_MSG
             then (case marshal_load r b of
                     Inl e \<Rightarrow> Inl e
                   | Inr x \<Rightarrow> Inr \<lparr>message_type = t, object_id = i, message_obj = x\<rparr>)
             else Inr \<lparr>message_type = t, object_id = i, message_obj = Qnil\<rparr>),
            v\<lparr>rd := rest, buf := a @ drop ROMP_BUFFER_SIZE (buf v)\<rparr>)"
    if "length a = ROMP_BUFFER_SIZE" and "get_header a = (0x4242, l, t, i)"
      and "length b = unat l" for a b l t i
  proof -
    have p1: "rd (v\<lparr>rd := a @ b @ rest\<rparr>) = a @ b @ rest" by simp
    show ?thesis
      using get_message_frame [OF p1 that, of r] by simp
  qed
  have g1: "length win = ROMP_BUFFER_SIZE \<and> get_header win = (0x4242, dl, rmt, roid) \<and>
        length payload = unat dl \<longrightarrow>
          get_message r (v\<lparr>rd := win @ payload @ rest\<rparr>) =
           ((if rmt \<noteq> ROMP_NULL_MSG
             then (case marshal_load r payload of
                     Inl e \<Rightarrow> Inl e
                   | Inr x \<Rightarrow> Inr \<lparr>message_type = rmt, object_id = roid, message_obj = x\<rparr>)
             else Inr \<lparr>message_type = rmt, object_id = roid, message_obj = Qnil\<rparr>),
            v\<lparr>rd := rest, buf := win @ drop ROMP_BUFFER_SIZE (buf v)\<rparr>)"
    using rc [of win dl rmt roid payload] by blast
  have g2: "length (buf w) = ROMP_BUFFER_SIZE \<and> length data < 65536 \<longrightarrow>
          get_message r (v\<lparr>rd := ?win @ data @ rest\<rparr>) =
           ((if mt \<noteq> ROMP_NULL_MSG
             then (case marshal_load r data of
                     Inl e \<Rightarrow> Inl e
                   | Inr x \<Rightarrow> Inr \<lparr>message_type = mt, object_id = oid, message_obj = x\<rparr>)
             else Inr \<lparr>message_type = mt, object_id = oid, message_obj = Qnil\<rparr>),
            v\<lparr>rd := rest, buf := ?win @ drop ROMP_BUFFER_SIZE (buf v)\<rparr>)"
  proof
    assume a: "length (buf w) = ROMP_BUFFER_SIZE \<and> length data < 65536"
    have p2: "length ?win = ROMP_BUFFER_SIZE" using a len by (simp add: ROMP_BUFFER_SIZE_def)
    have p4: "length data = unat (of_nat (length data) :: uint16_t)" using a by (simp add: unat_len)
    show "get_message r (v\<lparr>rd := ?win @ data @ rest\<rparr>) =
           ((if mt \<noteq> ROMP_NULL_MSG
             then (case marshal_load r data of
                     Inl e \<Rightarrow> Inl e
                   | Inr x \<Rightarrow> Inr \<lparr>message_type = mt, object_id = oid, message_obj = x\<rparr>)
             else Inr \<lparr>message_type = mt, object_id = oid, message_obj = Qnil\<rparr>),
            v\<lparr>rd := rest, buf := ?win @ drop ROMP_BUFFER_SIZE (buf v)\<rparr>)"
      by (rule rc [OF p2 gh p4])
  qed
  from s gh un g1 g2 show ?thesis by (simp only: simp_thms)
qed

theorem frame_on_the_wire_witness:
  "fst (send_message_helper ruby0 [4, 8, 48] ROMP_RETVAL 0 world0) = Inr ()
   \<and> wire (snd (send_message_helper ruby0 [4, 8, 48] ROMP_RETVAL 0 world0)) =
       [0x42, 0x42, 0, 3, 0x20, 0x01, 0, 0, 0, 0, 0, 0, 0, 0, 0, 0, 4, 8, 48]
   \<and> unat (of_nat (length [4, 8, 48 :: byte]) :: uint16_t) = 3
   \<and> get_message ruby0
         (world0\<lparr>buf := [],
                 rd := [0x42, 0x42, 0, 0, 0x40, 0x02, 1, 2, 3, 4, 5, 6, 7, 8, 9, 10, 7]\<rparr>) =
       (Inr \<lparr>message_type = ROMP_NULL_MSG, object_id = 0x0102, message_obj = Qnil\<rparr>,
        world0\<lparr>rd := [7], buf := [0x42, 0x42, 0, 0, 0x40, 0x02, 1, 2, 3, 4, 5, 6, 7, 8, 9, 10]\<rparr>)
   \<and> get_message ruby0
         (world0\<lparr>buf := [],
                 rd := [0x42, 0x42, 0, 3, 0x20, 0x01, 0, 0, 0, 0, 0, 0, 0, 0, 0, 0, 4, 8, 48, 7]\<rparr>) =
       (Inr \<lparr>message_type = ROMP_RETVAL, object_id = 0, message_obj = Qnil\<rparr>,
        world0\<lparr>rd := [7], buf := [0x42, 0x42, 0, 3, 0x20, 0x01, 0, 0, 0, 0, 0, 0, 0, 0, 0, 0]\<rparr>)"
proof -
  let ?n = "[0x42, 0x42, 0, 0, 0x40, 0x02, 1, 2, 3, 4, 5, 6, 7, 8, 9, 10] :: byte list"
  have h: "put_header (of_nat (length [4, 8, 48 :: byte])) ROMP_RETVAL 0 =
           [0x42, 0x42, 0, 3, 0x20, 0x01, 0, 0]"
    by (simp add: put_header_def PUTSHORT_def ROMP_defs)
  have w: "wr_room world0 = None" "length (buf world0) = ROMP_BUFFER_SIZE"
          "wire world0 = []" "drop 8 (buf world0) = [0, 0, 0, 0, 0, 0, 0, 0]"
    by (simp_all add: world0_def ROMP_BUFFER_SIZE_def wire_def)
  have l: "length [4, 8, 48 :: byte] < 65536" by simp
  have m: "marshal_load ruby0 [4, 8, 48] = Inr Qnil" "ROMP_RETVAL \<noteq> ROMP_NULL_MSG"
    by (simp_all add: marshal_load_def ruby0_def load0_def ROMP_defs)
  have n: "length ?n = ROMP_BUFFER_SIZE" "get_header ?n = (0x4242, 0, ROMP_NULL_MSG, 0x0102)"
          "length ([] :: byte list) = unat (0 :: uint16_t)"
    by (simp_all add: ROMP_BUFFER_SIZE_def get_header_def GETSHORT_def ROMP_defs)
  show ?thesis
    using l n w(1) w(2)
          frame_on_the_wire [where w = world0 and r = ruby0 and data = "[4, 8, 48]"
            and mt = ROMP_RETVAL and oid = 0 and win = ?n and dl = 0 and rmt = ROMP_NULL_MSG
            and roid = "0x0102" and payload = "[]" and v = "world0\<lparr>buf := []\<rparr>" and rest = "[7]"]
    by (simp only: h w m) simp
qed

text \<open>
  The claim with an 8-byte header fails on the null message: the sender writes 16
  bytes where the claim has 8, and a receiver given the 8 bytes of the claim's frame
  finds the stream at its end before its window is full.
\<close>

theorem frame_header_8_bytes_counterexample:
  "wire (snd (send_null_message ruby0 world0)) =
     [0x42, 0x42, 0, 0, 0x40, 0x02, 0, 0, 0, 0, 0, 0, 0, 0, 0, 0]
   \<and> wire (snd (send_null_message ruby0 world0)) \<noteq> put_header 0 ROMP_NULL_MSG 0
   \<and> fst (get_message ruby0 (world0\<lparr>rd := put_header 0 ROMP_NULL_MSG 0\<rparr>)) =
       Inl (rb_raise ruby0 ''IOError'' ''disconnected'')"
proof -
  have a: "wire (snd (send_null_message ruby0 world0)) =
     [0x42, 0x42, 0, 0, 0x40, 0x02, 0, 0, 0, 0, 0, 0, 0, 0, 0, 0]"
    by (simp add: send_null_message_def send_message_helper_ok world0_def wire_def
                  put_header_def PUTSHORT_def ROMP_defs)
  have b: "put_header 0 ROMP_NULL_MSG 0 = [0x42, 0x42, 0, 0, 0x40, 0x02, 0, 0]"
    by (simp add: put_header_def PUTSHORT_def ROMP_defs)
  have c: "fst (get_message ruby0 (world0\<lparr>rd := put_header 0 ROMP_NULL_MSG 0\<rparr>)) =
       Inl (rb_raise ruby0 ''IOError'' ''disconnected'')"
    by (simp add: get_message_def get_message_header.simps [of ruby0 0 "world0\<lparr>rd := put_header 0 ROMP_NULL_MSG 0\<rparr>"]
          ruby_read_throw_short length_put_header ROMP_BUFFER_SIZE_def)
  from a b c show ?thesis by simp
qed

section \<open>Resynchronisation\<close>

text \<open>
  C2, as the code has it. A window whose magic is wrong is discarded whole, all 16
  bytes, and another window is read. Garbage made of \<open>k\<close> such windows in front of a
  stream costs exactly \<open>k\<close> more turns of the loop, after which the receiver does
  what it does on the stream itself, with the last garbage window in its scratch
  buffer: no exception is raised on account of the garbage. On every stream the loop
  ends in one of two ways only: at a window whose magic is \<open>0x4242\<close>, whose fields it
  returns, or with the exception of the read that could not fill a window, the
  stream being used up: \<^verbatim>\<open>IOError\<close> ``disconnected'' when the descriptor is at its end,
  the system call error when \<^verbatim>\<open>read\<close> or \<^verbatim>\<open>select\<close> fails. It never raises a protocol
  error, and the only bound on the windows it discards is the length of the stream.
\<close>

theorem magic_resync_skips_windows:
  "(list_all garbage_window gs \<and> length (buf w) = ROMP_BUFFER_SIZE \<longrightarrow>
      get_message_header r 0 (w\<lparr>rd := concat gs @ s\<rparr>) =
        get_message_header r (length gs) (w\<lparr>rd := s, buf := last (buf w # gs)\<rparr>)
    \<and> get_message r (w\<lparr>rd := concat gs @ s\<rparr>) =
        get_message r (w\<lparr>rd := s, buf := last (buf w # gs)\<rparr>))
   \<and> ROMP_BUFFER_SIZE * fst (snd (get_message_header r 0 u)) \<le> length (rd u)
   \<and> (case get_message_header r 0 u of
         (Inl e, k, u1) \<Rightarrow> e = io_raise r ''read'' (rd_end u) \<and> rd u1 = []
       | (Inr (dl, mt, oid), k, u1) \<Rightarrow> get_header (buf u1) = (0x4242, dl, mt, oid))"
proof -
  have a: "list_all garbage_window gs \<and> length (buf w) = ROMP_BUFFER_SIZE \<longrightarrow>
      get_message_header r 0 (w\<lparr>rd := concat gs @ s\<rparr>) =
        get_message_header r (length gs) (w\<lparr>rd := s, buf := last (buf w # gs)\<rparr>)
    \<and> get_message r (w\<lparr>rd := concat gs @ s\<rparr>) =
        get_message r (w\<lparr>rd := s, buf := last (buf w # gs)\<rparr>)"
    using get_message_header_skips [of gs w r 0 s] get_message_skips [of gs w r s]
    by simp
  obtain res k u1 where h: "get_message_header r 0 u = (res, k, u1)"
    by (cases "get_message_header r 0 u") auto
  note e = get_message_header_ends [OF h]
  from e h have b: "ROMP_BUFFER_SIZE * fst (snd (get_message_header r 0 u)) \<le> length (rd u)"
    by simp
  from e h have c: "(case get_message_header r 0 u of
         (Inl e, k, u1) \<Rightarrow> e = io_raise r ''read'' (rd_end u) \<and> rd u1 = []
       | (Inr (dl, mt, oid), k, u1) \<Rightarrow> get_header (buf u1) = (0x4242, dl, mt, oid))"
    by (cases res) simp_all
  from a b c show ?thesis by (simp only: simp_thms)
qed

theorem magic_resync_skips_windows_witness:
  "get_message_header ruby0 0
     (world0\<lparr>rd := concat [[1, 2, 3, 4, 5, 6, 7, 8, 0x42, 0x42, 11, 12, 13, 14, 15, 16],
                           [0, 0, 0, 0, 0, 0, 0, 0, 0, 0, 0, 0, 0, 0, 0, 0]] @
                   [0x42, 0x42, 0, 0, 0x40, 0x02, 0, 0, 0, 0, 0, 0, 0, 0, 0, 0]\<rparr>) =
   (Inr (0, ROMP_NULL_MSG, 0), 2,
    world0\<lparr>rd := [], buf := [0x42, 0x42, 0, 0, 0x40, 0x02, 0, 0, 0, 0, 0, 0, 0, 0, 0, 0]\<rparr>)"
proof -
  let ?gs = "[[1, 2, 3, 4, 5, 6, 7, 8, 0x42, 0x42, 11, 12, 13, 14, 15, 16],
              [0, 0, 0, 0, 0, 0, 0, 0, 0, 0, 0, 0, 0, 0, 0, 0]] :: byte list list"
  let ?f = "[0x42, 0x42, 0, 0, 0x40, 0x02, 0, 0, 0, 0, 0, 0, 0, 0, 0, 0] :: byte list"
  have g: "list_all garbage_window ?gs"
    by (simp add: garbage_window_def GETSHORT_def ROMP_defs)
  have b: "length (buf world0) = ROMP_BUFFER_SIZE"
    by (simp add: world0_def ROMP_BUFFER_SIZE_def)
  have gh: "get_header ?f = (0x4242, 0, ROMP_NULL_MSG, 0)"
    by (simp add: get_header_def GETSHORT_def ROMP_defs)
  have "get_message_header ruby0 (length ?gs) (world0\<lparr>rd := ?f, buf := last (buf world0 # ?gs)\<rparr>) =
        (Inr (0, ROMP_NULL_MSG, 0), 2, world0\<lparr>rd := [], buf := ?f\<rparr>)"
    using get_message_header_window [of "world0\<lparr>rd := ?f, buf := last (buf world0 # ?gs)\<rparr>" ?f "[]" ruby0 "length ?gs"] gh
    by (simp add: ROMP_BUFFER_SIZE_def)
  then show ?thesis
    using g b magic_resync_skips_windows [where gs = ?gs and w = world0 and r = ruby0 and s = ?f]
    by simp
qed

text \<open>
  The claim fails on 16 zero bytes in front of a null message: the message is
  received and nothing is raised. With 8 zero bytes in front, the receiver does not
  find the frame: it discards 16 bytes, and what it raises at the end of the stream
  is the \<^verbatim>\<open>IOError\<close> of a disconnection.
\<close>

theorem magic_resync_counterexample:
  "get_message ruby0
     (world0\<lparr>rd := [0, 0, 0, 0, 0, 0, 0, 0, 0, 0, 0, 0, 0, 0, 0, 0] @
                   [0x42, 0x42, 0, 0, 0x40, 0x02, 0, 0, 0, 0, 0, 0, 0, 0, 0, 0]\<rparr>) =
   (Inr \<lparr>message_type = ROMP_NULL_MSG, object_id = 0, message_obj = Qnil\<rparr>,
    world0\<lparr>rd := [], buf := [0x42, 0x42, 0, 0, 0x40, 0x02, 0, 0, 0, 0, 0, 0, 0, 0, 0, 0]\<rparr>)
   \<and> fst (get_message ruby0
     (world0\<lparr>rd := [0, 0, 0, 0, 0, 0, 0, 0] @
                   [0x42, 0x42, 0, 0, 0x40, 0x02, 0, 0, 0, 0, 0, 0, 0, 0, 0, 0]\<rparr>)) =
     Inl (rb_raise ruby0 ''IOError'' ''disconnected'')"
proof -
  let ?g = "[0, 0, 0, 0, 0, 0, 0, 0, 0, 0, 0, 0, 0, 0, 0, 0] :: byte list"
  let ?f = "[0x42, 0x42, 0, 0, 0x40, 0x02, 0, 0, 0, 0, 0, 0, 0, 0, 0, 0] :: byte list"
  have g: "list_all garbage_window [?g]"
    by (simp add: garbage_window_def GETSHORT_def ROMP_defs)
  have b: "length (buf world0) = ROMP_BUFFER_SIZE"
    by (simp add: world0_def ROMP_BUFFER_SIZE_def)
  have 1: "get_message ruby0 (world0\<lparr>rd := ?g @ ?f\<rparr>) = get_message ruby0 (world0\<lparr>rd := ?f, buf := ?g\<rparr>)"
    using get_message_skips [OF g b, of ruby0 ?f] by simp
  have gh: "get_header ?f = (0x4242, 0, ROMP_NULL_MSG, 0)"
    by (simp add: get_header_def GETSHORT_def ROMP_defs)
  have 2: "get_message ruby0 (world0\<lparr>rd := ?f, buf := ?g\<rparr>) =
        (Inr \<lparr>message_type = ROMP_NULL_MSG, object_id = 0, message_obj = Qnil\<rparr>,
         world0\<lparr>rd := [], buf := ?f\<rparr>)"
    using get_message_frame [of "world0\<lparr>rd := ?f, buf := ?g\<rparr>" ?f "[]" "[]" 0 ROMP_NULL_MSG 0 ruby0] gh
    by (simp add: ROMP_BUFFER_SIZE_def)
  let ?g8 = "[0, 0, 0, 0, 0, 0, 0, 0, 0x42, 0x42, 0, 0, 0x40, 0x02, 0, 0] :: byte list"
  have g8: "garbage_window ?g8"
    by (simp add: garbage_window_def GETSHORT_def ROMP_defs)
  have 3: "get_message_header ruby0 0 (world0\<lparr>rd := ?g8 @ [0, 0, 0, 0, 0, 0, 0, 0]\<rparr>) =
           get_message_header ruby0 (Suc 0) (world0\<lparr>rd := [0, 0, 0, 0, 0, 0, 0, 0], buf := ?g8\<rparr>)"
    using get_message_header_garbage [OF g8, of "world0\<lparr>rd := ?g8 @ [0, 0, 0, 0, 0, 0, 0, 0]\<rparr>" "[0, 0, 0, 0, 0, 0, 0, 0]" ruby0 0] b
    by simp
  have 4: "fst (get_message_header ruby0 (Suc 0) (world0\<lparr>rd := [0, 0, 0, 0, 0, 0, 0, 0], buf := ?g8\<rparr>)) =
           Inl (rb_raise ruby0 ''IOError'' ''disconnected'')"
    by (simp add: get_message_header.simps [of ruby0 "Suc 0" "world0\<lparr>rd := [0, 0, 0, 0, 0, 0, 0, 0], buf := ?g8\<rparr>"]
          ruby_read_throw_short ROMP_BUFFER_SIZE_def)
  have 5: "fst (get_message ruby0 (world0\<lparr>rd := [0, 0, 0, 0, 0, 0, 0, 0] @ ?f\<rparr>)) =
     Inl (rb_raise ruby0 ''IOError'' ''disconnected'')"
  proof -
    obtain k w1 where "get_message_header ruby0 (Suc 0) (world0\<lparr>rd := [0, 0, 0, 0, 0, 0, 0, 0], buf := ?g8\<rparr>) =
        (Inl (rb_raise ruby0 ''IOError'' ''disconnected''), k, w1)"
      using 4 by (cases "get_message_header ruby0 (Suc 0) (world0\<lparr>rd := [0, 0, 0, 0, 0, 0, 0, 0], buf := ?g8\<rparr>)") auto
    with 3 show ?thesis by (simp add: get_message_def)
  qed
  from 1 2 5 show ?thesis by (simp only: simp_thms)
qed

section \<open>The client's response loop and sync\<close>

text \<open>
  C4. When the response loop receives an \<^verbatim>\<open>ROMP_EXCEPTION\<close> frame whose payload
  decodes to an exception object with a backtrace (an array of strings), it raises
  an exception of the same class, with the same message, whose backtrace is the
  remote backtrace followed by the local call stack.
\<close>

theorem remote_exception_raised:
  assumes "get_message r w =
             (Inr \<lparr>message_type = ROMP_EXCEPTION, object_id = oid,
                   message_obj = Exc cls m (Ary bt)\<rparr>, w1)"
      and "list_all is_Str bt" and "list_all is_Str (Kernel_caller r)"
  shows "client_request_loop r p w = (Inl (Exc cls m (Ary (bt @ Kernel_caller r))), w1)"
  using assms
  by (simp add: client_request_loop.simps [of r p w] ROMP_defs ruby_exc_message_def
        ruby_exc_backtrace_def rb_ary_concat_def ruby_caller_def ruby_raise_def)

theorem remote_exception_raised_witness:
  "client_request_loop ruby0 0
     (world0\<lparr>rd := [0x42, 0x42, 0, 3, 0x20, 0x02, 0, 0, 0, 0, 0, 0, 0, 0, 0, 0, 4, 8, 111]\<rparr>) =
   (Inl (Exc ''RuntimeError'' (Str ''boom'') (Ary [Str ''server.rb:7'', Str ''main.rb:1''])),
    world0\<lparr>rd := [], buf := [0x42, 0x42, 0, 3, 0x20, 0x02, 0, 0, 0, 0, 0, 0, 0, 0, 0, 0]\<rparr>)"
proof -
  let ?win = "[0x42, 0x42, 0, 3, 0x20, 0x02, 0, 0, 0, 0, 0, 0, 0, 0, 0, 0] :: byte list"
  let ?w = "world0\<lparr>rd := ?win @ [4, 8, 111]\<rparr>"
  have gh: "get_header ?win = (0x4242, 3, ROMP_EXCEPTION, 0)"
    by (simp add: get_header_def GETSHORT_def ROMP_defs)
  have gm: "get_message ruby0 ?w =
      (Inr \<lparr>message_type = ROMP_EXCEPTION, object_id = 0,
            message_obj = Exc ''RuntimeError'' (Str ''boom'') (Ary [Str ''server.rb:7''])\<rparr>,
       world0\<lparr>rd := [], buf := ?win\<rparr>)"
    using get_message_frame [of ?w ?win "[4, 8, 111]" "[]" 3 ROMP_EXCEPTION 0 ruby0] gh
    by (simp add: ROMP_defs marshal_load_def ruby0_def load0_def boom_def world0_def)
  have s: "list_all is_Str [Str ''server.rb:7'']" "list_all is_Str (Kernel_caller ruby0)"
    by (simp_all add: is_Str_def ruby0_def)
  show ?thesis
    using remote_exception_raised [OF gm s, of 0] by (simp add: ruby0_def)
qed

lemma send_sync_world0:
  "send_sync ruby0 (world0\<lparr>rd := bs\<rparr>) =
   (Inr (), world0\<lparr>rd := bs,
                   buf := [0x42, 0x42, 0, 3, 0x40, 0x01, 0, 0, 0, 0, 0, 0, 0, 0, 0, 0],
                   log := [Wrote [0x42, 0x42, 0, 3, 0x40, 0x01, 0, 0, 0, 0, 0, 0, 0, 0, 0, 0],
                           Wrote [4, 8, 48]]\<rparr>)"
proof -
  have h: "put_header 3 ROMP_SYNC 0 = [0x42, 0x42, 0, 3, 0x40, 0x01, 0, 0]"
    by (simp add: put_header_def PUTSHORT_def ROMP_defs)
  have r: "wr_room (world0\<lparr>rd := bs\<rparr>) = None" by (simp add: world0_def)
  show ?thesis
    by (simp add: send_sync_def send_message_def marshal_dump_def ruby0_def dump0_def
          send_message_helper_ok [OF r] h)
       (simp add: world0_def ROMP_BUFFER_SIZE_def)
qed

text \<open>
  C6. \<^verbatim>\<open>client_sync\<close> sends a \<^verbatim>\<open>ROMP_SYNC\<close> frame with object id 0 and reads one
  message, but \<^verbatim>\<open>wait_sync\<close> raises only when type, object id and object are all
  three other than those of the expected reply. Here the reply is a null message,
  and then a \<^verbatim>\<open>ROMP_RETVAL\<close> of \<^verbatim>\<open>nil\<close>: both are accepted as the sync reply and
  nothing is raised.
\<close>

theorem wait_sync_accepts_other_frames:
  "client_sync ruby0 0
     (world0\<lparr>rd := [0x42, 0x42, 0, 0, 0x40, 0x02, 0, 0, 0, 0, 0, 0, 0, 0, 0, 0]\<rparr>) =
   (Inr Qnil,
    world0\<lparr>rd := [], buf := [0x42, 0x42, 0, 0, 0x40, 0x02, 0, 0, 0, 0, 0, 0, 0, 0, 0, 0],
           log := [Wrote [0x42, 0x42, 0, 3, 0x40, 0x01, 0, 0, 0, 0, 0, 0, 0, 0, 0, 0],
                   Wrote [4, 8, 48]]\<rparr>)
   \<and> fst (client_sync ruby0 0
     (world0\<lparr>rd := [0x42, 0x42, 0, 3, 0x20, 0x01, 0, 0, 0, 0, 0, 0, 0, 0, 0, 0, 4, 8, 48]\<rparr>)) =
     Inr Qnil"
proof -
  let ?n = "[0x42, 0x42, 0, 0, 0x40, 0x02, 0, 0, 0, 0, 0, 0, 0, 0, 0, 0] :: byte list"
  let ?rv = "[0x42, 0x42, 0, 3, 0x20, 0x01, 0, 0, 0, 0, 0, 0, 0, 0, 0, 0] :: byte list"
  let ?s = "[0x42, 0x42, 0, 3, 0x40, 0x01, 0, 0, 0, 0, 0, 0, 0, 0, 0, 0] :: byte list"
  let ?w1 = "\<lambda>bs. world0\<lparr>rd := bs, buf := ?s, log := [Wrote ?s, Wrote [4, 8, 48]]\<rparr>"
  have ghn: "get_header ?n = (0x4242, 0, ROMP_NULL_MSG, 0)"
    by (simp add: get_header_def GETSHORT_def ROMP_defs)
  have ghr: "get_header ?rv = (0x4242, 3, ROMP_RETVAL, 0)"
    by (simp add: get_header_def GETSHORT_def ROMP_defs)
  have gn: "get_message ruby0 (?w1 ?n) =
      (Inr \<lparr>message_type = ROMP_NULL_MSG, object_id = 0, message_obj = Qnil\<rparr>,
       world0\<lparr>rd := [], buf := ?n, log := [Wrote ?s, Wrote [4, 8, 48]]\<rparr>)"
    using get_message_frame [of "?w1 ?n" ?n "[]" "[]" 0 ROMP_NULL_MSG 0 ruby0] ghn
    by (simp add: ROMP_BUFFER_SIZE_def world0_def)
  have gr: "get_message ruby0 (?w1 (?rv @ [4, 8, 48])) =
      (Inr \<lparr>message_type = ROMP_RETVAL, object_id = 0, message_obj = Qnil\<rparr>,
       world0\<lparr>rd := [], buf := ?rv, log := [Wrote ?s, Wrote [4, 8, 48]]\<rparr>)"
    using get_message_frame [of "?w1 (?rv @ [4, 8, 48])" ?rv "[4, 8, 48]" "[]" 3 ROMP_RETVAL 0 ruby0] ghr
    by (simp add: ROMP_defs world0_def marshal_load_def ruby0_def load0_def)
  have 1: "client_sync ruby0 0 (world0\<lparr>rd := ?n\<rparr>) =
      (Inr Qnil, world0\<lparr>rd := [], buf := ?n, log := [Wrote ?s, Wrote [4, 8, 48]]\<rparr>)"
    by (simp add: client_sync_def send_sync_world0 wait_sync_def gn)
  have 2: "fst (client_sync ruby0 0 (world0\<lparr>rd := ?rv @ [4, 8, 48]\<rparr>)) = Inr Qnil"
    using gr by (simp add: client_sync_def send_sync_world0 wait_sync_def)
  from 1 2 show ?thesis by simp
qed

lemma sync_payload_one_no_reply:
  "client_request_loop ruby0 0
     (world0\<lparr>rd := [0x42, 0x42, 0, 4, 0x40, 0x01, 0, 0, 0, 0, 0, 0, 0, 0, 0, 0, 4, 8, 105, 6,
                   0x42, 0x42, 0, 3, 0x20, 0x01, 0, 0, 0, 0, 0, 0, 0, 0, 0, 0, 4, 8, 48],
             proxies := [proxy0]\<rparr>) =
   (Inr Qnil,
    world0\<lparr>rd := [], buf := [0x42, 0x42, 0, 3, 0x20, 0x01, 0, 0, 0, 0, 0, 0, 0, 0, 0, 0],
           proxies := [proxy0]\<rparr>)"
proof -
  let ?s = "[0x42, 0x42, 0, 4, 0x40, 0x01, 0, 0, 0, 0, 0, 0, 0, 0, 0, 0] :: byte list"
  let ?rv = "[0x42, 0x42, 0, 3, 0x20, 0x01, 0, 0, 0, 0, 0, 0, 0, 0, 0, 0] :: byte list"
  let ?w = "world0\<lparr>rd := [0x42, 0x42, 0, 4, 0x40, 0x01, 0, 0, 0, 0, 0, 0, 0, 0, 0, 0, 4, 8, 105, 6,
                   0x42, 0x42, 0, 3, 0x20, 0x01, 0, 0, 0, 0, 0, 0, 0, 0, 0, 0, 4, 8, 48],
             proxies := [proxy0]\<rparr>"
  let ?w1 = "world0\<lparr>rd := [0x42, 0x42, 0, 3, 0x20, 0x01, 0, 0, 0, 0, 0, 0, 0, 0, 0, 0, 4, 8, 48],
                     buf := ?s, proxies := [proxy0]\<rparr>"
  let ?w2 = "world0\<lparr>rd := [], buf := ?rv, proxies := [proxy0]\<rparr>"
  have gh1: "get_header ?s = (0x4242, 4, ROMP_SYNC, 0)"
    by (simp add: get_header_def GETSHORT_def ROMP_defs)
  have gh2: "get_header ?rv = (0x4242, 3, ROMP_RETVAL, 0)"
    by (simp add: get_header_def GETSHORT_def ROMP_defs)
  have gm1: "get_message ruby0 ?w =
      (Inr \<lparr>message_type = ROMP_SYNC, object_id = 0, message_obj = Num 1\<rparr>, ?w1)"
    using get_message_frame [of ?w ?s "[4, 8, 105, 6]" "?rv @ [4, 8, 48]" 4 ROMP_SYNC 0 ruby0] gh1
    by (simp add: ROMP_defs world0_def marshal_load_def ruby0_def load0_def)
  have gm2: "get_message ruby0 ?w1 =
      (Inr \<lparr>message_type = ROMP_RETVAL, object_id = 0, message_obj = Qnil\<rparr>, ?w2)"
    using get_message_frame [of ?w1 ?rv "[4, 8, 48]" "[]" 3 ROMP_RETVAL 0 ruby0] gh2
    by (simp add: ROMP_defs world0_def marshal_load_def ruby0_def load0_def)
  have l2: "client_request_loop ruby0 0 ?w1 = (Inr Qnil, ?w2)"
    by (subst client_request_loop.simps) (simp add: gm2 ROMP_defs msg_to_obj_def)
  show ?thesis
    by (subst client_request_loop.simps)
       (simp add: gm1 ROMP_defs NUM2INT_def reply_sync_def l2)
qed

text \<open>
  C7. In the response loop a \<^verbatim>\<open>ROMP_SYNC\<close> frame is answered through
  \<^verbatim>\<open>reply_sync(session, NUM2INT(msg.message_obj))\<close>: the key is the payload, not the
  object id as in \<^verbatim>\<open>server_reply\<close>. Here the loop receives the frame that
  \<^verbatim>\<open>send_sync\<close> emits (object id 0, payload \<^verbatim>\<open>nil\<close>): \<^verbatim>\<open>NUM2INT\<close> raises
  \<^verbatim>\<open>TypeError\<close>, nothing is written and the call ends, where \<^verbatim>\<open>reply_sync\<close> on the
  frame's object id, as the server calls it, writes the \<^verbatim>\<open>ROMP_SYNC\<close> reply with
  object id 1. And when the payload of a \<^verbatim>\<open>ROMP_SYNC\<close> frame with object id 0 is
  the integer 1, the loop writes no reply and goes on to the next frame.
\<close>

theorem response_loop_sync_keyed_on_payload:
  "client_request_loop ruby0 0
     (world0\<lparr>rd := [0x42, 0x42, 0, 3, 0x40, 0x01, 0, 0, 0, 0, 0, 0, 0, 0, 0, 0, 4, 8, 48]\<rparr>) =
   (Inl (rb_raise ruby0 ''TypeError'' ''no implicit conversion to integer''),
    world0\<lparr>rd := [], buf := [0x42, 0x42, 0, 3, 0x40, 0x01, 0, 0, 0, 0, 0, 0, 0, 0, 0, 0]\<rparr>)
   \<and> fst (reply_sync ruby0 (ucast (0 :: OBJECT_ID_T))
     (world0\<lparr>rd := [], buf := [0x42, 0x42, 0, 3, 0x40, 0x01, 0, 0, 0, 0, 0, 0, 0, 0, 0, 0]\<rparr>)) = Inr ()
   \<and> wire (snd (reply_sync ruby0 (ucast (0 :: OBJECT_ID_T))
     (world0\<lparr>rd := [], buf := [0x42, 0x42, 0, 3, 0x40, 0x01, 0, 0, 0, 0, 0, 0, 0, 0, 0, 0]\<rparr>))) =
     [0x42, 0x42, 0, 3, 0x40, 0x01, 0, 1, 0, 0, 0, 0, 0, 0, 0, 0, 4, 8, 48]
   \<and> client_request_loop ruby0 0
     (world0\<lparr>rd := [0x42, 0x42, 0, 4, 0x40, 0x01, 0, 0, 0, 0, 0, 0, 0, 0, 0, 0, 4, 8, 105, 6,
                   0x42, 0x42, 0, 3, 0x20, 0x01, 0, 0, 0, 0, 0, 0, 0, 0, 0, 0, 4, 8, 48],
             proxies := [proxy0]\<rparr>) =
     (Inr Qnil,
      world0\<lparr>rd := [], buf := [0x42, 0x42, 0, 3, 0x20, 0x01, 0, 0, 0, 0, 0, 0, 0, 0, 0, 0],
             proxies := [proxy0]\<rparr>)"
proof -
  let ?s = "[0x42, 0x42, 0, 3, 0x40, 0x01, 0, 0, 0, 0, 0, 0, 0, 0, 0, 0] :: byte list"
  let ?w = "world0\<lparr>rd := [0x42, 0x42, 0, 3, 0x40, 0x01, 0, 0, 0, 0, 0, 0, 0, 0, 0, 0, 4, 8, 48]\<rparr>"
  let ?w1 = "world0\<lparr>rd := [], buf := ?s\<rparr>"
  have gh: "get_header ?s = (0x4242, 3, ROMP_SYNC, 0)"
    by (simp add: get_header_def GETSHORT_def ROMP_defs)
  have gm: "get_message ruby0 ?w =
      (Inr \<lparr>message_type = ROMP_SYNC, object_id = 0, message_obj = Qnil\<rparr>, ?w1)"
    using get_message_frame [of ?w ?s "[4, 8, 48]" "[]" 3 ROMP_SYNC 0 ruby0] gh
    by (simp add: ROMP_defs world0_def marshal_load_def ruby0_def load0_def)
  have 1: "client_request_loop ruby0 0 ?w =
      (Inl (rb_raise ruby0 ''TypeError'' ''no implicit conversion to integer''), ?w1)"
    by (subst client_request_loop.simps) (simp add: gm ROMP_defs NUM2INT_def)
  have h: "put_header 3 ROMP_SYNC 1 = [0x42, 0x42, 0, 3, 0x40, 0x01, 0, 1]"
    by (simp add: put_header_def PUTSHORT_def ROMP_defs)
  have r: "wr_room ?w1 = None" by (simp add: world0_def)
  have 2: "reply_sync ruby0 (ucast (0 :: OBJECT_ID_T)) ?w1 =
      (Inr (), ?w1\<lparr>buf := [0x42, 0x42, 0, 3, 0x40, 0x01, 0, 1, 0, 0, 0, 0, 0, 0, 0, 0],
                    log := [Wrote [0x42, 0x42, 0, 3, 0x40, 0x01, 0, 1, 0, 0, 0, 0, 0, 0, 0, 0],
                            Wrote [4, 8, 48]]\<rparr>)"
    by (simp add: reply_sync_def send_message_def marshal_dump_def ruby0_def dump0_def
          send_message_helper_ok [OF r] h)
       (simp add: world0_def ROMP_BUFFER_SIZE_def)
  from 1 2 sync_payload_one_no_reply show ?thesis by (simp add: wire_def)
qed

section \<open>Proxy objects: what is stored\<close>

lemma grows_eq: "proxies w' = proxies w \<Longrightarrow> grows w w'"
  by (simp add: grows_def)

lemma grows_trans: "grows a b \<Longrightarrow> grows b c \<Longrightarrow> grows a c"
  unfolding grows_def
  by (metis append_eq_conv_conj append_take_drop_id append.assoc)

lemma proxies_store_buf: "proxies (store_buf got w) = proxies w"
  by (simp add: store_buf_def)

lemma proxies_ruby_write_throw: "proxies (snd (ruby_write_throw r bs w)) = proxies w"
  by (simp add: ruby_write_throw_def split: option.splits)

lemma proxies_send_message_helper: "proxies (snd (send_message_helper r d mt oid w)) = proxies w"
proof -
  let ?w1 = "store_buf (put_header (of_nat (length d)) mt oid) w"
  obtain res w2 where a: "ruby_write_throw r (take ROMP_BUFFER_SIZE (buf ?w1)) ?w1 = (res, w2)"
    by (cases "ruby_write_throw r (take ROMP_BUFFER_SIZE (buf ?w1)) ?w1") auto
  have "proxies w2 = proxies w"
    using proxies_ruby_write_throw [of r "take ROMP_BUFFER_SIZE (buf ?w1)" ?w1] a
    by (simp add: proxies_store_buf)
  then show ?thesis using a
    by (cases res) (simp_all add: send_message_helper_def Let_def proxies_ruby_write_throw)
qed

lemma proxies_send_message: "proxies (snd (send_message r m w)) = proxies w"
  by (simp add: send_message_def proxies_send_message_helper split: sum.splits)

lemma proxies_reply_sync: "proxies (snd (reply_sync r v w)) = proxies w"
  by (simp add: reply_sync_def proxies_send_message)

lemma proxies_rb_yield: "proxies (snd (rb_yield r v w)) = proxies w"
  by (simp add: rb_yield_def split: option.splits)

lemma proxies_ruby_read_throw: "proxies (snd (snd (ruby_read_throw r n w))) = proxies w"
  by (simp add: ruby_read_throw_def Let_def)

lemma proxies_get_message_header:
  "proxies (snd (snd (get_message_header r n w))) = proxies w"
proof (induction r n w rule: get_message_header.induct)
  case (1 r n w)
  obtain res got w0 where rt: "ruby_read_throw r ROMP_BUFFER_SIZE w = (res, got, w0)"
    by (cases "ruby_read_throw r ROMP_BUFFER_SIZE w") auto
  then have p0: "proxies w0 = proxies w"
    using proxies_ruby_read_throw [of r ROMP_BUFFER_SIZE w] by simp
  show ?case
  proof (cases res)
    case (Inl e)
    with rt p0 show ?thesis
      by (simp add: get_message_header.simps [of r n w] proxies_store_buf)
  next
    case (Inr u)
    obtain magic dl mt oid where gh: "get_header (buf (store_buf got w0)) = (magic, dl, mt, oid)"
      by (cases "get_header (buf (store_buf got w0))") auto
    show ?thesis
    proof (cases "ucast magic \<noteq> ROMP_MSG_START")
      case True
      have "proxies (snd (snd (get_message_header r (Suc n) (store_buf got w0)))) =
            proxies (store_buf got w0)"
        using "1.IH" [of "Inr u" "(got, w0)" u got w0 magic "(dl, mt, oid)" dl "(mt, oid)" mt oid]
              rt Inr gh True
        by simp
      with rt Inr gh True p0 show ?thesis
        by (simp add: get_message_header.simps [of r n w] proxies_store_buf)
    next
      case False
      with rt Inr gh p0 show ?thesis
        by (simp add: get_message_header.simps [of r n w] proxies_store_buf)
    qed
  qed
qed

lemma proxies_get_message: "proxies (snd (get_message r w)) = proxies w"
proof -
  obtain res n w1 where h: "get_message_header r 0 w = (res, n, w1)"
    by (cases "get_message_header r 0 w") auto
  then have p1: "proxies w1 = proxies w"
    using proxies_get_message_header [of r 0 w] by simp
  show ?thesis
  proof (cases res)
    case (Inl e)
    with h p1 show ?thesis by (simp add: get_message_def)
  next
    case (Inr hd)
    obtain dl mt oid where hd: "hd = (dl, mt, oid)" by (cases hd) auto
    obtain res2 got w2 where rt: "ruby_read_throw r (unat dl) w1 = (res2, got, w2)"
      by (cases "ruby_read_throw r (unat dl) w1") auto
    then have "proxies w2 = proxies w1"
      using proxies_ruby_read_throw [of r "unat dl" w1] by simp
    with h Inr hd rt p1 show ?thesis
      by (simp add: get_message_def split: sum.splits)
  qed
qed

lemma grows_msg_to_obj: "grows w (snd (msg_to_obj r v s m w))"
  by (simp add: msg_to_obj_def ruby_proxy_object_new_def grows_def split: VALUE.splits sum.splits)

lemma grows_client_request_loop: "grows w (snd (client_request_loop r p w))"
proof (induction r p w rule: client_request_loop.induct)
  case (1 r p w)
  obtain res w1 where gm: "get_message r w = (res, w1)"
    by (cases "get_message r w") auto
  then have g1: "grows w w1"
    using proxies_get_message [of r w] by (simp add: grows_eq)
  show ?case
  proof (cases res)
    case (Inl e)
    with gm g1 show ?thesis by (simp add: client_request_loop.simps [of r p w])
  next
    case (Inr msg)
    let ?m2o = "msg_to_obj r (message_obj msg) (ruby_session (proxies w1 ! p)) (mutex (proxies w1 ! p)) w1"
    consider (ret) "message_type msg = ROMP_RETVAL"
      | (yld) "message_type msg \<noteq> ROMP_RETVAL" "message_type msg = ROMP_YIELD"
      | (exc) "message_type msg \<noteq> ROMP_RETVAL" "message_type msg \<noteq> ROMP_YIELD"
              "message_type msg = ROMP_EXCEPTION"
      | (syn) "message_type msg \<noteq> ROMP_RETVAL" "message_type msg \<noteq> ROMP_YIELD"
              "message_type msg \<noteq> ROMP_EXCEPTION" "message_type msg = ROMP_SYNC"
      | (bad) "message_type msg \<noteq> ROMP_RETVAL" "message_type msg \<noteq> ROMP_YIELD"
              "message_type msg \<noteq> ROMP_EXCEPTION" "message_type msg \<noteq> ROMP_SYNC"
      by blast
    then show ?thesis
    proof cases
      case ret
      have "grows w1 (snd ?m2o)" by (rule grows_msg_to_obj)
      with g1 have "grows w (snd ?m2o)" by (rule grows_trans)
      with gm Inr ret show ?thesis by (simp add: client_request_loop.simps [of r p w])
    next
      case yld
      obtain res2 w2 where m2: "?m2o = (res2, w2)" by (cases ?m2o) auto
      then have g2: "grows w w2"
        using grows_msg_to_obj [of w1 r "message_obj msg" "ruby_session (proxies w1 ! p)" "mutex (proxies w1 ! p)"] g1
        by (auto intro: grows_trans)
      show ?thesis
      proof (cases res2)
        case (Inl e)
        with gm Inr yld m2 g2 show ?thesis by (simp add: client_request_loop.simps [of r p w])
      next
        case v: (Inr v)
        obtain res3 w3 where y: "rb_yield r v w2 = (res3, w3)" by (cases "rb_yield r v w2") auto
        then have g3: "grows w w3"
          using proxies_rb_yield [of r v w2] g2 by (auto intro: grows_trans grows_eq)
        show ?thesis
        proof (cases res3)
          case (Inl e)
          with gm Inr yld m2 v y g3 show ?thesis by (simp add: client_request_loop.simps [of r p w])
        next
          case u: (Inr u)
          have "grows w3 (snd (client_request_loop r p w3))"
            using "1.IH"(1) [of "Inr msg" w1 msg "Inr v" w2 v "Inr u" w3 u] gm Inr yld m2 v y u
            by simp
          with g3 have "grows w (snd (client_request_loop r p w3))" by (rule grows_trans)
          with gm Inr yld m2 v y u show ?thesis by (simp add: client_request_loop.simps [of r p w])
        qed
      qed
    next
      case exc
      with gm Inr g1 show ?thesis
        by (simp add: client_request_loop.simps [of r p w] split: sum.splits)
    next
      case syn
      show ?thesis
      proof (cases "NUM2INT r (message_obj msg)")
        case (Inl e)
        with gm Inr syn g1 show ?thesis by (simp add: client_request_loop.simps [of r p w])
      next
        case n: (Inr n)
        obtain res2 w2 where rs: "reply_sync r n w1 = (res2, w2)" by (cases "reply_sync r n w1") auto
        then have g2: "grows w w2"
          using proxies_reply_sync [of r n w1] g1 by (auto intro: grows_trans grows_eq)
        show ?thesis
        proof (cases res2)
          case (Inl e)
          with gm Inr syn n rs g2 show ?thesis by (simp add: client_request_loop.simps [of r p w])
        next
          case u: (Inr u)
          have "grows w2 (snd (client_request_loop r p w2))"
            using "1.IH"(2) [of "Inr msg" w1 msg n "Inr u" w2 u] gm Inr syn n rs u
            by simp
          with g2 have "grows w (snd (client_request_loop r p w2))" by (rule grows_trans)
          with gm Inr syn n rs u show ?thesis by (simp add: client_request_loop.simps [of r p w])
        qed
      qed
    next
      case bad
      with gm Inr g1 show ?thesis by (simp add: client_request_loop.simps [of r p w])
    qed
  qed
qed

lemma grows_nth: "grows w w' \<Longrightarrow> q < length (proxies w) \<Longrightarrow>
    q < length (proxies w') \<and> proxies w' ! q = proxies w ! q"
  unfolding grows_def
  by (metis length_take min_less_iff_conj nth_take)

lemma grows_client_request: "grows w (snd (client_request r p w))"
proof -
  let ?m = "\<lparr>message_type = (if block r \<noteq> None then ROMP_REQUEST_BLOCK else ROMP_REQUEST),
              object_id = proxy_object_id (proxies w ! p),
              message_obj = message (proxies w ! p)\<rparr>"
  obtain res w1 where s: "send_message r ?m w = (res, w1)" by (cases "send_message r ?m w") auto
  then have g1: "grows w w1" using proxies_send_message [of r ?m w] by (simp add: grows_eq)
  show ?thesis
  proof (cases res)
    case (Inl e)
    with s g1 show ?thesis by (simp add: client_request_def)
  next
    case (Inr u)
    have "grows w1 (snd (client_request_loop r p w1))" by (rule grows_client_request_loop)
    with g1 have "grows w (snd (client_request_loop r p w1))" by (rule grows_trans)
    with s Inr show ?thesis by (simp add: client_request_def)
  qed
qed

lemma grows_client_oneway: "grows w (snd (client_oneway r p w))"
proof -
  let ?m = "\<lparr>message_type = ROMP_ONEWAY, object_id = proxy_object_id (proxies w ! p),
              message_obj = message (proxies w ! p)\<rparr>"
  obtain res w1 where s: "send_message r ?m w = (res, w1)" by (cases "send_message r ?m w") auto
  then have g1: "grows w w1" using proxies_send_message [of r ?m w] by (simp add: grows_eq)
  with s show ?thesis by (cases res) (simp_all add: client_oneway_def)
qed

lemma grows_client_oneway_sync: "grows w (snd (client_oneway_sync r p w))"
proof -
  let ?m = "\<lparr>message_type = ROMP_ONEWAY_SYNC, object_id = proxy_object_id (proxies w ! p),
              message_obj = message (proxies w ! p)\<rparr>"
  obtain res w1 where s: "send_message r ?m w = (res, w1)" by (cases "send_message r ?m w") auto
  then have g1: "grows w w1" using proxies_send_message [of r ?m w] by (simp add: grows_eq)
  obtain res2 w2 where g: "get_message r w1 = (res2, w2)" by (cases "get_message r w1") auto
  then have g2: "grows w w2" using proxies_get_message [of r w1] g1 by (simp add: grows_def)
  from s g g1 g2 show ?thesis
    by (cases res; cases res2) (simp_all add: client_oneway_sync_def)
qed

lemma grows_client_sync: "grows w (snd (client_sync r p w))"
proof -
  obtain res w1 where s: "send_sync r w = (res, w1)" by (cases "send_sync r w") auto
  then have g1: "grows w w1"
    using proxies_send_message [of r "\<lparr>message_type = ROMP_SYNC, object_id = 0, message_obj = Qnil\<rparr>" w]
    by (simp add: grows_eq send_sync_def)
  obtain res2 w2 where g: "get_message r w1 = (res2, w2)" by (cases "get_message r w1") auto
  then have g2: "grows w w2" using proxies_get_message [of r w1] g1 by (simp add: grows_def)
  from s g g1 g2 show ?thesis
    by (cases res; cases res2) (simp_all add: client_sync_def wait_sync_def)
qed

lemma proxy_after_same: "q < length (proxies w) \<Longrightarrow> grows w w' \<Longrightarrow>
    proxy_after q w w' (message (proxies w ! q))"
  using grows_nth [of w w' q] by (simp add: proxy_after_def)

lemma proxy_after_set_message:
  assumes "q < length (proxies w)" and "p < length (proxies w)"
    and "grows (set_message p msg w) w'"
  shows "proxy_after q w w' (if p = q then msg else message (proxies w ! q))"
proof -
  have "q < length (proxies (set_message p msg w))"
    using assms(1) by (simp add: set_message_def)
  from grows_nth [OF assms(3) this]
  have "q < length (proxies w')" and "proxies w' ! q = proxies (set_message p msg w) ! q"
    by simp_all
  then show ?thesis
    using assms(1,2) by (simp add: proxy_after_def set_message_def nth_list_update)
qed

lemma grows_ensure_locked:
  assumes "\<And>v. grows v (snd (f v))"
  shows "grows w (snd (rb_ensure f (ruby_unlock m) (ruby_lock m' w)))"
proof -
  obtain res v where fv: "f (ruby_lock m' w) = (res, v)" by (cases "f (ruby_lock m' w)") auto
  have "grows (ruby_lock m' w) v" using assms [of "ruby_lock m' w"] fv by simp
  then show ?thesis
    using fv by (simp add: rb_ensure_def grows_def ruby_lock_def ruby_unlock_def)
qed

lemma proxy_after_method_missing:
  assumes "q < length (proxies w)"
  shows "proxy_after q w (snd (ruby_proxy_object_method_missing r self msg w))
           (if self = Data_Proxy_Object q then msg else message (proxies w ! q))"
proof (cases "Data_Get_Struct r self w")
  case (Inl e)
  then have "self \<noteq> Data_Proxy_Object q"
    using assms by (auto simp: Data_Get_Struct_def)
  with Inl assms show ?thesis
    by (simp add: ruby_proxy_object_method_missing_def proxy_after_same grows_eq)
next
  case (Inr p)
  then have p: "self = Data_Proxy_Object p" "p < length (proxies w)"
    by (auto simp: Data_Get_Struct_def split: VALUE.splits if_splits)
  have "grows (set_message p msg w)
          (snd (rb_ensure (client_request r p)
                  (ruby_unlock (mutex (proxies (set_message p msg w) ! p)))
                  (ruby_lock (mutex (proxies (set_message p msg w) ! p)) (set_message p msg w))))"
    by (rule grows_ensure_locked) (rule grows_client_request)
  from proxy_after_set_message [OF assms p(2) this] Inr p(1) show ?thesis
    by (simp add: ruby_proxy_object_method_missing_def Let_def)
qed

lemma snd_case_result:
  "snd (case x of (Inl e, w3) \<Rightarrow> (Inl e, w3) | (Inr u, w3) \<Rightarrow> (Inr c, w3)) = snd x"
  by (cases x) (auto split: sum.splits)

lemma proxy_after_oneway:
  assumes "q < length (proxies w)"
  shows "proxy_after q w (snd (ruby_proxy_object_oneway r self msg w))
           (if self = Data_Proxy_Object q then msg else message (proxies w ! q))"
proof (cases "Data_Get_Struct r self w")
  case (Inl e)
  then have "self \<noteq> Data_Proxy_Object q"
    using assms by (auto simp: Data_Get_Struct_def)
  with Inl assms show ?thesis
    by (simp add: ruby_proxy_object_oneway_def proxy_after_same grows_eq)
next
  case (Inr p)
  then have p: "self = Data_Proxy_Object p" "p < length (proxies w)"
    by (auto simp: Data_Get_Struct_def split: VALUE.splits if_splits)
  have "grows (set_message p msg w)
          (snd (rb_ensure (client_oneway r p)
                  (ruby_unlock (mutex (proxies (set_message p msg w) ! p)))
                  (ruby_lock (mutex (proxies (set_message p msg w) ! p)) (set_message p msg w))))"
    by (rule grows_ensure_locked) (rule grows_client_oneway)
  from proxy_after_set_message [OF assms p(2) this] Inr p(1) show ?thesis
    by (simp add: ruby_proxy_object_oneway_def Let_def snd_case_result)
qed

lemma proxy_after_oneway_sync:
  assumes "q < length (proxies w)"
  shows "proxy_after q w (snd (ruby_proxy_object_oneway_sync r self msg w))
           (if self = Data_Proxy_Object q then msg else message (proxies w ! q))"
proof (cases "Data_Get_Struct r self w")
  case (Inl e)
  then have "self \<noteq> Data_Proxy_Object q"
    using assms by (auto simp: Data_Get_Struct_def)
  with Inl assms show ?thesis
    by (simp add: ruby_proxy_object_oneway_sync_def proxy_after_same grows_eq)
next
  case (Inr p)
  then have p: "self = Data_Proxy_Object p" "p < length (proxies w)"
    by (auto simp: Data_Get_Struct_def split: VALUE.splits if_splits)
  have "grows (set_message p msg w)
          (snd (rb_ensure (client_oneway_sync r p)
                  (ruby_unlock (mutex (proxies (set_message p msg w) ! p)))
                  (ruby_lock (mutex (proxies (set_message p msg w) ! p)) (set_message p msg w))))"
    by (rule grows_ensure_locked) (rule grows_client_oneway_sync)
  from proxy_after_set_message [OF assms p(2) this] Inr p(1) show ?thesis
    by (simp add: ruby_proxy_object_oneway_sync_def Let_def snd_case_result)
qed

lemma proxy_after_sync:
  assumes "q < length (proxies w)"
  shows "proxy_after q w (snd (ruby_proxy_object_sync r self w)) (message (proxies w ! q))"
proof (cases "Data_Get_Struct r self w")
  case (Inl e)
  with assms show ?thesis
    by (simp add: ruby_proxy_object_sync_def proxy_after_same grows_eq)
next
  case (Inr p)
  have "grows w (snd (rb_ensure (client_sync r p) (ruby_unlock (mutex (proxies w ! p)))
                        (ruby_lock (mutex (proxies w ! p)) w)))"
    by (rule grows_ensure_locked) (rule grows_client_sync)
  from proxy_after_same [OF assms this] Inr show ?thesis
    by (simp add: ruby_proxy_object_sync_def Let_def snd_case_result)
qed

text \<open>
  What is sent: the events only accumulate, and a request through a proxy starts
  with locking the proxy's mutex and writing one frame built from the fields of
  the struct.
\<close>

lemma log_grows_refl: "log_grows w w"
  by (simp add: log_grows_def)

lemma log_grows_eq: "log w' = log w \<Longrightarrow> log_grows w w'"
  by (simp add: log_grows_def)

lemma log_grows_app: "log w' = log w @ es \<Longrightarrow> log_grows w w'"
  by (simp add: log_grows_def)

lemma log_grows_trans: "log_grows a b \<Longrightarrow> log_grows b c \<Longrightarrow> log_grows a c"
  unfolding log_grows_def
  by (metis append_eq_conv_conj append_take_drop_id append.assoc)

lemma log_store_buf: "log (store_buf got w) = log w"
  by (simp add: store_buf_def)

lemma log_grows_ruby_write_throw: "log_grows w (snd (ruby_write_throw r bs w))"
  by (simp add: ruby_write_throw_def log_grows_def split: option.splits)

lemma log_grows_send_message_helper: "log_grows w (snd (send_message_helper r d mt oid w))"
proof -
  let ?w1 = "store_buf (put_header (of_nat (length d)) mt oid) w"
  obtain res w2 where a: "ruby_write_throw r (take ROMP_BUFFER_SIZE (buf ?w1)) ?w1 = (res, w2)"
    by (cases "ruby_write_throw r (take ROMP_BUFFER_SIZE (buf ?w1)) ?w1") auto
  have "log_grows ?w1 w2"
    using log_grows_ruby_write_throw [of ?w1 r "take ROMP_BUFFER_SIZE (buf ?w1)"] a by simp
  then have g: "log_grows w w2" by (simp add: log_grows_def log_store_buf)
  have "log_grows w2 (snd (ruby_write_throw r d w2))" by (rule log_grows_ruby_write_throw)
  with g have "log_grows w (snd (ruby_write_throw r d w2))" by (rule log_grows_trans)
  with g a show ?thesis
    by (cases res) (simp_all add: send_message_helper_def Let_def)
qed

lemma log_grows_send_message: "log_grows w (snd (send_message r m w))"
  by (simp add: send_message_def log_grows_send_message_helper log_grows_refl split: sum.splits)

lemma log_grows_reply_sync: "log_grows w (snd (reply_sync r v w))"
  by (simp add: reply_sync_def log_grows_send_message log_grows_refl)

lemma log_grows_rb_yield: "log_grows w (snd (rb_yield r v w))"
  by (simp add: rb_yield_def log_grows_def split: option.splits)

lemma log_ruby_read_throw: "log (snd (snd (ruby_read_throw r n w))) = log w"
  by (simp add: ruby_read_throw_def Let_def)

lemma log_get_message_header:
  "log (snd (snd (get_message_header r n w))) = log w"
proof (induction r n w rule: get_message_header.induct)
  case (1 r n w)
  obtain res got w0 where rt: "ruby_read_throw r ROMP_BUFFER_SIZE w = (res, got, w0)"
    by (cases "ruby_read_throw r ROMP_BUFFER_SIZE w") auto
  then have p0: "log w0 = log w"
    using log_ruby_read_throw [of r ROMP_BUFFER_SIZE w] by simp
  show ?case
  proof (cases res)
    case (Inl e)
    with rt p0 show ?thesis
      by (simp add: get_message_header.simps [of r n w] log_store_buf)
  next
    case (Inr u)
    obtain magic dl mt oid where gh: "get_header (buf (store_buf got w0)) = (magic, dl, mt, oid)"
      by (cases "get_header (buf (store_buf got w0))") auto
    show ?thesis
    proof (cases "ucast magic \<noteq> ROMP_MSG_START")
      case True
      have "log (snd (snd (get_message_header r (Suc n) (store_buf got w0)))) =
            log (store_buf got w0)"
        using "1.IH" [of "Inr u" "(got, w0)" u got w0 magic "(dl, mt, oid)" dl "(mt, oid)" mt oid]
              rt Inr gh True
        by simp
      with rt Inr gh True p0 show ?thesis
        by (simp add: get_message_header.simps [of r n w] log_store_buf)
    next
      case False
      with rt Inr gh p0 show ?thesis
        by (simp add: get_message_header.simps [of r n w] log_store_buf)
    qed
  qed
qed

lemma log_get_message: "log (snd (get_message r w)) = log w"
proof -
  obtain res n w1 where h: "get_message_header r 0 w = (res, n, w1)"
    by (cases "get_message_header r 0 w") auto
  then have p1: "log w1 = log w"
    using log_get_message_header [of r 0 w] by simp
  show ?thesis
  proof (cases res)
    case (Inl e)
    with h p1 show ?thesis by (simp add: get_message_def)
  next
    case (Inr hd)
    obtain dl mt oid where hd: "hd = (dl, mt, oid)" by (cases hd) auto
    obtain res2 got w2 where rt: "ruby_read_throw r (unat dl) w1 = (res2, got, w2)"
      by (cases "ruby_read_throw r (unat dl) w1") auto
    then have "log w2 = log w1"
      using log_ruby_read_throw [of r "unat dl" w1] by simp
    with h Inr hd rt p1 show ?thesis
      by (simp add: get_message_def split: sum.splits)
  qed
qed

lemma log_grows_msg_to_obj: "log_grows w (snd (msg_to_obj r v s m w))"
  by (simp add: msg_to_obj_def ruby_proxy_object_new_def log_grows_def split: VALUE.splits sum.splits)

lemma log_grows_client_request_loop: "log_grows w (snd (client_request_loop r p w))"
proof (induction r p w rule: client_request_loop.induct)
  case (1 r p w)
  obtain res w1 where gm: "get_message r w = (res, w1)"
    by (cases "get_message r w") auto
  then have g1: "log_grows w w1"
    using log_get_message [of r w] by (simp add: log_grows_eq)
  show ?case
  proof (cases res)
    case (Inl e)
    with gm g1 show ?thesis by (simp add: client_request_loop.simps [of r p w])
  next
    case (Inr msg)
    let ?m2o = "msg_to_obj r (message_obj msg) (ruby_session (proxies w1 ! p)) (mutex (proxies w1 ! p)) w1"
    consider (ret) "message_type msg = ROMP_RETVAL"
      | (yld) "message_type msg \<noteq> ROMP_RETVAL" "message_type msg = ROMP_YIELD"
      | (exc) "message_type msg \<noteq> ROMP_RETVAL" "message_type msg \<noteq> ROMP_YIELD"
              "message_type msg = ROMP_EXCEPTION"
      | (syn) "message_type msg \<noteq> ROMP_RETVAL" "message_type msg \<noteq> ROMP_YIELD"
              "message_type msg \<noteq> ROMP_EXCEPTION" "message_type msg = ROMP_SYNC"
      | (bad) "message_type msg \<noteq> ROMP_RETVAL" "message_type msg \<noteq> ROMP_YIELD"
              "message_type msg \<noteq> ROMP_EXCEPTION" "message_type msg \<noteq> ROMP_SYNC"
      by blast
    then show ?thesis
    proof cases
      case ret
      have "log_grows w1 (snd ?m2o)" by (rule log_grows_msg_to_obj)
      with g1 have "log_grows w (snd ?m2o)" by (rule log_grows_trans)
      with gm Inr ret show ?thesis by (simp add: client_request_loop.simps [of r p w])
    next
      case yld
      obtain res2 w2 where m2: "?m2o = (res2, w2)" by (cases ?m2o) auto
      then have g2: "log_grows w w2"
        using log_grows_msg_to_obj [of w1 r "message_obj msg" "ruby_session (proxies w1 ! p)" "mutex (proxies w1 ! p)"] g1
        by (auto intro: log_grows_trans)
      show ?thesis
      proof (cases res2)
        case (Inl e)
        with gm Inr yld m2 g2 show ?thesis by (simp add: client_request_loop.simps [of r p w])
      next
        case v: (Inr v)
        obtain res3 w3 where y: "rb_yield r v w2 = (res3, w3)" by (cases "rb_yield r v w2") auto
        then have g3: "log_grows w w3"
          using log_grows_rb_yield [of w2 r v] g2 by (auto intro: log_grows_trans)
        show ?thesis
        proof (cases res3)
          case (Inl e)
          with gm Inr yld m2 v y g3 show ?thesis by (simp add: client_request_loop.simps [of r p w])
        next
          case u: (Inr u)
          have "log_grows w3 (snd (client_request_loop r p w3))"
            using "1.IH"(1) [of "Inr msg" w1 msg "Inr v" w2 v "Inr u" w3 u] gm Inr yld m2 v y u
            by simp
          with g3 have "log_grows w (snd (client_request_loop r p w3))" by (rule log_grows_trans)
          with gm Inr yld m2 v y u show ?thesis by (simp add: client_request_loop.simps [of r p w])
        qed
      qed
    next
      case exc
      with gm Inr g1 show ?thesis
        by (simp add: client_request_loop.simps [of r p w] split: sum.splits)
    next
      case syn
      show ?thesis
      proof (cases "NUM2INT r (message_obj msg)")
        case (Inl e)
        with gm Inr syn g1 show ?thesis by (simp add: client_request_loop.simps [of r p w])
      next
        case n: (Inr n)
        obtain res2 w2 where rs: "reply_sync r n w1 = (res2, w2)" by (cases "reply_sync r n w1") auto
        then have g2: "log_grows w w2"
          using log_grows_reply_sync [of w1 r n] g1 by (auto intro: log_grows_trans)
        show ?thesis
        proof (cases res2)
          case (Inl e)
          with gm Inr syn n rs g2 show ?thesis by (simp add: client_request_loop.simps [of r p w])
        next
          case u: (Inr u)
          have "log_grows w2 (snd (client_request_loop r p w2))"
            using "1.IH"(2) [of "Inr msg" w1 msg n "Inr u" w2 u] gm Inr syn n rs u
            by simp
          with g2 have "log_grows w (snd (client_request_loop r p w2))" by (rule log_grows_trans)
          with gm Inr syn n rs u show ?thesis by (simp add: client_request_loop.simps [of r p w])
        qed
      qed
    next
      case bad
      with gm Inr g1 show ?thesis by (simp add: client_request_loop.simps [of r p w])
    qed
  qed
qed

lemma new_events_prefix:
  assumes "log a = log w @ es" and "log_grows a b" and "n = length es"
  shows "take n (new_events w b) = es"
proof -
  from assms(2) have "log b = log a @ drop (length (log a)) (log b)"
    unfolding log_grows_def by (metis append_take_drop_id)
  with assms(1) have "log b = log w @ es @ drop (length (log a)) (log b)" by simp
  then have "new_events w b = es @ drop (length (log a)) (log b)"
    unfolding new_events_def by (metis append_eq_conv_conj)
  with assms(3) show ?thesis by simp
qed

lemma send_message_ok:
  assumes "marshal_dump r (message_obj m) = Inr data" and "wr_room w = None"
  shows "send_message r m w =
         (Inr (), w\<lparr>buf := put_header (of_nat (length data)) (message_type m) (object_id m) @ drop 8 (buf w),
                    log := log w @ [Wrote (take ROMP_BUFFER_SIZE
                                      (put_header (of_nat (length data)) (message_type m) (object_id m) @ drop 8 (buf w))),
                                    Wrote data]\<rparr>)"
  using assms by (simp add: send_message_def send_message_helper_ok)

lemma client_request_sends:
  assumes "marshal_dump r (message (proxies w ! p)) = Inr data" and "wr_room w = None"
  shows "take 2 (new_events w (snd (client_request r p w))) =
         [Wrote (take ROMP_BUFFER_SIZE
            (put_header (of_nat (length data))
               (if block r \<noteq> None then ROMP_REQUEST_BLOCK else ROMP_REQUEST)
               (proxy_object_id (proxies w ! p)) @ drop 8 (buf w))),
          Wrote data]"
proof -
  define mt where "mt = (if block r \<noteq> None then ROMP_REQUEST_BLOCK else ROMP_REQUEST)"
  let ?m = "\<lparr>message_type = mt, object_id = proxy_object_id (proxies w ! p),
              message_obj = message (proxies w ! p)\<rparr>"
  let ?es = "[Wrote (take ROMP_BUFFER_SIZE
            (put_header (of_nat (length data)) mt
               (proxy_object_id (proxies w ! p)) @ drop 8 (buf w))),
          Wrote data]"
  obtain w1 where s: "send_message r ?m w = (Inr (), w1)" and l: "log w1 = log w @ ?es"
    using send_message_ok [of r ?m data w] assms by simp
  have g: "log_grows w1 (snd (client_request_loop r p w1))" by (rule log_grows_client_request_loop)
  have "take 2 (new_events w (snd (client_request_loop r p w1))) = ?es"
    by (rule new_events_prefix [OF l g]) simp
  moreover have "client_request r p w = client_request_loop r p w1"
    using s by (simp add: client_request_def mt_def)
  ultimately show ?thesis by (simp only: mt_def)
qed

lemma client_oneway_sends:
  assumes "marshal_dump r (message (proxies w ! p)) = Inr data" and "wr_room w = None"
  shows "take 2 (new_events w (snd (client_oneway r p w))) =
         [Wrote (take ROMP_BUFFER_SIZE
            (put_header (of_nat (length data)) ROMP_ONEWAY
               (proxy_object_id (proxies w ! p)) @ drop 8 (buf w))),
          Wrote data]"
  using assms
  by (simp add: client_oneway_def send_message_ok new_events_def)

lemma client_oneway_sync_sends:
  assumes "marshal_dump r (message (proxies w ! p)) = Inr data" and "wr_room w = None"
  shows "take 2 (new_events w (snd (client_oneway_sync r p w))) =
         [Wrote (take ROMP_BUFFER_SIZE
            (put_header (of_nat (length data)) ROMP_ONEWAY_SYNC
               (proxy_object_id (proxies w ! p)) @ drop 8 (buf w))),
          Wrote data]"
proof -
  let ?m = "\<lparr>message_type = ROMP_ONEWAY_SYNC,
              object_id = proxy_object_id (proxies w ! p),
              message_obj = message (proxies w ! p)\<rparr>"
  let ?es = "[Wrote (take ROMP_BUFFER_SIZE
            (put_header (of_nat (length data)) ROMP_ONEWAY_SYNC
               (proxy_object_id (proxies w ! p)) @ drop 8 (buf w))),
          Wrote data]"
  obtain w1 where s: "send_message r ?m w = (Inr (), w1)" and l: "log w1 = log w @ ?es"
    using send_message_ok [of r ?m data w] assms by simp
  obtain res2 w2 where g: "get_message r w1 = (res2, w2)" by (cases "get_message r w1") auto
  then have "log_grows w1 w2" using log_get_message [of r w1] by (simp add: log_grows_eq)
  then have "take 2 (new_events w w2) = ?es"
    by (rule new_events_prefix [OF l]) simp
  moreover have "snd (client_oneway_sync r p w) = w2"
    using s g by (cases res2) (simp_all add: client_oneway_sync_def)
  ultimately show ?thesis by (simp only:)
qed

lemma log_grows_client_request: "log_grows w (snd (client_request r p w))"
proof -
  let ?m = "\<lparr>message_type = (if block r \<noteq> None then ROMP_REQUEST_BLOCK else ROMP_REQUEST),
              object_id = proxy_object_id (proxies w ! p),
              message_obj = message (proxies w ! p)\<rparr>"
  obtain res w1 where s: "send_message r ?m w = (res, w1)" by (cases "send_message r ?m w") auto
  then have g1: "log_grows w w1" using log_grows_send_message [of w r ?m] by simp
  show ?thesis
  proof (cases res)
    case (Inl e)
    with s g1 show ?thesis by (simp add: client_request_def)
  next
    case (Inr u)
    have "log_grows w1 (snd (client_request_loop r p w1))" by (rule log_grows_client_request_loop)
    with g1 have "log_grows w (snd (client_request_loop r p w1))" by (rule log_grows_trans)
    with s Inr show ?thesis by (simp add: client_request_def)
  qed
qed

lemma log_grows_client_oneway: "log_grows w (snd (client_oneway r p w))"
proof -
  let ?m = "\<lparr>message_type = ROMP_ONEWAY, object_id = proxy_object_id (proxies w ! p),
              message_obj = message (proxies w ! p)\<rparr>"
  obtain res w1 where s: "send_message r ?m w = (res, w1)" by (cases "send_message r ?m w") auto
  then have g1: "log_grows w w1" using log_grows_send_message [of w r ?m] by simp
  with s show ?thesis by (cases res) (simp_all add: client_oneway_def)
qed

lemma log_grows_client_oneway_sync: "log_grows w (snd (client_oneway_sync r p w))"
proof -
  let ?m = "\<lparr>message_type = ROMP_ONEWAY_SYNC, object_id = proxy_object_id (proxies w ! p),
              message_obj = message (proxies w ! p)\<rparr>"
  obtain res w1 where s: "send_message r ?m w = (res, w1)" by (cases "send_message r ?m w") auto
  then have g1: "log_grows w w1" using log_grows_send_message [of w r ?m] by simp
  obtain res2 w2 where g: "get_message r w1 = (res2, w2)" by (cases "get_message r w1") auto
  then have g2: "log_grows w w2" using log_get_message [of r w1] g1 by (simp add: log_grows_def)
  from s g g1 g2 show ?thesis
    by (cases res; cases res2) (simp_all add: client_oneway_sync_def)
qed

lemma ensure_locked_events:
  assumes g: "log_grows (ruby_lock m w0) (snd (f (ruby_lock m w0)))"
      and t: "take 2 (new_events (ruby_lock m w0) (snd (f (ruby_lock m w0)))) = [a, b]"
      and l: "log w0 = log w"
  shows "take 3 (new_events w (snd (rb_ensure f (ruby_unlock m') (ruby_lock m w0)))) =
         [Locked m, a, b]"
proof -
  let ?v = "ruby_lock m w0"
  obtain res v' where fv: "f ?v = (res, v')" by (cases "f ?v") auto
  define rest where "rest = new_events ?v v'"
  have lv: "log ?v = log w @ [Locked m]" using l by (simp add: ruby_lock_def)
  from g fv have "log v' = log ?v @ rest"
    unfolding log_grows_def rest_def new_events_def by (metis append_take_drop_id snd_conv)
  with lv have lv': "log v' = log w @ Locked m # rest" by simp
  from t fv have t2: "take 2 rest = [a, b]" by (simp add: rest_def)
  then have "2 \<le> length rest"
    by (metis length_take min.cobounded1 length_Cons list.size(3) One_nat_def Suc_1)
  with t2 have "take 2 (rest @ [Unlocked m']) = [a, b]" by simp
  then have "take 3 (Locked m # rest @ [Unlocked m']) = [Locked m, a, b]"
    by (simp add: numeral_3_eq_3 numeral_2_eq_2)
  with lv' fv show ?thesis
    by (simp add: rb_ensure_def ruby_unlock_def new_events_def)
qed

lemma set_message_fields:
  "p < length (proxies w) \<Longrightarrow>
     mutex (proxies (set_message p msg w) ! p) = mutex (proxies w ! p) \<and>
     proxy_object_id (proxies (set_message p msg w) ! p) = proxy_object_id (proxies w ! p) \<and>
     message (proxies (set_message p msg w) ! p) = msg"
  by (simp add: set_message_def)

lemma locked_fields:
  "proxies (ruby_lock m (set_message p msg w)) = proxies (set_message p msg w) \<and>
   buf (ruby_lock m (set_message p msg w)) = buf w \<and>
   wr_room (ruby_lock m (set_message p msg w)) = wr_room w \<and>
   log (set_message p msg w) = log w"
  by (simp add: ruby_lock_def set_message_def)

lemma method_missing_request_events:
  assumes "p < length (proxies w)" and "marshal_dump r msg = Inr data" and "wr_room w = None"
  shows "take 3 (new_events w (snd (ruby_proxy_object_method_missing r (Data_Proxy_Object p) msg w))) =
         request_events (mutex (proxies w ! p)) data
           (if block r \<noteq> None then ROMP_REQUEST_BLOCK else ROMP_REQUEST)
           (proxy_object_id (proxies w ! p)) (buf w)"
proof -
  let ?w1 = "set_message p msg w"
  let ?m = "mutex (proxies w ! p)"
  let ?w2 = "ruby_lock ?m ?w1"
  note sf = set_message_fields [OF assms(1), of msg]
  note lf = locked_fields [of ?m p msg w]
  have d: "marshal_dump r (message (proxies ?w2 ! p)) = Inr data"
    using sf lf assms(2) by simp
  have wr: "wr_room ?w2 = None" using lf assms(3) by simp
  have t: "take 2 (new_events ?w2 (snd (client_request r p ?w2))) =
         [Wrote (take ROMP_BUFFER_SIZE
            (put_header (of_nat (length data))
               (if block r \<noteq> None then ROMP_REQUEST_BLOCK else ROMP_REQUEST)
               (proxy_object_id (proxies w ! p)) @ drop 8 (buf w))),
          Wrote data]"
    using client_request_sends [OF d wr] sf lf by simp
  have g: "log_grows ?w2 (snd (client_request r p ?w2))" by (rule log_grows_client_request)
  have l: "log ?w1 = log w" using lf by simp
  have "ruby_proxy_object_method_missing r (Data_Proxy_Object p) msg w =
        rb_ensure (client_request r p) (ruby_unlock ?m) ?w2"
    using assms(1) sf by (simp add: ruby_proxy_object_method_missing_def Data_Get_Struct_def Let_def)
  with ensure_locked_events [where f = "client_request r p" and m' = ?m, OF g t l] show ?thesis
    by (simp only: request_events_def)
qed

lemma oneway_request_events:
  assumes "p < length (proxies w)" and "marshal_dump r msg = Inr data" and "wr_room w = None"
  shows "take 3 (new_events w (snd (ruby_proxy_object_oneway r (Data_Proxy_Object p) msg w))) =
         request_events (mutex (proxies w ! p)) data ROMP_ONEWAY
           (proxy_object_id (proxies w ! p)) (buf w)"
proof -
  let ?w1 = "set_message p msg w"
  let ?m = "mutex (proxies w ! p)"
  let ?w2 = "ruby_lock ?m ?w1"
  note sf = set_message_fields [OF assms(1), of msg]
  note lf = locked_fields [of ?m p msg w]
  have d: "marshal_dump r (message (proxies ?w2 ! p)) = Inr data"
    using sf lf assms(2) by simp
  have wr: "wr_room ?w2 = None" using lf assms(3) by simp
  have t: "take 2 (new_events ?w2 (snd (client_oneway r p ?w2))) =
         [Wrote (take ROMP_BUFFER_SIZE
            (put_header (of_nat (length data)) ROMP_ONEWAY
               (proxy_object_id (proxies w ! p)) @ drop 8 (buf w))),
          Wrote data]"
    using client_oneway_sends [OF d wr] sf lf by simp
  have g: "log_grows ?w2 (snd (client_oneway r p ?w2))" by (rule log_grows_client_oneway)
  have l: "log ?w1 = log w" using lf by simp
  have "snd (ruby_proxy_object_oneway r (Data_Proxy_Object p) msg w) =
        snd (rb_ensure (client_oneway r p) (ruby_unlock ?m) ?w2)"
    using assms(1) sf
    by (simp add: ruby_proxy_object_oneway_def Data_Get_Struct_def Let_def snd_case_result)
  with ensure_locked_events [where f = "client_oneway r p" and m' = ?m, OF g t l] show ?thesis
    by (simp only: request_events_def)
qed

lemma oneway_sync_request_events:
  assumes "p < length (proxies w)" and "marshal_dump r msg = Inr data" and "wr_room w = None"
  shows "take 3 (new_events w (snd (ruby_proxy_object_oneway_sync r (Data_Proxy_Object p) msg w))) =
         request_events (mutex (proxies w ! p)) data ROMP_ONEWAY_SYNC
           (proxy_object_id (proxies w ! p)) (buf w)"
proof -
  let ?w1 = "set_message p msg w"
  let ?m = "mutex (proxies w ! p)"
  let ?w2 = "ruby_lock ?m ?w1"
  note sf = set_message_fields [OF assms(1), of msg]
  note lf = locked_fields [of ?m p msg w]
  have d: "marshal_dump r (message (proxies ?w2 ! p)) = Inr data"
    using sf lf assms(2) by simp
  have wr: "wr_room ?w2 = None" using lf assms(3) by simp
  have t: "take 2 (new_events ?w2 (snd (client_oneway_sync r p ?w2))) =
         [Wrote (take ROMP_BUFFER_SIZE
            (put_header (of_nat (length data)) ROMP_ONEWAY_SYNC
               (proxy_object_id (proxies w ! p)) @ drop 8 (buf w))),
          Wrote data]"
    using client_oneway_sync_sends [OF d wr] sf lf by simp
  have g: "log_grows ?w2 (snd (client_oneway_sync r p ?w2))" by (rule log_grows_client_oneway_sync)
  have l: "log ?w1 = log w" using lf by simp
  have "snd (ruby_proxy_object_oneway_sync r (Data_Proxy_Object p) msg w) =
        snd (rb_ensure (client_oneway_sync r p) (ruby_unlock ?m) ?w2)"
    using assms(1) sf
    by (simp add: ruby_proxy_object_oneway_sync_def Data_Get_Struct_def Let_def snd_case_result)
  with ensure_locked_events [where f = "client_oneway_sync r p" and m' = ?m, OF g t l] show ?thesis
    by (simp only: request_events_def)
qed

lemma oneway_proxy0:
  "ruby_proxy_object_oneway ruby0 (Data_Proxy_Object 0) (Ary [Str ''incr''])
     (world0\<lparr>proxies := [proxy0]\<rparr>) =
   (Inr Qnil,
    world0\<lparr>buf := [0x42, 0x42, 0, 4, 0x10, 0x03, 0, 3, 0, 0, 0, 0, 0, 0, 0, 0],
           log := [Locked (Obj 9),
                   Wrote [0x42, 0x42, 0, 4, 0x10, 0x03, 0, 3, 0, 0, 0, 0, 0, 0, 0, 0],
                   Wrote [4, 8, 91, 6],
                   Unlocked (Obj 9)],
           proxies := [proxy0\<lparr>message := Ary [Str ''incr'']\<rparr>]\<rparr>)"
  by (simp add: ruby_proxy_object_oneway_def Data_Get_Struct_def Let_def set_message_def
        ruby_lock_def ruby_unlock_def rb_ensure_def client_oneway_def send_message_def
        marshal_dump_def ruby0_def dump0_def send_message_helper_ok proxy0_def world0_def
        put_header_def PUTSHORT_def ROMP_defs)

lemma ucast_int_id: "(ucast (word_of_int n :: 32 word) :: 16 word) = word_of_int n"
  by (rule bit_word_eqI) (auto simp: bit_simps)

lemma uint_id: "uint (word_of_int n :: 16 word) = n mod 65536"
  by (simp add: uint_word_of_int)

text \<open>
  C10, as the code has it. The outgoing message is stored in the proxy: each of
  \<^verbatim>\<open>method_missing\<close>, \<^verbatim>\<open>oneway\<close> and \<^verbatim>\<open>oneway_sync\<close> assigns it to the field
  \<^verbatim>\<open>message\<close> of the proxy it is called on before sending. Nothing else changes:
  after any of the four client operations, however it ends, every proxy that
  existed before still exists with the same session, object id and mutex, and with
  the same \<^verbatim>\<open>message\<close> unless it is the proxy of the call; \<^verbatim>\<open>sync\<close> changes no
  field of any proxy. The request is built from the struct: the frame that
  \<^verbatim>\<open>client_request\<close>, \<^verbatim>\<open>client_oneway\<close> and \<^verbatim>\<open>client_oneway_sync\<close> write first carries
  the object id of the struct and, as payload, the dump of its field \<^verbatim>\<open>message\<close>; so
  the first events of each of the three operations on a proxy are the locking of
  its mutex and then the frame with its object id and the dump of the message of
  the call (while the message can be dumped and the descriptor accepts the bytes).
\<close>

theorem proxy_fields_after_client_operations:
  "(q < length (proxies w) \<longrightarrow>
       proxy_after q w (snd (ruby_proxy_object_method_missing r self msg w))
         (if self = Data_Proxy_Object q then msg else message (proxies w ! q))
     \<and> proxy_after q w (snd (ruby_proxy_object_oneway r self msg w))
         (if self = Data_Proxy_Object q then msg else message (proxies w ! q))
     \<and> proxy_after q w (snd (ruby_proxy_object_oneway_sync r self msg w))
         (if self = Data_Proxy_Object q then msg else message (proxies w ! q))
     \<and> proxy_after q w (snd (ruby_proxy_object_sync r self w)) (message (proxies w ! q)))
   \<and> (k < length (proxies v) \<and> marshal_dump r (message (proxies v ! k)) = Inr stored \<and>
       wr_room v = None \<longrightarrow>
         take 2 (new_events v (snd (client_request r k v))) =
           tl (request_events (mutex (proxies v ! k)) stored
                 (if block r \<noteq> None then ROMP_REQUEST_BLOCK else ROMP_REQUEST)
                 (proxy_object_id (proxies v ! k)) (buf v))
       \<and> take 2 (new_events v (snd (client_oneway r k v))) =
           tl (request_events (mutex (proxies v ! k)) stored ROMP_ONEWAY
                 (proxy_object_id (proxies v ! k)) (buf v))
       \<and> take 2 (new_events v (snd (client_oneway_sync r k v))) =
           tl (request_events (mutex (proxies v ! k)) stored ROMP_ONEWAY_SYNC
                 (proxy_object_id (proxies v ! k)) (buf v)))
   \<and> (p < length (proxies w) \<and> marshal_dump r msg = Inr data \<and> wr_room w = None \<longrightarrow>
         take 3 (new_events w
                   (snd (ruby_proxy_object_method_missing r (Data_Proxy_Object p) msg w))) =
           request_events (mutex (proxies w ! p)) data
             (if block r \<noteq> None then ROMP_REQUEST_BLOCK else ROMP_REQUEST)
             (proxy_object_id (proxies w ! p)) (buf w)
       \<and> take 3 (new_events w (snd (ruby_proxy_object_oneway r (Data_Proxy_Object p) msg w))) =
           request_events (mutex (proxies w ! p)) data ROMP_ONEWAY
             (proxy_object_id (proxies w ! p)) (buf w)
       \<and> take 3 (new_events w
                   (snd (ruby_proxy_object_oneway_sync r (Data_Proxy_Object p) msg w))) =
           request_events (mutex (proxies w ! p)) data ROMP_ONEWAY_SYNC
             (proxy_object_id (proxies w ! p)) (buf w))"
proof -
  have a: "q < length (proxies w) \<longrightarrow>
       proxy_after q w (snd (ruby_proxy_object_method_missing r self msg w))
         (if self = Data_Proxy_Object q then msg else message (proxies w ! q))
     \<and> proxy_after q w (snd (ruby_proxy_object_oneway r self msg w))
         (if self = Data_Proxy_Object q then msg else message (proxies w ! q))
     \<and> proxy_after q w (snd (ruby_proxy_object_oneway_sync r self msg w))
         (if self = Data_Proxy_Object q then msg else message (proxies w ! q))
     \<and> proxy_after q w (snd (ruby_proxy_object_sync r self w)) (message (proxies w ! q))"
    using proxy_after_method_missing [of q w r self msg] proxy_after_oneway [of q w r self msg]
          proxy_after_oneway_sync [of q w r self msg] proxy_after_sync [of q w r self]
    by blast
  have b: "k < length (proxies v) \<and> marshal_dump r (message (proxies v ! k)) = Inr stored \<and>
       wr_room v = None \<longrightarrow>
         take 2 (new_events v (snd (client_request r k v))) =
           tl (request_events (mutex (proxies v ! k)) stored
                 (if block r \<noteq> None then ROMP_REQUEST_BLOCK else ROMP_REQUEST)
                 (proxy_object_id (proxies v ! k)) (buf v))
       \<and> take 2 (new_events v (snd (client_oneway r k v))) =
           tl (request_events (mutex (proxies v ! k)) stored ROMP_ONEWAY
                 (proxy_object_id (proxies v ! k)) (buf v))
       \<and> take 2 (new_events v (snd (client_oneway_sync r k v))) =
           tl (request_events (mutex (proxies v ! k)) stored ROMP_ONEWAY_SYNC
                 (proxy_object_id (proxies v ! k)) (buf v))"
    using client_request_sends [of r v k stored] client_oneway_sends [of r v k stored]
          client_oneway_sync_sends [of r v k stored]
    by (simp add: request_events_def)
  have c: "p < length (proxies w) \<and> marshal_dump r msg = Inr data \<and> wr_room w = None \<longrightarrow>
         take 3 (new_events w
                   (snd (ruby_proxy_object_method_missing r (Data_Proxy_Object p) msg w))) =
           request_events (mutex (proxies w ! p)) data
             (if block r \<noteq> None then ROMP_REQUEST_BLOCK else ROMP_REQUEST)
             (proxy_object_id (proxies w ! p)) (buf w)
       \<and> take 3 (new_events w (snd (ruby_proxy_object_oneway r (Data_Proxy_Object p) msg w))) =
           request_events (mutex (proxies w ! p)) data ROMP_ONEWAY
             (proxy_object_id (proxies w ! p)) (buf w)
       \<and> take 3 (new_events w
                   (snd (ruby_proxy_object_oneway_sync r (Data_Proxy_Object p) msg w))) =
           request_events (mutex (proxies w ! p)) data ROMP_ONEWAY_SYNC
             (proxy_object_id (proxies w ! p)) (buf w)"
    using method_missing_request_events [of p w r msg data]
          oneway_request_events [of p w r msg data]
          oneway_sync_request_events [of p w r msg data]
    by blast
  from a b c show ?thesis by (simp only: simp_thms)
qed

theorem proxy_fields_after_client_operations_witness:
  "proxy_after 0 (world0\<lparr>proxies := [proxy0]\<rparr>)
     (snd (ruby_proxy_object_method_missing ruby0 (Data_Proxy_Object 0) (Ary [Str ''incr''])
            (world0\<lparr>proxies := [proxy0]\<rparr>)))
     (Ary [Str ''incr''])
   \<and> proxy_after 0 (world0\<lparr>proxies := [proxy0]\<rparr>)
     (snd (ruby_proxy_object_sync ruby0 (Data_Proxy_Object 0) (world0\<lparr>proxies := [proxy0]\<rparr>)))
     Qfalse
   \<and> take 2 (new_events (world0\<lparr>proxies := [proxy0\<lparr>message := Num 1\<rparr>]\<rparr>)
        (snd (client_request ruby0 0 (world0\<lparr>proxies := [proxy0\<lparr>message := Num 1\<rparr>]\<rparr>)))) =
       [Wrote [0x42, 0x42, 0, 4, 0x10, 0x01, 0, 3, 0, 0, 0, 0, 0, 0, 0, 0],
        Wrote [4, 8, 105, 6]]
   \<and> take 3 (new_events (world0\<lparr>proxies := [proxy0]\<rparr>)
        (snd (ruby_proxy_object_method_missing ruby0 (Data_Proxy_Object 0) (Ary [Str ''incr''])
               (world0\<lparr>proxies := [proxy0]\<rparr>)))) =
       [Locked (Obj 9),
        Wrote [0x42, 0x42, 0, 4, 0x10, 0x01, 0, 3, 0, 0, 0, 0, 0, 0, 0, 0],
        Wrote [4, 8, 91, 6]]
   \<and> take 3 (new_events (world0\<lparr>proxies := [proxy0]\<rparr>)
        (snd (ruby_proxy_object_oneway_sync ruby0 (Data_Proxy_Object 0) (Ary [Str ''incr''])
               (world0\<lparr>proxies := [proxy0]\<rparr>)))) =
       [Locked (Obj 9),
        Wrote [0x42, 0x42, 0, 4, 0x10, 0x04, 0, 3, 0, 0, 0, 0, 0, 0, 0, 0],
        Wrote [4, 8, 91, 6]]"
proof -
  have d: "marshal_dump ruby0 (Ary [Str ''incr'']) = Inr [4, 8, 91, 6]"
          "marshal_dump ruby0 (Num 1) = Inr [4, 8, 105, 6]"
          "block ruby0 = None"
    by (simp_all add: marshal_dump_def ruby0_def dump0_def)
  have h: "put_header 4 ROMP_REQUEST 3 =
             [0x42, 0x42, 0, 4, 0x10, 0x01, 0, 3]"
          "put_header 4 ROMP_ONEWAY_SYNC 3 =
             [0x42, 0x42, 0, 4, 0x10, 0x04, 0, 3]"
    by (simp_all add: put_header_def PUTSHORT_def ROMP_defs)
  have w: "wr_room world0 = None" "buf world0 = [0, 0, 0, 0, 0, 0, 0, 0, 0, 0, 0, 0, 0, 0, 0, 0]"
    by (simp_all add: world0_def)
  show ?thesis
    using proxy_fields_after_client_operations
            [where q = 0 and w = "world0\<lparr>proxies := [proxy0]\<rparr>" and r = ruby0
               and self = "Data_Proxy_Object 0" and msg = "Ary [Str ''incr'']"
               and k = 0 and v = "world0\<lparr>proxies := [proxy0\<lparr>message := Num 1\<rparr>]\<rparr>"
               and stored = "[4, 8, 105, 6]" and p = 0 and data = "[4, 8, 91, 6]"]
    by (simp add: d h w request_events_def proxy0_def ROMP_BUFFER_SIZE_def)
qed

text \<open>
  The claim that no stored field changes fails on a one-way call: afterwards the
  proxy holds the message of the call.
\<close>

theorem proxy_message_is_stored_counterexample:
  "proxies (snd (ruby_proxy_object_oneway ruby0 (Data_Proxy_Object 0) (Ary [Str ''incr''])
                  (world0\<lparr>proxies := [proxy0]\<rparr>))) =
     [proxy0\<lparr>message := Ary [Str ''incr'']\<rparr>]
   \<and> proxies (snd (ruby_proxy_object_oneway ruby0 (Data_Proxy_Object 0) (Ary [Str ''incr''])
                  (world0\<lparr>proxies := [proxy0]\<rparr>))) \<noteq> proxies (world0\<lparr>proxies := [proxy0]\<rparr>)"
  by (simp add: oneway_proxy0) (simp add: proxy0_def)

text \<open>
  C8, as the code has it. No operation compares an object id with 65535. The id of
  a message is an \<^verbatim>\<open>OBJECT_ID_T\<close>, 16 bits wide, so \<^verbatim>\<open>send_message\<close> cannot be given
  a larger one, and the fourth field of the header window it writes is that id.
  \<^verbatim>\<open>ruby_proxy_object_new\<close> converts the id with \<^verbatim>\<open>NUM2INT\<close> and keeps its low 16
  bits: for every integer in the range of \<^verbatim>\<open>int\<close> the proxy is made, with the id
  modulo \<open>2^16\<close>, and nothing is raised; an integer outside the range of \<^verbatim>\<open>int\<close>
  raises \<^verbatim>\<open>RangeError\<close>. The requests sent through the proxy so made carry the
  wrapped id: the first events of \<^verbatim>\<open>method_missing\<close>, \<^verbatim>\<open>oneway\<close> and \<^verbatim>\<open>oneway_sync\<close> on
  it are the locking of its mutex and the frame whose object id is the id modulo
  \<open>2^16\<close> (while the message can be dumped and the descriptor accepts the bytes).
\<close>

theorem proxy_object_id_keeps_low_16_bits:
  "ruby_proxy_object_new r Data_Session mtx (Num n) w =
     (if - 2147483648 \<le> n \<and> n < 2147483648
      then (Inr (Data_Proxy_Object (length (proxies w))),
            w\<lparr>proxies := proxies w @
                 [\<lparr>ruby_session = Data_Session, proxy_object_id = word_of_int n,
                   message = Qfalse, mutex = mtx\<rparr>]\<rparr>)
      else (Inl (rb_raise r ''RangeError'' ''integer too big to convert to int''), w))
   \<and> uint (word_of_int n :: OBJECT_ID_T) = n mod 65536
   \<and> get_header (take ROMP_BUFFER_SIZE (put_header len mt oid @ b)) = (0x4242, ucast len, mt, oid)
   \<and> (- 2147483648 \<le> n \<and> n < 2147483648 \<and> marshal_dump r msg = Inr data \<and> wr_room w = None \<longrightarrow>
         take 3 (new_events (snd (ruby_proxy_object_new r Data_Session mtx (Num n) w))
                   (snd (ruby_proxy_object_method_missing r
                           (Data_Proxy_Object (length (proxies w))) msg
                           (snd (ruby_proxy_object_new r Data_Session mtx (Num n) w))))) =
           request_events mtx data
             (if block r \<noteq> None then ROMP_REQUEST_BLOCK else ROMP_REQUEST) (word_of_int n) (buf w)
       \<and> take 3 (new_events (snd (ruby_proxy_object_new r Data_Session mtx (Num n) w))
                   (snd (ruby_proxy_object_oneway r
                           (Data_Proxy_Object (length (proxies w))) msg
                           (snd (ruby_proxy_object_new r Data_Session mtx (Num n) w))))) =
           request_events mtx data ROMP_ONEWAY (word_of_int n) (buf w)
       \<and> take 3 (new_events (snd (ruby_proxy_object_new r Data_Session mtx (Num n) w))
                   (snd (ruby_proxy_object_oneway_sync r
                           (Data_Proxy_Object (length (proxies w))) msg
                           (snd (ruby_proxy_object_new r Data_Session mtx (Num n) w))))) =
           request_events mtx data ROMP_ONEWAY_SYNC (word_of_int n) (buf w))"
proof -
  let ?new = "ruby_proxy_object_new r Data_Session mtx (Num n) w"
  let ?w' = "w\<lparr>proxies := proxies w @
                 [\<lparr>ruby_session = Data_Session, proxy_object_id = word_of_int n,
                   message = Qfalse, mutex = mtx\<rparr>]\<rparr>"
  have a: "?new =
     (if - 2147483648 \<le> n \<and> n < 2147483648
      then (Inr (Data_Proxy_Object (length (proxies w))), ?w')
      else (Inl (rb_raise r ''RangeError'' ''integer too big to convert to int''), w))"
    by (simp add: ruby_proxy_object_new_def NUM2INT_def ucast_int_id)
  have b: "uint (word_of_int n :: OBJECT_ID_T) = n mod 65536"
    by (rule uint_id)
  have c: "get_header (take ROMP_BUFFER_SIZE (put_header len mt oid @ b)) =
           (0x4242, ucast len, mt, oid)"
    by (simp add: ROMP_BUFFER_SIZE_def length_put_header get_header_append get_header_put_header)
  have d: "- 2147483648 \<le> n \<and> n < 2147483648 \<and> marshal_dump r msg = Inr data \<and> wr_room w = None \<longrightarrow>
         take 3 (new_events (snd ?new)
                   (snd (ruby_proxy_object_method_missing r
                           (Data_Proxy_Object (length (proxies w))) msg (snd ?new)))) =
           request_events mtx data
             (if block r \<noteq> None then ROMP_REQUEST_BLOCK else ROMP_REQUEST) (word_of_int n) (buf w)
       \<and> take 3 (new_events (snd ?new)
                   (snd (ruby_proxy_object_oneway r
                           (Data_Proxy_Object (length (proxies w))) msg (snd ?new)))) =
           request_events mtx data ROMP_ONEWAY (word_of_int n) (buf w)
       \<and> take 3 (new_events (snd ?new)
                   (snd (ruby_proxy_object_oneway_sync r
                           (Data_Proxy_Object (length (proxies w))) msg (snd ?new)))) =
           request_events mtx data ROMP_ONEWAY_SYNC (word_of_int n) (buf w)"
  proof
    assume h: "- 2147483648 \<le> n \<and> n < 2147483648 \<and> marshal_dump r msg = Inr data \<and> wr_room w = None"
    with a have new: "snd ?new = ?w'" by simp
    have p: "length (proxies w) < length (proxies ?w')" by simp
    have wr: "wr_room ?w' = None" using h by simp
    have md: "marshal_dump r msg = Inr data" using h by simp
    have f: "mutex (proxies ?w' ! length (proxies w)) = mtx"
            "proxy_object_id (proxies ?w' ! length (proxies w)) = word_of_int n"
            "buf ?w' = buf w"
      by simp_all
    show "take 3 (new_events (snd ?new)
                   (snd (ruby_proxy_object_method_missing r
                           (Data_Proxy_Object (length (proxies w))) msg (snd ?new)))) =
           request_events mtx data
             (if block r \<noteq> None then ROMP_REQUEST_BLOCK else ROMP_REQUEST) (word_of_int n) (buf w)
       \<and> take 3 (new_events (snd ?new)
                   (snd (ruby_proxy_object_oneway r
                           (Data_Proxy_Object (length (proxies w))) msg (snd ?new)))) =
           request_events mtx data ROMP_ONEWAY (word_of_int n) (buf w)
       \<and> take 3 (new_events (snd ?new)
                   (snd (ruby_proxy_object_oneway_sync r
                           (Data_Proxy_Object (length (proxies w))) msg (snd ?new)))) =
           request_events mtx data ROMP_ONEWAY_SYNC (word_of_int n) (buf w)"
      using method_missing_request_events [OF p md wr] oneway_request_events [OF p md wr]
            oneway_sync_request_events [OF p md wr]
      by (simp only: new f simp_thms)
  qed
  from a b c d show ?thesis by (simp only: simp_thms)
qed

theorem proxy_object_id_keeps_low_16_bits_witness:
  "ruby_proxy_object_new ruby0 Data_Session (Obj 9) (Num 65539) world0 =
     (Inr (Data_Proxy_Object 0), world0\<lparr>proxies := [proxy0]\<rparr>)
   \<and> take 3 (new_events (world0\<lparr>proxies := [proxy0]\<rparr>)
        (snd (ruby_proxy_object_oneway ruby0 (Data_Proxy_Object 0) (Ary [Str ''incr''])
               (world0\<lparr>proxies := [proxy0]\<rparr>)))) =
       [Locked (Obj 9),
        Wrote [0x42, 0x42, 0, 4, 0x10, 0x03, 0, 3, 0, 0, 0, 0, 0, 0, 0, 0],
        Wrote [4, 8, 91, 6]]
   \<and> take 3 (new_events (world0\<lparr>proxies := [proxy0]\<rparr>)
        (snd (ruby_proxy_object_method_missing ruby0 (Data_Proxy_Object 0) (Ary [Str ''incr''])
               (world0\<lparr>proxies := [proxy0]\<rparr>)))) =
       [Locked (Obj 9),
        Wrote [0x42, 0x42, 0, 4, 0x10, 0x01, 0, 3, 0, 0, 0, 0, 0, 0, 0, 0],
        Wrote [4, 8, 91, 6]]"
proof -
  have d: "marshal_dump ruby0 (Ary [Str ''incr'']) = Inr [4, 8, 91, 6]" "block ruby0 = None"
    by (simp_all add: marshal_dump_def ruby0_def dump0_def)
  have h: "put_header 4 ROMP_REQUEST 3 =
             [0x42, 0x42, 0, 4, 0x10, 0x01, 0, 3]"
          "put_header 4 ROMP_ONEWAY 3 =
             [0x42, 0x42, 0, 4, 0x10, 0x03, 0, 3]"
    by (simp_all add: put_header_def PUTSHORT_def ROMP_defs)
  have w: "wr_room world0 = None" "buf world0 = [0, 0, 0, 0, 0, 0, 0, 0, 0, 0, 0, 0, 0, 0, 0, 0]"
          "proxies world0 = []"
    by (simp_all add: world0_def)
  have i: "(65539 :: OBJECT_ID_T) = 3"
    by (simp add: word_uint_eq_iff)
  have n: "ruby_proxy_object_new ruby0 Data_Session (Obj 9) (Num 65539) world0 =
     (Inr (Data_Proxy_Object 0), world0\<lparr>proxies := [proxy0]\<rparr>)"
    by (simp add: ruby_proxy_object_new_def NUM2INT_def proxy0_def w i)
  show ?thesis
    using proxy_object_id_keeps_low_16_bits
            [where r = ruby0 and mtx = "Obj 9" and n = 65539 and w = world0
               and msg = "Ary [Str ''incr'']" and data = "[4, 8, 91, 6]"
               and len = 0 and mt = 0 and oid = 0 and b = "[]"]
    by (simp add: n i d h w request_events_def ROMP_BUFFER_SIZE_def length_put_header proxy0_def)
qed

text \<open>
  The claim fails on the id 65536: the proxy is made with object id 0, and a
  one-way call through it emits a frame whose object id is 0.
\<close>

theorem object_id_65536_counterexample:
  "ruby_proxy_object_new ruby0 Data_Session (Obj 9) (Num 65536) world0 =
     (Inr (Data_Proxy_Object 0),
      world0\<lparr>proxies := [\<lparr>ruby_session = Data_Session, proxy_object_id = 0,
                             message = Qfalse, mutex = Obj 9\<rparr>]\<rparr>)
   \<and> wire (snd (ruby_proxy_object_oneway ruby0 (Data_Proxy_Object 0) Qnil
        (world0\<lparr>proxies := [\<lparr>ruby_session = Data_Session, proxy_object_id = 0,
                               message = Qfalse, mutex = Obj 9\<rparr>]\<rparr>))) =
     [0x42, 0x42, 0, 3, 0x10, 0x03, 0, 0, 0, 0, 0, 0, 0, 0, 0, 0, 4, 8, 48]"
proof -
  have 1: "ruby_proxy_object_new ruby0 Data_Session (Obj 9) (Num 65536) world0 =
     (Inr (Data_Proxy_Object 0),
      world0\<lparr>proxies := [\<lparr>ruby_session = Data_Session, proxy_object_id = 0,
                             message = Qfalse, mutex = Obj 9\<rparr>]\<rparr>)"
    by (simp add: ruby_proxy_object_new_def NUM2INT_def world0_def)
  have 2: "wire (snd (ruby_proxy_object_oneway ruby0 (Data_Proxy_Object 0) Qnil
        (world0\<lparr>proxies := [\<lparr>ruby_session = Data_Session, proxy_object_id = 0,
                               message = Qfalse, mutex = Obj 9\<rparr>]\<rparr>))) =
     [0x42, 0x42, 0, 3, 0x10, 0x03, 0, 0, 0, 0, 0, 0, 0, 0, 0, 0, 4, 8, 48]"
    by (simp add: ruby_proxy_object_oneway_def Data_Get_Struct_def Let_def set_message_def
        ruby_lock_def ruby_unlock_def rb_ensure_def client_oneway_def send_message_def
        marshal_dump_def ruby0_def dump0_def send_message_helper_ok world0_def
        put_header_def PUTSHORT_def ROMP_defs wire_def)
  from 1 2 show ?thesis by (simp only: simp_thms)
qed

section \<open>The server: one-way requests\<close>

lemma send_null_message_ok:
  "wr_room w = None \<Longrightarrow>
   send_null_message r w =
     (Inr (), w\<lparr>buf := put_header 0 ROMP_NULL_MSG 0 @ drop 8 (buf w),
                log := log w @ [Wrote (take ROMP_BUFFER_SIZE
                                   (put_header 0 ROMP_NULL_MSG 0 @ drop 8 (buf w))),
                                Wrote []]\<rparr>)"
  by (simp add: send_null_message_def send_message_helper_ok)

lemma get_message_call:
  assumes "get_header win = (0x4242, 4, mt, oid)" and "length win = 16" and "mt \<noteq> ROMP_NULL_MSG"
  shows "get_message ruby0 (world0\<lparr>rd := win @ [4, 8, 91, 6]\<rparr>) =
     (Inr \<lparr>message_type = mt, object_id = oid, message_obj = Ary [Str ''incr'']\<rparr>,
      world0\<lparr>rd := [], buf := win\<rparr>)"
  using get_message_frame [of "world0\<lparr>rd := win @ [4, 8, 91, 6]\<rparr>" win "[4, 8, 91, 6]" "[]" 4 mt oid ruby0]
        assms
  by (simp add: ROMP_BUFFER_SIZE_def world0_def marshal_load_def ruby0_def load0_def)

text \<open>
  A \<^verbatim>\<open>ROMP_ONEWAY_SYNC\<close> request whose target the resolver returns, received while
  the descriptor accepts the bytes: the server writes exactly one null message (the
  header window, then an empty payload), then invokes the target, and writes nothing
  after the invocation, whether the invocation returns or raises; the loop goes on.
\<close>

lemma oneway_sync_ack_before_invoke:
  assumes "get_message r w = (Inr m, w1)" and "message_type m = ROMP_ONEWAY_SYNC"
      and "ruby_get_object r (srv_obj si) (object_id m) = Inr target"
      and "wr_room w1 = None"
  shows "server_loop_body r resolve_server si w =
     (Inr (), si\<lparr>srv_message := m, srv_obj := resolve_server\<rparr>,
      w1\<lparr>buf := put_header 0 ROMP_NULL_MSG 0 @ drop 8 (buf w1),
         log := log w1 @
                [Wrote (take ROMP_BUFFER_SIZE (put_header 0 ROMP_NULL_MSG 0 @ drop 8 (buf w1))),
                 Wrote [],
                 Invoked target (message_obj m)]\<rparr>)"
  using assms
  by (cases "apply_send r target (message_obj m)")
     (simp_all add: server_loop_body_def rb_rescue2_def server_reply_def Let_def
        send_null_message_ok rb_protect_def server_funcall_def ruby_send_def)

text \<open>
  The same request when the resolver raises: \<^verbatim>\<open>server_reply\<close> calls the resolver
  before the \<^verbatim>\<open>switch\<close> and outside \<^verbatim>\<open>rb_protect\<close>, so the exception ends the reply
  there and the turn is what the rescue handler \<^verbatim>\<open>server_exception\<close> does.
\<close>

lemma oneway_sync_resolver_raises:
  assumes "get_message r w = (Inr m, w1)" and "message_type m = ROMP_ONEWAY_SYNC"
      and "ruby_get_object r (srv_obj si) (object_id m) = Inl e"
  shows "server_loop_body r resolve_server si w =
     (case server_exception r (si\<lparr>srv_message := m\<rparr>) e w1 of
        (Inl e2, si2, w2) \<Rightarrow> (Inl e2, si2, w2)
      | (Inr v, si2, w2) \<Rightarrow> (Inr (), si2\<lparr>srv_obj := resolve_server\<rparr>, w2))"
  using assms
  by (simp add: server_loop_body_def rb_rescue2_def server_reply_def)

text \<open>
  C5 holds of the code for the requests whose target the resolver returns, and fails
  for the others. The resolver of the example returns object 3 and raises for object
  7. On a \<^verbatim>\<open>ROMP_ONEWAY_SYNC\<close> request for object 3 the events of the turn are the
  null message and then the invocation, nothing else. On the same request for object
  7 the server writes no null message and invokes nothing: it prints the resolver's
  exception and writes it in a \<^verbatim>\<open>ROMP_EXCEPTION\<close> frame (type \<open>0x2002\<close>), and the loop
  goes on.
\<close>

theorem oneway_sync_no_ack_when_resolver_raises:
  "server_loop_body ruby0 (Obj 0) server_info0
     (world0\<lparr>rd := [0x42, 0x42, 0, 4, 0x10, 0x04, 0, 3, 0, 0, 0, 0, 0, 0, 0, 0, 4, 8, 91, 6]\<rparr>) =
   (Inr (),
    server_info0\<lparr>srv_message :=
       \<lparr>message_type = ROMP_ONEWAY_SYNC, object_id = 3, message_obj = Ary [Str ''incr'']\<rparr>\<rparr>,
    world0\<lparr>rd := [],
           buf := [0x42, 0x42, 0, 0, 0x40, 0x02, 0, 0, 0, 0, 0, 0, 0, 0, 0, 0],
           log := [Wrote [0x42, 0x42, 0, 0, 0x40, 0x02, 0, 0, 0, 0, 0, 0, 0, 0, 0, 0],
                   Wrote [],
                   Invoked (Obj 3) (Ary [Str ''incr''])]\<rparr>)
   \<and> ruby_get_object ruby0 (srv_obj server_info0) 7 =
       Inl (Exc ''RuntimeError'' (Str ''boom'')
              (Ary [Str ''server.rb:7'', Str ''romp.rb:1'', Str ''main.rb:1'']))
   \<and> server_loop_body ruby0 (Obj 0) server_info0
     (world0\<lparr>rd := [0x42, 0x42, 0, 4, 0x10, 0x04, 0, 7, 0, 0, 0, 0, 0, 0, 0, 0, 4, 8, 91, 6]\<rparr>) =
   (Inr (),
    server_info0\<lparr>srv_message :=
       \<lparr>message_type = ROMP_EXCEPTION, object_id = 0,
        message_obj = Exc ''RuntimeError'' (Str ''boom'') (Ary [Str ''server.rb:7''])\<rparr>\<rparr>,
    world0\<lparr>rd := [],
           buf := [0x42, 0x42, 0, 3, 0x20, 0x02, 0, 0, 0, 0, 0, 0, 0, 0, 0, 0],
           log := [Printed (Exc ''RuntimeError'' (Str ''boom'') (Ary [Str ''server.rb:7''])),
                   Wrote [0x42, 0x42, 0, 3, 0x20, 0x02, 0, 0, 0, 0, 0, 0, 0, 0, 0, 0],
                   Wrote [4, 8, 111]]\<rparr>)"
proof -
  let ?w3 = "[0x42, 0x42, 0, 4, 0x10, 0x04, 0, 3, 0, 0, 0, 0, 0, 0, 0, 0] :: byte list"
  let ?w7 = "[0x42, 0x42, 0, 4, 0x10, 0x04, 0, 7, 0, 0, 0, 0, 0, 0, 0, 0] :: byte list"
  let ?m3 = "\<lparr>message_type = ROMP_ONEWAY_SYNC, object_id = 3, message_obj = Ary [Str ''incr'']\<rparr>"
  let ?m7 = "\<lparr>message_type = ROMP_ONEWAY_SYNC, object_id = 7, message_obj = Ary [Str ''incr'']\<rparr>"
  let ?e = "Exc ''RuntimeError'' (Str ''boom'')
              (Ary [Str ''server.rb:7'', Str ''romp.rb:1'', Str ''main.rb:1''])"
  have gh3: "get_header ?w3 = (0x4242, 4, ROMP_ONEWAY_SYNC, 3)"
    by (simp add: get_header_def GETSHORT_def ROMP_defs)
  have gm3: "get_message ruby0 (world0\<lparr>rd := ?w3 @ [4, 8, 91, 6]\<rparr>) =
     (Inr ?m3, world0\<lparr>rd := [], buf := ?w3\<rparr>)"
    by (rule get_message_call [OF gh3]) (simp_all add: ROMP_defs)
  have go3: "ruby_get_object ruby0 (srv_obj server_info0) (object_id ?m3) = Inr (Obj 3)"
    by (simp add: ruby_get_object_def ruby0_def get_object0_def)
  have wr: "wr_room (world0\<lparr>rd := [], buf := ?w3\<rparr>) = None"
    by (simp add: world0_def)
  have a: "server_loop_body ruby0 (Obj 0) server_info0 (world0\<lparr>rd := ?w3 @ [4, 8, 91, 6]\<rparr>) =
   (Inr (), server_info0\<lparr>srv_message := ?m3\<rparr>,
    world0\<lparr>rd := [],
           buf := [0x42, 0x42, 0, 0, 0x40, 0x02, 0, 0, 0, 0, 0, 0, 0, 0, 0, 0],
           log := [Wrote [0x42, 0x42, 0, 0, 0x40, 0x02, 0, 0, 0, 0, 0, 0, 0, 0, 0, 0],
                   Wrote [],
                   Invoked (Obj 3) (Ary [Str ''incr''])]\<rparr>)"
    using oneway_sync_ack_before_invoke [OF gm3 _ go3 wr, of "Obj 0"]
    by (simp add: put_header_def PUTSHORT_def ROMP_defs server_info0_def world0_def)
  have gh7: "get_header ?w7 = (0x4242, 4, ROMP_ONEWAY_SYNC, 7)"
    by (simp add: get_header_def GETSHORT_def ROMP_defs)
  have gm7: "get_message ruby0 (world0\<lparr>rd := ?w7 @ [4, 8, 91, 6]\<rparr>) =
     (Inr ?m7, world0\<lparr>rd := [], buf := ?w7\<rparr>)"
    by (rule get_message_call [OF gh7]) (simp_all add: ROMP_defs)
  have b: "ruby_get_object ruby0 (srv_obj server_info0) 7 = Inl ?e"
    by (simp add: ruby_get_object_def ruby0_def get_object0_def boom_def)
  then have go7: "ruby_get_object ruby0 (srv_obj server_info0) (object_id ?m7) = Inl ?e"
    by simp
  have c: "server_loop_body ruby0 (Obj 0) server_info0 (world0\<lparr>rd := ?w7 @ [4, 8, 91, 6]\<rparr>) =
   (Inr (),
    server_info0\<lparr>srv_message :=
       \<lparr>message_type = ROMP_EXCEPTION, object_id = 0,
        message_obj = Exc ''RuntimeError'' (Str ''boom'') (Ary [Str ''server.rb:7''])\<rparr>\<rparr>,
    world0\<lparr>rd := [],
           buf := [0x42, 0x42, 0, 3, 0x20, 0x02, 0, 0, 0, 0, 0, 0, 0, 0, 0, 0],
           log := [Printed (Exc ''RuntimeError'' (Str ''boom'') (Ary [Str ''server.rb:7''])),
                   Wrote [0x42, 0x42, 0, 3, 0x20, 0x02, 0, 0, 0, 0, 0, 0, 0, 0, 0, 0],
                   Wrote [4, 8, 111]]\<rparr>)"
    using oneway_sync_resolver_raises [OF gm7 _ go7, of "Obj 0"]
    by (simp add: server_exception_def ruby_exc_backtrace_def ruby_slice_bang_def
          ruby_print_exception_def send_message_def marshal_dump_def
          send_message_helper_ok put_header_def PUTSHORT_def ROMP_defs
          ruby0_def boom_def slice0_def dump0_def server_info0_def world0_def)
  from a b c show ?thesis by simp
qed

text \<open>
  C9, as the code has it. For every \<^verbatim>\<open>ROMP_ONEWAY\<close> request the server receives,
  once the resolver has returned the target, the server invokes the target and
  writes nothing; when the invocation raises, \<^verbatim>\<open>rb_protect\<close> discards the
  exception: it is not printed, whatever the debug flag, it does not leave the loop
  and it is not sent.
\<close>

theorem oneway_no_reply_no_log:
  assumes "get_message r w = (Inr m, w1)" and "message_type m = ROMP_ONEWAY"
      and "ruby_get_object r (srv_obj si) (object_id m) = Inr target"
  shows "server_loop_body r resolve_server si w =
     (Inr (), si\<lparr>srv_message := m, srv_obj := resolve_server\<rparr>,
      w1\<lparr>log := log w1 @ [Invoked target (message_obj m)]\<rparr>)"
  using assms
  by (cases "apply_send r target (message_obj m)")
     (simp_all add: server_loop_body_def rb_rescue2_def server_reply_def Let_def ROMP_defs
        rb_protect_def server_funcall_def ruby_send_def)

theorem oneway_no_reply_no_log_witness:
  "server_loop_body ruby0 (Obj 0) server_info0
     (world0\<lparr>rd := [0x42, 0x42, 0, 4, 0x10, 0x03, 0, 5, 0, 0, 0, 0, 0, 0, 0, 0, 4, 8, 91, 6]\<rparr>) =
   (Inr (),
    server_info0\<lparr>srv_message :=
       \<lparr>message_type = ROMP_ONEWAY, object_id = 5, message_obj = Ary [Str ''incr'']\<rparr>\<rparr>,
    world0\<lparr>rd := [],
           buf := [0x42, 0x42, 0, 4, 0x10, 0x03, 0, 5, 0, 0, 0, 0, 0, 0, 0, 0],
           log := [Invoked (Obj 5) (Ary [Str ''incr''])]\<rparr>)"
proof -
  let ?win = "[0x42, 0x42, 0, 4, 0x10, 0x03, 0, 5, 0, 0, 0, 0, 0, 0, 0, 0] :: byte list"
  have gh: "get_header ?win = (0x4242, 4, ROMP_ONEWAY, 5)"
    by (simp add: get_header_def GETSHORT_def ROMP_defs)
  have gm: "get_message ruby0 (world0\<lparr>rd := ?win @ [4, 8, 91, 6]\<rparr>) =
     (Inr \<lparr>message_type = ROMP_ONEWAY, object_id = 5, message_obj = Ary [Str ''incr'']\<rparr>,
      world0\<lparr>rd := [], buf := ?win\<rparr>)"
    by (rule get_message_call [OF gh]) (simp_all add: ROMP_defs)
  have go: "ruby_get_object ruby0 (srv_obj server_info0)
              (object_id \<lparr>message_type = ROMP_ONEWAY, object_id = 5,
                          message_obj = Ary [Str ''incr'']\<rparr>) = Inr (Obj 5)"
    by (simp add: ruby_get_object_def ruby0_def get_object0_def)
  show ?thesis
    using oneway_no_reply_no_log [OF gm _ go, of "Obj 0"]
    by (simp add: server_info0_def world0_def)
qed

text \<open>
  The claim that the exception is logged fails with debugging enabled and a target
  that raises: the only event is the invocation, nothing is printed.
\<close>

theorem oneway_exception_not_logged_counterexample:
  "debug server_info0
   \<and> apply_send ruby0 (Obj 5) (Ary [Str ''incr'']) =
       Inl (Exc ''RuntimeError'' (Str ''boom'')
              (Ary [Str ''server.rb:7'', Str ''romp.rb:1'', Str ''main.rb:1'']))
   \<and> log (snd (snd (server_loop_body ruby0 (Obj 0) server_info0
        (world0\<lparr>rd := [0x42, 0x42, 0, 4, 0x10, 0x03, 0, 5, 0, 0, 0, 0, 0, 0, 0, 0,
                          4, 8, 91, 6]\<rparr>)))) =
       [Invoked (Obj 5) (Ary [Str ''incr''])]"
proof -
  let ?w5 = "[0x42, 0x42, 0, 4, 0x10, 0x03, 0, 5, 0, 0, 0, 0, 0, 0, 0, 0] :: byte list"
  have gh5: "get_header ?w5 = (0x4242, 4, ROMP_ONEWAY, 5)"
    by (simp add: get_header_def GETSHORT_def ROMP_defs)
  have gm5: "get_message ruby0 (world0\<lparr>rd := ?w5 @ [4, 8, 91, 6]\<rparr>) =
     (Inr \<lparr>message_type = ROMP_ONEWAY, object_id = 5, message_obj = Ary [Str ''incr'']\<rparr>,
      world0\<lparr>rd := [], buf := ?w5\<rparr>)"
    by (rule get_message_call [OF gh5]) (simp_all add: ROMP_defs)
  have a: "debug server_info0" by (simp add: server_info0_def)
  have b: "apply_send ruby0 (Obj 5) (Ary [Str ''incr'']) =
       Inl (Exc ''RuntimeError'' (Str ''boom'')
              (Ary [Str ''server.rb:7'', Str ''romp.rb:1'', Str ''main.rb:1'']))"
    by (simp add: ruby0_def apply_send0_def boom_def)
  have c: "log (snd (snd (server_loop_body ruby0 (Obj 0) server_info0
        (world0\<lparr>rd := ?w5 @ [4, 8, 91, 6]\<rparr>)))) = [Invoked (Obj 5) (Ary [Str ''incr''])]"
    using gm5
    by (simp add: server_loop_body_def rb_rescue2_def server_reply_def ruby_get_object_def
          rb_protect_def server_funcall_def ruby_send_def Let_def ROMP_defs
          ruby0_def get_object0_def apply_send0_def boom_def server_info0_def world0_def)
  from a b c show ?thesis by simp
qed

end
